theory Spec2Isabelle
  imports Complex_Main
begin

section \<open>PlutoTools: interpolation, coordinate transforms, ion-fraction table, streamlines\<close>

text \<open>
  A shallow embedding of the numerical core of \<^verbatim>\<open>PlutoTools/PlutoTools/Tools.py\<close> and of the
  older \<^verbatim>\<open>simulationData.py\<close>.  Floating-point numbers are idealised: a finite float is a
  \<^typ>\<open>real\<close>, rounding and overflow are not modelled, and not-a-number and the
  infinities are values of their own where the program produces or tests them.
  Exceptions are values of the type
  \<open>error\<close>; a function that can raise returns \<open>error + 'a\<close> with \<open>Inl\<close> the exception.
  The routines of numpy and scipy that the program calls are not part of it: the small
  ones are modelled as the libraries behave, with the defaults the program leaves in
  force, and \<^verbatim>\<open>griddata\<close> and the ODE integrator are parameters.
\<close>

subsection \<open>Exceptions and floats\<close>

datatype error =
    IndexError              \<comment> \<open>index outside an array or list\<close>
  | KeyError                \<comment> \<open>missing dictionary key\<close>
  | OverflowError           \<comment> \<open>\<^verbatim>\<open>int()\<close> of an infinite float\<close>
  | ValueError_nan          \<comment> \<open>\<^verbatim>\<open>int()\<close> of a float that is not a number\<close>
  | ZeroDivisionError       \<comment> \<open>division of Python floats by zero\<close>
  | ValueError_broadcast    \<comment> \<open>numpy: operands could not be broadcast together\<close>
  | ValueError_length       \<comment> \<open>scipy \<^verbatim>\<open>interp1d\<close>: x and y differ in length, or too few entries\<close>
  | ValueError_bounds       \<comment> \<open>scipy \<^verbatim>\<open>interp1d\<close>: a value in x_new is outside the interpolation range\<close>
  | ValueError_samples      \<comment> \<open>numpy \<^verbatim>\<open>linspace\<close>: negative number of samples\<close>
  | LibraryError            \<comment> \<open>any failure inside \<^verbatim>\<open>scipy.interpolate.griddata\<close>\<close>

definition bindE :: "error + 'a \<Rightarrow> ('a \<Rightarrow> error + 'b) \<Rightarrow> error + 'b" where
  "bindE m f = (case m of Inl e \<Rightarrow> Inl e | Inr v \<Rightarrow> f v)"

text \<open>The entries of a grid and the results of the interpolations: a finite float or
  not-a-number.  As overflow is not modelled, an infinity can only come from a division by
  zero; such a quotient is either discarded or used as a coordinate of the sampler, which
  treats every coordinate that is not finite alike, and \<open>NaN\<close> stands for it there.\<close>

datatype fval = Num real | NaN

fun lift2 :: "(real \<Rightarrow> real \<Rightarrow> real) \<Rightarrow> fval \<Rightarrow> fval \<Rightarrow> fval" where
  "lift2 f (Num a) (Num b) = Num (f a b)"
| "lift2 f _ _ = NaN"

definition fadd :: "fval \<Rightarrow> fval \<Rightarrow> fval" where "fadd = lift2 (+)"
definition fsub :: "fval \<Rightarrow> fval \<Rightarrow> fval" where "fsub = lift2 (-)"
definition fmul :: "fval \<Rightarrow> fval \<Rightarrow> fval" where "fmul = lift2 (*)"

text \<open>\<^verbatim>\<open>a / b\<close> on numpy floats: a zero divisor gives a warning and a result that is not
  finite, never an exception.\<close>

definition np_divide :: "real \<Rightarrow> real \<Rightarrow> fval" where
  "np_divide a b = (if b = 0 then NaN else Num (a / b))"

text \<open>\<^verbatim>\<open>a > b\<close> on floats: False as soon as \<open>a\<close> is not-a-number.\<close>

fun fgt :: "fval \<Rightarrow> real \<Rightarrow> bool" where
  "fgt (Num a) b = (a > b)"
| "fgt NaN b = False"

text \<open>\<^verbatim>\<open>xs[i]\<close> on a list or a one-dimensional array: a negative index counts from the end.\<close>

definition np_index :: "'a list \<Rightarrow> int \<Rightarrow> error + 'a" where
  "np_index xs i =
     (if 0 \<le> i \<and> i < int (length xs) then Inr (xs ! nat i)
      else if i < 0 \<and> - int (length xs) \<le> i then Inr (xs ! nat (int (length xs) + i))
      else Inl IndexError)"

text \<open>A numpy float with its infinities and not-a-number told apart, for the queries of
  the table lookup: the logarithm of zero is minus infinity there, and the bracket
  search compares it with finite numbers.\<close>

datatype npfloat = Finite real | PosInf | NegInf | NotANumber

text \<open>\<^verbatim>\<open>np.log10\<close>: minus infinity at zero and not-a-number below, with a warning and
  without an exception.\<close>

fun np_log10 :: "npfloat \<Rightarrow> npfloat" where
  "np_log10 (Finite t) = (if 0 < t then Finite (log 10 t) else if t = 0 then NegInf else NotANumber)"
| "np_log10 PosInf = PosInf"
| "np_log10 NegInf = NotANumber"
| "np_log10 NotANumber = NotANumber"

text \<open>\<^verbatim>\<open>x - b\<close>, \<^verbatim>\<open>x <= b\<close>, \<^verbatim>\<open>x >= b\<close> and \<^verbatim>\<open>x / b\<close> for a numpy float \<open>x\<close> and a finite \<open>b\<close>.  A
  comparison with not-a-number is False; a zero divisor is the positive zero that the
  difference of two equal numbers is.\<close>

fun nf_sub :: "npfloat \<Rightarrow> real \<Rightarrow> npfloat" where
  "nf_sub (Finite a) b = Finite (a - b)"
| "nf_sub PosInf b = PosInf"
| "nf_sub NegInf b = NegInf"
| "nf_sub NotANumber b = NotANumber"

fun nf_le :: "npfloat \<Rightarrow> real \<Rightarrow> bool" where
  "nf_le (Finite a) b = (a \<le> b)"
| "nf_le PosInf b = False"
| "nf_le NegInf b = True"
| "nf_le NotANumber b = False"

fun nf_ge :: "npfloat \<Rightarrow> real \<Rightarrow> bool" where
  "nf_ge (Finite a) b = (a \<ge> b)"
| "nf_ge PosInf b = True"
| "nf_ge NegInf b = False"
| "nf_ge NotANumber b = False"

fun nf_div :: "npfloat \<Rightarrow> real \<Rightarrow> npfloat" where
  "nf_div (Finite a) b =
     (if b = 0 then (if 0 < a then PosInf else if a < 0 then NegInf else NotANumber)
      else Finite (a / b))"
| "nf_div PosInf b = (if b < 0 then NegInf else PosInf)"
| "nf_div NegInf b = (if b < 0 then PosInf else NegInf)"
| "nf_div NotANumber b = NotANumber"

text \<open>\<^verbatim>\<open>int(np.floor(x))\<close> and \<^verbatim>\<open>int(np.ceil(x))\<close>: Python's \<^verbatim>\<open>int\<close> raises OverflowError on an
  infinity and ValueError on not-a-number.\<close>

fun int_floor :: "npfloat \<Rightarrow> error + int" where
  "int_floor (Finite a) = Inr \<lfloor>a\<rfloor>"
| "int_floor PosInf = Inl OverflowError"
| "int_floor NegInf = Inl OverflowError"
| "int_floor NotANumber = Inl ValueError_nan"

fun int_ceil :: "npfloat \<Rightarrow> error + int" where
  "int_ceil (Finite a) = Inr \<lceil>a\<rceil>"
| "int_ceil PosInf = Inl OverflowError"
| "int_ceil NegInf = Inl OverflowError"
| "int_ceil NotANumber = Inl ValueError_nan"

text \<open>A numpy float as a weight of a blend, where only finite values are told apart.\<close>

fun fval_of :: "npfloat \<Rightarrow> fval" where
  "fval_of (Finite a) = Num a"
| "fval_of PosInf = NaN"
| "fval_of NegInf = NaN"
| "fval_of NotANumber = NaN"

subsection \<open>The ion-fraction table (\<^verbatim>\<open>IonFraction\<close>, \<^verbatim>\<open>IonFractionCollection\<close>)\<close>

record IonFraction =
  ion_t :: real
  ion_zeta :: real
  ion_nn :: real
  ion_xe :: real

record IonFractionCollection =
  ion_data :: "real list list list"
  n_temp :: int
  n_zeta :: int
  n_nn :: int
  d_temp :: real
  d_zeta :: real
  d_nn :: real
  start_temp :: real
  end_temp :: real
  start_zeta :: real
  end_zeta :: real
  start_nn :: real
  end_nn :: real
  temp_array :: "real list"
  zeta_array :: "real list"
  nn_array :: "real list"

text \<open>\<^verbatim>\<open>np.array(sorted(list(set(xs))))\<close>\<close>

definition sorted_set :: "real list \<Rightarrow> real list" where
  "sorted_set xs = sort (remdups xs)"

text \<open>\<^verbatim>\<open>np.where(arr == v)[0][0]\<close>: the first position holding \<open>v\<close>, IndexError when there
  is none.\<close>

fun np_where_first :: "real list \<Rightarrow> real \<Rightarrow> error + nat" where
  "np_where_first [] v = Inl IndexError"
| "np_where_first (a # arr) v =
     (if a = v then Inr 0 else bindE (np_where_first arr v) (\<lambda>i. Inr (Suc i)))"

text \<open>\<^verbatim>\<open>np.zeros([l, m, n])\<close>\<close>

definition np_zeros3 :: "nat \<Rightarrow> nat \<Rightarrow> nat \<Rightarrow> real list list list" where
  "np_zeros3 l m n = replicate l (replicate m (replicate n 0))"

text \<open>\<^verbatim>\<open>d[i][j][k] = v\<close>\<close>

definition cube_set :: "real list list list \<Rightarrow> nat \<Rightarrow> nat \<Rightarrow> nat \<Rightarrow> real \<Rightarrow> error + real list list list" where
  "cube_set d i j k v =
     (if i < length d \<and> j < length (d ! i) \<and> k < length (d ! i ! j)
      then Inr (d[i := (d ! i)[j := (d ! i ! j)[k := v]]])
      else Inl IndexError)"

text \<open>\<^verbatim>\<open>d[i][j][k]\<close> with integer indices.\<close>

definition cube_get :: "real list list list \<Rightarrow> int \<Rightarrow> int \<Rightarrow> int \<Rightarrow> error + real" where
  "cube_get d i j k =
     bindE (np_index d i) (\<lambda>plane. bindE (np_index plane j) (\<lambda>row. np_index row k))"

text \<open>The loop of \<^verbatim>\<open>loadIonData\<close> that scatters every sample into the cube.\<close>

fun scatter :: "real list \<Rightarrow> real list \<Rightarrow> real list \<Rightarrow> IonFraction list \<Rightarrow>
    real list list list \<Rightarrow> error + real list list list" where
  "scatter ta za na [] d = Inr d"
| "scatter ta za na (element # rest) d =
     bindE (np_where_first ta (ion_t element)) (\<lambda>i_t.
     bindE (np_where_first za (ion_zeta element)) (\<lambda>i_zeta.
     bindE (np_where_first na (ion_nn element)) (\<lambda>i_nn.
     bindE (cube_set d i_t i_zeta i_nn (ion_xe element)) (\<lambda>d'.
     scatter ta za na rest d'))))"

text \<open>\<^verbatim>\<open>loadIonData\<close> on a fresh collection.  Reading the pickle file is outside the model:
  \<open>loadedData\<close> is the list it holds.  The cube has the fixed size 20 x 20 x 20 of the
  source.  Sample coordinates are positive physical quantities; \<open>log 10\<close> stands for
  \<^verbatim>\<open>np.log10\<close> on them.\<close>

definition loadIonData :: "IonFraction list \<Rightarrow> error + IonFractionCollection" where
  "loadIonData loadedData =
     (let ta = sorted_set (map ion_t loadedData);
          za = sorted_set (map ion_zeta loadedData);
          na = sorted_set (map ion_nn loadedData)
      in bindE (scatter ta za na loadedData (np_zeros3 20 20 20)) (\<lambda>d.
         let ta = map (log 10) ta;
             za = map (log 10) za;
             na = map (log 10) na
         in bindE (np_index ta 1) (\<lambda>t1. bindE (np_index ta 0) (\<lambda>t0.
            bindE (np_index za 1) (\<lambda>z1. bindE (np_index za 0) (\<lambda>z0.
            bindE (np_index na 1) (\<lambda>n1. bindE (np_index na 0) (\<lambda>n0.
            bindE (np_index ta 0) (\<lambda>st. bindE (np_index ta (- 1)) (\<lambda>et.
            bindE (np_index za 0) (\<lambda>sz. bindE (np_index za (- 1)) (\<lambda>ez.
            bindE (np_index na 0) (\<lambda>sn. bindE (np_index na (- 1)) (\<lambda>en.
            Inr \<lparr> ion_data = d,
                  n_temp = int (length ta), n_zeta = int (length za), n_nn = int (length na),
                  d_temp = t1 - t0, d_zeta = z1 - z0, d_nn = n1 - n0,
                  start_temp = st, end_temp = et,
                  start_zeta = sz, end_zeta = ez,
                  start_nn = sn, end_nn = en,
                  temp_array = ta, zeta_array = za, nn_array = na \<rparr>))))))))))))))"

text \<open>The three bracket searches.  The argument is the logarithm of a query and need not
  be finite: minus infinity takes the first branch, plus infinity the second, and
  not-a-number reaches \<^verbatim>\<open>int(np.floor(index))\<close>, which raises ValueError on it; the same
  call raises OverflowError when the spacing is zero and the quotient infinite.\<close>

definition getIndicesForTempValue :: "IonFractionCollection \<Rightarrow> npfloat \<Rightarrow> error + int \<times> int" where
  "getIndicesForTempValue self x0 =
     (let x = nf_sub x0 (start_temp self) in
      if nf_le x 0 then Inr (0, 0)
      else if nf_ge x (end_temp self - start_temp self) then Inr (n_temp self - 1, n_temp self - 1)
      else (let index = nf_div x (d_temp self) in
            bindE (int_floor index) (\<lambda>l. bindE (int_ceil index) (\<lambda>r. Inr (l, r)))))"

definition getIndicesForZetaValue :: "IonFractionCollection \<Rightarrow> npfloat \<Rightarrow> error + int \<times> int" where
  "getIndicesForZetaValue self x0 =
     (let x = nf_sub x0 (start_zeta self) in
      if nf_le x 0 then Inr (0, 0)
      else if nf_ge x (end_zeta self - start_zeta self) then Inr (n_zeta self - 1, n_zeta self - 1)
      else (let index = nf_div x (d_zeta self) in
            bindE (int_floor index) (\<lambda>l. bindE (int_ceil index) (\<lambda>r. Inr (l, r)))))"

definition getIndicesForNnValue :: "IonFractionCollection \<Rightarrow> npfloat \<Rightarrow> error + int \<times> int" where
  "getIndicesForNnValue self x0 =
     (let x = nf_sub x0 (start_nn self) in
      if nf_le x 0 then Inr (0, 0)
      else if nf_ge x (end_nn self - start_nn self) then Inr (n_nn self - 1, n_nn self - 1)
      else (let index = nf_div x (d_nn self) in
            bindE (int_floor index) (\<lambda>l. bindE (int_ceil index) (\<lambda>r. Inr (l, r)))))"

text \<open>Lines 147 to 159 of \<^verbatim>\<open>interpolateIonFraction\<close>, for one axis: the scaled difference is
  computed first, by a numpy division that cannot raise, and then overwritten with 0
  when the two bracketing axis values coincide.\<close>

definition scaled_difference :: "npfloat \<Rightarrow> real \<Rightarrow> real \<Rightarrow> fval" where
  "scaled_difference x xa xb =
     (let x_d = fval_of (nf_div (nf_sub x xa) (xb - xa)) in
      if xa = xb then Num 0 else x_d)"

text \<open>\<^verbatim>\<open>ca * (1.0 - w) + cb * w\<close>\<close>

definition blend :: "fval \<Rightarrow> fval \<Rightarrow> fval \<Rightarrow> fval" where
  "blend ca cb w = fadd (fmul ca (fsub (Num 1) w)) (fmul cb w)"

text \<open>The lookup.  The three queries are floats of any kind; the result is the float
  \<^verbatim>\<open>c\<close>.\<close>

definition interpolateIonFraction ::
    "IonFractionCollection \<Rightarrow> npfloat \<Rightarrow> npfloat \<Rightarrow> npfloat \<Rightarrow> error + fval" where
  "interpolateIonFraction self temp zeta nn =
     (let x = np_log10 temp; y = np_log10 zeta; z = np_log10 nn in
      bindE (getIndicesForTempValue self x) (\<lambda>(xl, xr).
      bindE (getIndicesForZetaValue self y) (\<lambda>(yl, yr).
      bindE (getIndicesForNnValue self z) (\<lambda>(zl, zr).
      bindE (np_index (temp_array self) xl) (\<lambda>xa.
      bindE (np_index (temp_array self) xr) (\<lambda>xb.
      bindE (np_index (zeta_array self) yl) (\<lambda>ya.
      bindE (np_index (zeta_array self) yr) (\<lambda>yb.
      bindE (np_index (nn_array self) zl) (\<lambda>za.
      bindE (np_index (nn_array self) zr) (\<lambda>zb.
      let x_d = scaled_difference x xa xb;
          y_d = scaled_difference y ya yb;
          z_d = scaled_difference z za zb
      in
      bindE (cube_get (ion_data self) xl yl zl) (\<lambda>c000.
      bindE (cube_get (ion_data self) xl yl zr) (\<lambda>c001.
      bindE (cube_get (ion_data self) xl yr zl) (\<lambda>c010.
      bindE (cube_get (ion_data self) xl yr zr) (\<lambda>c011.
      bindE (cube_get (ion_data self) xr yl zl) (\<lambda>c100.
      bindE (cube_get (ion_data self) xr yl zr) (\<lambda>c101.
      bindE (cube_get (ion_data self) xr yr zl) (\<lambda>c110.
      bindE (cube_get (ion_data self) xr yr zr) (\<lambda>c111.
      let c00 = blend (Num c000) (Num c100) x_d;
          c01 = blend (Num c001) (Num c101) x_d;
          c10 = blend (Num c010) (Num c110) x_d;
          c11 = blend (Num c011) (Num c111) x_d;
          c0 = blend c00 c10 y_d;
          c1 = blend c01 c11 y_d;
          c = blend c0 c1 z_d
      in Inr c))))))))))))))))))"

subsection \<open>Arrays, the mesh object and numpy broadcasting\<close>

type_synonym matrix = "real list list"
type_synonym fgrid = "fval list list"

text \<open>A range \<^verbatim>\<open>[start, end, count]\<close> as the callers build it.\<close>

type_synonym axis_range = "real \<times> real \<times> int"

text \<open>The object \<^verbatim>\<open>data\<close> (\<^verbatim>\<open>Data\<close>, \<^verbatim>\<open>SimulationData\<close>): the mesh, and the dictionary of
  fields in its insertion order.  Every other attribute lives in the extension part of
  the record.\<close>

record Data =
  data_x1 :: "real list"
  data_x2 :: "real list"
  data_dx1 :: "real list"
  data_dx2 :: "real list"
  data_variables :: "(string \<times> matrix) list"

definition dict_get :: "(string \<times> 'a) list \<Rightarrow> string \<Rightarrow> error + 'a" where
  "dict_get d k = (case map_of d k of None \<Rightarrow> Inl KeyError | Some v \<Rightarrow> Inr v)"

fun dict_set :: "(string \<times> 'a) list \<Rightarrow> string \<Rightarrow> 'a \<Rightarrow> (string \<times> 'a) list" where
  "dict_set [] k v = [(k, v)]"
| "dict_set ((k', v') # d) k v = (if k' = k then (k, v) # d else (k', v') # dict_set d k v)"

text \<open>The shape of a two-dimensional array given by its rows.  An array without rows
  has shape (0, 0) here.\<close>

definition np_shape :: "'a list list \<Rightarrow> nat \<times> nat" where
  "np_shape a = (length a, case a of [] \<Rightarrow> 0 | r # _ \<Rightarrow> length r)"

text \<open>numpy's broadcasting rule for one dimension: equal extents, or one of them 1.\<close>

definition broadcast_dim :: "nat \<Rightarrow> nat \<Rightarrow> nat option" where
  "broadcast_dim m n =
     (if m = n then Some m else if m = 1 then Some n else if n = 1 then Some m else None)"

text \<open>An elementwise binary operation of numpy (\<^verbatim>\<open>a * b\<close>, \<^verbatim>\<open>a + b\<close>, \<^verbatim>\<open>a - b\<close>) on
  two-dimensional arrays: an extent of 1 is stretched, incompatible extents raise.\<close>

definition np_binop :: "('a \<Rightarrow> 'b \<Rightarrow> 'c) \<Rightarrow> 'a list list \<Rightarrow> 'b list list \<Rightarrow> error + 'c list list" where
  "np_binop f a b =
     (case (np_shape a, np_shape b) of ((ra, ca), (rb, cb)) \<Rightarrow>
        (case (broadcast_dim ra rb, broadcast_dim ca cb) of
           (Some r, Some c) \<Rightarrow>
             Inr (map (\<lambda>i. map (\<lambda>j.
                    f (a ! (if ra = 1 then 0 else i) ! (if ca = 1 then 0 else j))
                      (b ! (if rb = 1 then 0 else i) ! (if cb = 1 then 0 else j)))
                  [0..<c]) [0..<r])
         | _ \<Rightarrow> Inl ValueError_broadcast))"

definition np_map :: "('a \<Rightarrow> 'b) \<Rightarrow> 'a list list \<Rightarrow> 'b list list" where
  "np_map f a = map (map f) a"

subsection \<open>\<^verbatim>\<open>Transform\<close>\<close>

text \<open>\<^verbatim>\<open>np.transpose(np.tile(v, (n, 1)))\<close>: one row per entry of \<open>v\<close>, that entry repeated
  \<open>n\<close> times.\<close>

definition tile_transpose :: "real list \<Rightarrow> nat \<Rightarrow> matrix" where
  "tile_transpose v n = map (\<lambda>th. replicate n th) v"

definition transformVelocityFieldToCylindrical :: "'a Data_scheme \<Rightarrow> error + matrix \<times> matrix" where
  "transformVelocityFieldToCylindrical d =
     bindE (dict_get (data_variables d) ''vx1'') (\<lambda>vx1.
     bindE (dict_get (data_variables d) ''vx2'') (\<lambda>vx2.
     let x2 = tile_transpose (data_x2 d) (length (data_x1 d)) in
     bindE (np_binop (*) vx1 (np_map sin x2)) (\<lambda>a.
     bindE (np_binop (*) vx2 (np_map cos x2)) (\<lambda>b.
     bindE (np_binop (+) a b) (\<lambda>vx1_t.
     bindE (np_binop (*) vx1 (np_map cos x2)) (\<lambda>a'.
     bindE (np_binop (*) vx2 (np_map sin x2)) (\<lambda>b'.
     bindE (np_binop (-) a' b') (\<lambda>vx2_t.
     Inr (vx1_t, vx2_t)))))))))"

definition transformMagneticFieldToCylindrical :: "'a Data_scheme \<Rightarrow> error + matrix \<times> matrix" where
  "transformMagneticFieldToCylindrical d =
     bindE (dict_get (data_variables d) ''bx1'') (\<lambda>bx1.
     bindE (dict_get (data_variables d) ''bx2'') (\<lambda>bx2.
     let x2 = tile_transpose (data_x2 d) (length (data_x1 d)) in
     bindE (np_binop (*) bx1 (np_map sin x2)) (\<lambda>a.
     bindE (np_binop (*) bx2 (np_map cos x2)) (\<lambda>b.
     bindE (np_binop (+) a b) (\<lambda>bx1_t.
     bindE (np_binop (*) bx1 (np_map cos x2)) (\<lambda>a'.
     bindE (np_binop (*) bx2 (np_map sin x2)) (\<lambda>b'.
     bindE (np_binop (-) a' b') (\<lambda>bx2_t.
     Inr (bx1_t, bx2_t)))))))))"

text \<open>The version of \<^verbatim>\<open>simulationData.py\<close> (class \<^verbatim>\<open>Tools\<close>) stores the two rotated fields
  back into the dictionary.\<close>

definition Tools_transformVelocityFieldToCylindrical :: "'a Data_scheme \<Rightarrow> error + 'a Data_scheme" where
  "Tools_transformVelocityFieldToCylindrical d =
     bindE (dict_get (data_variables d) ''vx1'') (\<lambda>vx1.
     bindE (dict_get (data_variables d) ''vx2'') (\<lambda>vx2.
     let x2 = tile_transpose (data_x2 d) (length (data_x1 d)) in
     bindE (np_binop (*) vx1 (np_map sin x2)) (\<lambda>a.
     bindE (np_binop (*) vx2 (np_map cos x2)) (\<lambda>b.
     bindE (np_binop (+) a b) (\<lambda>vx1_t.
     let d = d\<lparr>data_variables := dict_set (data_variables d) ''vx1'' vx1_t\<rparr> in
     bindE (np_binop (*) vx1 (np_map cos x2)) (\<lambda>a'.
     bindE (np_binop (*) vx2 (np_map sin x2)) (\<lambda>b'.
     bindE (np_binop (-) a' b') (\<lambda>vx2_t.
     Inr (d\<lparr>data_variables := dict_set (data_variables d) ''vx2'' vx2_t\<rparr>)))))))))"

text \<open>\<^verbatim>\<open>np.meshgrid(xs, ys)\<close>: both results have one row per entry of \<open>ys\<close>.\<close>

definition meshgrid :: "real list \<Rightarrow> real list \<Rightarrow> matrix \<times> matrix" where
  "meshgrid xs ys = (map (\<lambda>y. xs) ys, map (\<lambda>y. map (\<lambda>x. y) xs) ys)"

text \<open>The two factors come from one \<^verbatim>\<open>meshgrid\<close> call, so that the products are taken
  entry by entry.\<close>

definition polarCoordsToCartesian :: "'a Data_scheme \<Rightarrow> matrix \<times> matrix" where
  "polarCoordsToCartesian d =
     (case meshgrid (data_x1 d) (data_x2 d) of (r_matrix, th_matrix) \<Rightarrow>
        (map2 (map2 (\<lambda>r th. r * sin th)) r_matrix th_matrix,
         map2 (map2 (\<lambda>r th. r * cos th)) r_matrix th_matrix))"

subsection \<open>\<^verbatim>\<open>Interpolate\<close>: resampling onto a uniform grid\<close>

text \<open>\<^verbatim>\<open>np.linspace(start, stop, num)\<close>\<close>

definition linspace :: "axis_range \<Rightarrow> error + real list" where
  "linspace rng =
     (case rng of (start, stop, num) \<Rightarrow>
        if num < 0 then Inl ValueError_samples
        else Inr (map (\<lambda>i. start + real i * ((stop - start) / (real (nat num) - 1))) [0..<nat num]))"

text \<open>\<^verbatim>\<open>scipy.interpolate.griddata\<close> is a library routine and a parameter of the model:
  from the scattered points and their values it either fails or yields the interpolant,
  which gives a number or not-a-number at every query point.\<close>

type_synonym griddata_fn = "(real \<times> real) list \<Rightarrow> real list \<Rightarrow> error + (real \<times> real \<Rightarrow> fval)"

text \<open>\<^verbatim>\<open>Interpolate.interpolateToUniformGrid\<close> of \<^verbatim>\<open>Tools.py\<close>.\<close>

definition Interpolate_interpolateToUniformGrid ::
    "griddata_fn \<Rightarrow> 'a Data_scheme \<Rightarrow> matrix \<Rightarrow> axis_range \<Rightarrow> axis_range \<Rightarrow> error + matrix \<times> matrix \<times> fgrid" where
  "Interpolate_interpolateToUniformGrid griddata d variable x_range y_range =
     (case polarCoordsToCartesian d of (x, y) \<Rightarrow>
      let x = concat x;
          y = concat y;
          variable = concat variable;
          points = zip x y
      in bindE (linspace x_range) (\<lambda>xs. bindE (linspace y_range) (\<lambda>ys.
         case meshgrid xs ys of (grid_x, grid_y) \<Rightarrow>
         bindE (griddata points variable) (\<lambda>f.
         let newVariable = map2 (map2 (\<lambda>gx gy. f (gx, gy))) grid_x grid_y;
             grid_r = map2 (map2 (\<lambda>gx gy. sqrt (gx\<^sup>2 + gy\<^sup>2))) grid_x grid_y;
             newVariable = map2 (map2 (\<lambda>v r. if r < 1 then NaN else v)) newVariable grid_r
         in Inr (grid_x, grid_y, newVariable)))))"

text \<open>\<^verbatim>\<open>Tools.interpolateToUniformGrid\<close> of \<^verbatim>\<open>simulationData.py\<close>.\<close>

definition Tools_interpolateToUniformGrid ::
    "griddata_fn \<Rightarrow> 'a Data_scheme \<Rightarrow> matrix \<Rightarrow> axis_range \<Rightarrow> axis_range \<Rightarrow> error + matrix \<times> matrix \<times> fgrid" where
  "Tools_interpolateToUniformGrid griddata d variable x_range y_range =
     (case polarCoordsToCartesian d of (x, y) \<Rightarrow>
      let x = concat x;
          y = concat y;
          variable = concat variable;
          points = zip x y
      in bindE (linspace x_range) (\<lambda>xs. bindE (linspace y_range) (\<lambda>ys.
         case meshgrid xs ys of (grid_x, grid_y) \<Rightarrow>
         bindE (griddata points variable) (\<lambda>f.
         let newVariable = map2 (map2 (\<lambda>gx gy. f (gx, gy))) grid_x grid_y
         in Inr (grid_x, grid_y, newVariable)))))"

subsection \<open>\<^verbatim>\<open>Interpolate\<close>: sampling a uniform grid at a point\<close>

text \<open>\<^verbatim>\<open>scipy.ndimage.map_coordinates(input, [[r], [c]], order=1)\<close> for one point.  The
  source passes neither \<^verbatim>\<open>mode\<close> nor \<^verbatim>\<open>cval\<close>, so that the defaults \<^verbatim>\<open>mode='constant'\<close> and
  \<^verbatim>\<open>cval=0.0\<close> apply: a coordinate outside the array, or one that is not finite, gives the
  fill value; a coordinate inside gives the sum of the four neighbours, each times the
  product of its two weights, so that a neighbour that is not-a-number makes the result
  not-a-number even under the weight 0.  Beyond the last row or column the library
  takes the neighbour by reflection about that row or column.  The first coordinate
  selects the row.  The one-entry result array is given as its entry.\<close>

definition map_coordinates_order1 :: "fgrid \<Rightarrow> fval \<times> fval \<Rightarrow> fval" where
  "map_coordinates_order1 input pp =
     (case np_shape input of (rows, cols) \<Rightarrow>
        (case pp of
           (Num r, Num c) \<Rightarrow>
             if r < 0 \<or> real rows - 1 < r \<or> c < 0 \<or> real cols - 1 < c then Num 0
             else
               let i0 = nat \<lfloor>r\<rfloor>;
                   j0 = nat \<lfloor>c\<rfloor>;
                   i1 = (if i0 + 1 < rows then i0 + 1 else rows - 2);
                   j1 = (if j0 + 1 < cols then j0 + 1 else cols - 2);
                   fr = r - real i0;
                   fc = c - real j0
               in fadd (fadd (fmul (Num ((1 - fr) * (1 - fc))) (input ! i0 ! j0))
                             (fmul (Num ((1 - fr) * fc)) (input ! i0 ! j1)))
                       (fadd (fmul (Num (fr * (1 - fc))) (input ! i1 ! j0))
                             (fmul (Num (fr * fc)) (input ! i1 ! j1)))
         | _ \<Rightarrow> Num 0))"

text \<open>A component of a point is a Python float or a numpy float (an entry of an array);
  arithmetic with the plain Python numbers of a range keeps its kind.  The division by
  the width of a range is Python's own for a Python float, and raises ZeroDivisionError
  on the width zero; for a numpy float it is numpy's, which warns and goes on.\<close>

datatype scalar = PyFloat real | NpFloat real

fun float_value :: "scalar \<Rightarrow> real" where
  "float_value (PyFloat a) = a"
| "float_value (NpFloat a) = a"

fun scalar_apply :: "(real \<Rightarrow> real) \<Rightarrow> scalar \<Rightarrow> scalar" where
  "scalar_apply g (PyFloat a) = PyFloat (g a)"
| "scalar_apply g (NpFloat a) = NpFloat (g a)"

fun true_divide :: "scalar \<Rightarrow> real \<Rightarrow> error + fval" where
  "true_divide (PyFloat a) b = (if b = 0 then Inl ZeroDivisionError else Inr (Num (a / b)))"
| "true_divide (NpFloat a) b = Inr (np_divide a b)"

text \<open>The fractional index has the Y component first.\<close>

definition interpolatePoint2D ::
    "axis_range \<Rightarrow> axis_range \<Rightarrow> fgrid \<Rightarrow> scalar \<times> scalar \<Rightarrow> error + fval" where
  "interpolatePoint2D x_range y_range dat p =
     (case (x_range, y_range) of ((xa, xb, xn), (ya, yb, yn)) \<Rightarrow>
        bindE (true_divide (scalar_apply (\<lambda>v. (v - ya) * real_of_int yn) (snd p)) (yb - ya)) (\<lambda>r.
        bindE (true_divide (scalar_apply (\<lambda>v. (v - xa) * real_of_int xn) (fst p)) (xb - xa)) (\<lambda>c.
        let pp = (r, c)
        in Inr (map_coordinates_order1 dat pp))))"

definition singlePointInterpolation ::
    "real \<Rightarrow> scalar \<times> scalar \<Rightarrow> fgrid \<Rightarrow> fgrid \<Rightarrow> axis_range \<Rightarrow> axis_range \<Rightarrow> error + fval \<times> fval" where
  "singlePointInterpolation t p vx1 vx2 x_range y_range =
     (case (x_range, y_range) of ((xa, xb, xn), (ya, yb, yn)) \<Rightarrow>
        bindE (true_divide (scalar_apply (\<lambda>v. (v - ya) * real_of_int yn) (snd p)) (yb - ya)) (\<lambda>r.
        bindE (true_divide (scalar_apply (\<lambda>v. (v - xa) * real_of_int xn) (fst p)) (xb - xa)) (\<lambda>c.
        let pp = (r, c)
        in Inr (map_coordinates_order1 vx1 pp, map_coordinates_order1 vx2 pp))))"

subsection \<open>\<^verbatim>\<open>Interpolate.interpolateRadialGrid\<close>\<close>

text \<open>\<^verbatim>\<open>np.searchsorted(xs, v)\<close> on an ascending array.\<close>

definition np_searchsorted :: "real list \<Rightarrow> real \<Rightarrow> nat" where
  "np_searchsorted xs v = length (takeWhile (\<lambda>a. a < v) xs)"

text \<open>\<^verbatim>\<open>scipy.interpolate.interp1d(x, y)\<close> with its defaults (linear, bounds checked), as the
  library documents it: the constructor wants as many ordinates as abscissae and at least
  two of them, and sorts the nodes.\<close>

definition interp1d :: "real list \<Rightarrow> real list \<Rightarrow> error + (real \<times> real) list" where
  "interp1d x y =
     (if length x \<noteq> length y \<or> length x < 2 then Inl ValueError_length
      else Inr (sort_key fst (zip x y)))"

text \<open>The linear kind of the interpolant at one abscissa: the position found by
  \<^verbatim>\<open>searchsorted\<close>, clipped to \<open>1 \<dots> len - 1\<close>, is the upper node; the value lies on the
  chord through the lower and the upper node.\<close>

definition call_linear :: "real list \<Rightarrow> real list \<Rightarrow> real \<Rightarrow> real" where
  "call_linear x y v =
     (let hi = max 1 (min (np_searchsorted x v) (length x - 1));
          lo = hi - 1;
          slope = (y ! hi - y ! lo) / (x ! hi - x ! lo)
      in slope * (v - x ! lo) + y ! lo)"

text \<open>Calling the interpolant on an array of new abscissae: any of them outside the range
  of the nodes raises.\<close>

definition interp1d_call :: "(real \<times> real) list \<Rightarrow> real list \<Rightarrow> error + real list" where
  "interp1d_call f x_new =
     (let x = map fst f; y = map snd f in
      if list_ex (\<lambda>v. v < hd x \<or> last x < v) x_new then Inl ValueError_bounds
      else Inr (map (call_linear x y) x_new))"

text \<open>The inner loop over the rows of one field.\<close>

fun interpolate_rows :: "real list \<Rightarrow> real list \<Rightarrow> matrix \<Rightarrow> error + matrix" where
  "interpolate_rows x1 newTicks [] = Inr []"
| "interpolate_rows x1 newTicks (row # rows) =
     bindE (interp1d x1 row) (\<lambda>f.
     bindE (interp1d_call f newTicks) (\<lambda>r.
     bindE (interpolate_rows x1 newTicks rows) (\<lambda>rs. Inr (r # rs))))"

text \<open>The outer loop over the dictionary.  A field is replaced as soon as it has been
  interpolated; an exception leaves the fields before it replaced and the others as
  they were.\<close>

fun radial_loop :: "real list \<Rightarrow> real list \<Rightarrow> (string \<times> matrix) list \<Rightarrow>
    (string \<times> matrix) list \<times> error option" where
  "radial_loop x1 newTicks [] = ([], None)"
| "radial_loop x1 newTicks ((key, val) # rest) =
     (case interpolate_rows x1 newTicks val of
        Inl e \<Rightarrow> ((key, val) # rest, Some e)
      | Inr interpolated \<Rightarrow>
          (case radial_loop x1 newTicks rest of (rest', r) \<Rightarrow> ((key, interpolated) # rest', r)))"

text \<open>The object is mutated in place: the result is the object after the call, with the
  exception that ended the call, if any.  The versions of \<^verbatim>\<open>Tools.py\<close> and of
  \<^verbatim>\<open>simulationData.py\<close> have the same body; the first also returns the object.\<close>

definition interpolateRadialGrid :: "'a Data_scheme \<Rightarrow> real list \<Rightarrow> 'a Data_scheme \<times> error option" where
  "interpolateRadialGrid d newTicks =
     (case radial_loop (data_x1 d) newTicks (data_variables d) of
        (vars, Some e) \<Rightarrow> (d\<lparr>data_variables := vars\<rparr>, Some e)
      | (vars, None) \<Rightarrow> (d\<lparr>data_variables := vars, data_x1 := newTicks\<rparr>, None))"

subsection \<open>\<^verbatim>\<open>Compute.computeStreamline\<close>\<close>

text \<open>The solver object of \<^verbatim>\<open>scipy.integrate.ode\<close>: its position \<^verbatim>\<open>solver.y\<close>, its time and
  whatever else the library keeps.  One call \<^verbatim>\<open>solver.integrate(t1, step=True)\<close> is a
  parameter of the model: given the right-hand side and \<open>t1\<close> it takes the solver to its
  next state, or passes on an exception of the right-hand side.\<close>

record 'i ode_solver =
  ode_y :: "real \<times> real"
  ode_t :: real
  ode_internal :: 'i

type_synonym 'i integrator =
  "(real \<Rightarrow> real \<times> real \<Rightarrow> error + fval \<times> fval) \<Rightarrow> real \<Rightarrow> 'i ode_solver \<Rightarrow> error + 'i ode_solver"

text \<open>The position of the solver is a numpy array: \<^verbatim>\<open>(solver.y[0], solver.y[1])\<close>, and the
  point the library hands to the right-hand side, have numpy floats for components.\<close>

definition np_point :: "real \<times> real \<Rightarrow> scalar \<times> scalar" where
  "np_point y = (NpFloat (fst y), NpFloat (snd y))"

fun fsqrt :: "fval \<Rightarrow> fval" where
  "fsqrt (Num a) = (if a < 0 then NaN else Num (sqrt a))"
| "fsqrt NaN = NaN"

text \<open>The \<^verbatim>\<open>while\<close> loop.  Its state is the solver and the two lists \<^verbatim>\<open>x\<close> and \<^verbatim>\<open>y\<close>.  The
  loop has no other exit than its condition; a run that never leaves it has the value
  \<open>None\<close>.\<close>

partial_function (option) streamline_loop ::
    "'i integrator \<Rightarrow> (real \<Rightarrow> real \<times> real \<Rightarrow> error + fval \<times> fval) \<Rightarrow> real \<Rightarrow>
     axis_range \<Rightarrow> axis_range \<Rightarrow> fgrid \<Rightarrow> real \<Rightarrow>
     'i ode_solver \<times> real list \<times> real list \<Rightarrow>
     (error + 'i ode_solver \<times> real list \<times> real list) option" where
  "streamline_loop integrate f t1 x_range y_range vabs limit st =
     (case st of (solver, x, y) \<Rightarrow>
        (case interpolatePoint2D x_range y_range vabs (np_point (ode_y solver)) of
           Inl e \<Rightarrow> Some (Inl e)
         | Inr v \<Rightarrow>
             if fgt v limit then
               (case integrate f t1 solver of
                  Inl e \<Rightarrow> Some (Inl e)
                | Inr solver' \<Rightarrow>
                    streamline_loop integrate f t1 x_range y_range vabs limit
                      (solver', x @ [fst (ode_y solver')], y @ [snd (ode_y solver')]))
             else Some (Inr (solver, x, y))))"

text \<open>The parameters \<^verbatim>\<open>x\<close>, \<^verbatim>\<open>y\<close>, \<^verbatim>\<open>vx3\<close>, \<^verbatim>\<open>rho\<close> and \<^verbatim>\<open>prs\<close> of the source are not used by
  its body.  \<open>internal0\<close> is the state the library gives a new vode solver.\<close>

definition computeStreamline ::
    "'i integrator \<Rightarrow> 'i \<Rightarrow> real \<times> real \<Rightarrow> fgrid \<Rightarrow> fgrid \<Rightarrow> axis_range \<Rightarrow> axis_range \<Rightarrow> real \<Rightarrow>
     (error + real \<times> real) option" where
  "computeStreamline integrate internal0 point vx1 vx2 x_range y_range limit =
     (let p0 = point;
          t0 = 0;
          t1 = 1000;
          f = (\<lambda>t p. singlePointInterpolation t (np_point p) vx1 vx2 x_range y_range);
          solver = \<lparr>ode_y = p0, ode_t = t0, ode_internal = internal0\<rparr>
      in case np_binop (\<lambda>a b. fsqrt (fadd (fmul a a) (fmul b b))) vx1 vx2 of
           Inl e \<Rightarrow> Some (Inl e)
         | Inr vabs \<Rightarrow>
             (case streamline_loop integrate f t1 x_range y_range vabs limit (solver, [], []) of
                None \<Rightarrow> None
              | Some (Inl e) \<Rightarrow> Some (Inl e)
              | Some (Inr (solver, x, y)) \<Rightarrow> Some (Inr (fst (ode_y solver), 0))))"

subsection \<open>Notions used in the statements\<close>

text \<open>What \<^verbatim>\<open>loadIonData\<close> leaves in the fields of one axis: the array has at least two
  entries, strictly ascending, and count, spacing, start and end are read off it.\<close>

definition built_axis :: "real list \<Rightarrow> int \<Rightarrow> real \<Rightarrow> real \<Rightarrow> real \<Rightarrow> bool" where
  "built_axis arr n d st en \<longleftrightarrow>
     2 \<le> length arr \<and> n = int (length arr) \<and> d = arr ! 1 - arr ! 0 \<and>
     st = arr ! 0 \<and> en = last arr \<and> sorted_wrt (<) arr"

text \<open>An axis is uniformly spaced when every entry lies a whole number of first steps
  after the first entry.\<close>

definition uniform_axis :: "real list \<Rightarrow> bool" where
  "uniform_axis arr \<longleftrightarrow> (\<forall>i<length arr. arr ! i = arr ! 0 + real i * (arr ! 1 - arr ! 0))"

definition cube_shape :: "real list list list \<Rightarrow> nat \<Rightarrow> bool" where
  "cube_shape d n \<longleftrightarrow> length d = n \<and> (\<forall>p\<in>set d. length p = n \<and> (\<forall>r\<in>set p. length r = n))"

text \<open>The bracket search as the specification words it, for one axis and one query: the
  two clamps, floor and ceiling in between, and the bracketing property on a uniformly
  spaced axis.\<close>

definition bracket_claim ::
    "(real \<Rightarrow> error + int \<times> int) \<Rightarrow> real \<Rightarrow> real \<Rightarrow> real \<Rightarrow> int \<Rightarrow> real list \<Rightarrow> real \<Rightarrow> bool" where
  "bracket_claim search axisStart axisEnd axisSpacing N axisValue query \<longleftrightarrow>
     (let d = query - axisStart in
        (d \<le> 0 \<longrightarrow> search query = Inr (0, 0)) \<and>
        (d \<ge> axisEnd - axisStart \<longrightarrow> search query = Inr (N - 1, N - 1)) \<and>
        (\<not> d \<le> 0 \<and> \<not> d \<ge> axisEnd - axisStart \<longrightarrow>
           search query = Inr (\<lfloor>d / axisSpacing\<rfloor>, \<lceil>d / axisSpacing\<rceil>)) \<and>
        (uniform_axis axisValue \<and> axisStart < query \<and> query < axisEnd \<longrightarrow>
           (\<exists>l r. search query = Inr (l, r) \<and> 0 \<le> l \<and> l \<le> r \<and> r < N \<and>
                  axisValue ! nat l \<le> query \<and> query \<le> axisValue ! nat r)))"

text \<open>A table of two samples: every axis is \<open>[1, 2]\<close> after the logarithm.\<close>

definition two_samples :: "IonFraction list" where
  "two_samples =
     [\<lparr>ion_t = 10, ion_zeta = 10, ion_nn = 10, ion_xe = 1 / 10\<rparr>,
      \<lparr>ion_t = 100, ion_zeta = 100, ion_nn = 100, ion_xe = 1 / 5\<rparr>]"

text \<open>A table whose temperature axis \<open>[1, 2, 4, 5]\<close> is not uniformly spaced.\<close>

definition four_samples :: "IonFraction list" where
  "four_samples =
     [\<lparr>ion_t = 10, ion_zeta = 10, ion_nn = 10, ion_xe = 1\<rparr>,
      \<lparr>ion_t = 100, ion_zeta = 100, ion_nn = 100, ion_xe = 2\<rparr>,
      \<lparr>ion_t = 10000, ion_zeta = 10, ion_nn = 10, ion_xe = 3\<rparr>,
      \<lparr>ion_t = 100000, ion_zeta = 10, ion_nn = 10, ion_xe = 4\<rparr>]"

text \<open>The fractional weight \<^verbatim>\<open>interpolateIonFraction\<close> uses along an axis with bracket
  \<open>(l, r)\<close>, the stored value at a node as the float the blend takes, and the blend of four
  values over two axes, first axis first.\<close>

definition axis_weight :: "real list \<Rightarrow> npfloat \<Rightarrow> int \<Rightarrow> int \<Rightarrow> fval" where
  "axis_weight arr q l r = scaled_difference q (arr ! nat l) (arr ! nat r)"

definition corner :: "IonFractionCollection \<Rightarrow> int \<Rightarrow> int \<Rightarrow> int \<Rightarrow> fval" where
  "corner c i j k = Num (ion_data c ! nat i ! nat j ! nat k)"

definition plane_blend :: "fval \<Rightarrow> fval \<Rightarrow> fval \<Rightarrow> fval \<Rightarrow> fval \<Rightarrow> fval \<Rightarrow> fval" where
  "plane_blend a00 a10 a01 a11 u v = blend (blend a00 a10 u) (blend a01 a11 u) v"

text \<open>A query that is a number and not negative: zero, a positive float, or plus
  infinity.\<close>

definition nonnegative :: "npfloat \<Rightarrow> bool" where
  "nonnegative q \<longleftrightarrow>
     (case q of Finite t \<Rightarrow> 0 \<le> t | PosInf \<Rightarrow> True | NegInf \<Rightarrow> False | NotANumber \<Rightarrow> False)"

text \<open>A grid all of whose rows have the width of the first and hold numbers only.\<close>

definition number_grid :: "fgrid \<Rightarrow> bool" where
  "number_grid g \<longleftrightarrow> (\<forall>row\<in>set g. length row = snd (np_shape g) \<and> NaN \<notin> set row)"

definition example_grid :: fgrid where
  "example_grid = [[Num 1, Num 2, Num 3], [Num 4, Num 5, Num 6]]"

text \<open>Sampling as the specification words it: an index outside the grid is first moved
  to the nearest edge.\<close>

definition clamp_index :: "nat \<Rightarrow> real \<Rightarrow> real" where
  "clamp_index n r = max 0 (min (real n - 1) r)"

definition nearest_edge_sample :: "fgrid \<Rightarrow> real \<times> real \<Rightarrow> fval" where
  "nearest_edge_sample g pp =
     (case (np_shape g, pp) of ((rows, cols), (r, c)) \<Rightarrow>
        map_coordinates_order1 g (Num (clamp_index rows r), Num (clamp_index cols c)))"

text \<open>A mesh of two radii and two polar angles with one field, and the interpolant of a
  field that is 1 everywhere, which is 1 wherever the point lies inside the hull of the
  mesh points.\<close>

definition example_mesh :: Data where
  "example_mesh = \<lparr>data_x1 = [1 / 2, 2], data_x2 = [1 / 2, 5 / 2],
                    data_dx1 = [1, 1], data_dx2 = [1, 1],
                    data_variables = [(''rho'', [[1, 1], [1, 1]])]\<rparr>"

definition constant_one :: griddata_fn where
  "constant_one points vals = Inr (\<lambda>p. Num 1)"

text \<open>All new ticks lie within the first and the last radial coordinate.\<close>

definition ticks_inside :: "real list \<Rightarrow> real list \<Rightarrow> bool" where
  "ticks_inside x1 newTicks \<longleftrightarrow> (\<forall>v\<in>set newTicks. x1 ! 0 \<le> v \<and> v \<le> last x1)"

text \<open>The mesh has at least two radial coordinates, strictly ascending, and at least one
  polar coordinate; there is at least one field, and every field has one row per polar
  coordinate and one column per radial coordinate.\<close>

definition mesh_fields_ok :: "'a Data_scheme \<Rightarrow> bool" where
  "mesh_fields_ok d \<longleftrightarrow>
     2 \<le> length (data_x1 d) \<and> sorted_wrt (<) (data_x1 d) \<and>
     data_x2 d \<noteq> [] \<and> data_variables d \<noteq> [] \<and>
     (\<forall>(key, val)\<in>set (data_variables d).
        length val = length (data_x2 d) \<and> (\<forall>row\<in>set val. length row = length (data_x1 d)))"

text \<open>One-dimensional linear interpolation: \<open>w\<close> is the value at \<open>v\<close> of the chord
  between two neighbouring nodes of \<open>(x, y)\<close> that enclose \<open>v\<close>.\<close>

definition on_chord :: "real list \<Rightarrow> real list \<Rightarrow> real \<Rightarrow> real \<Rightarrow> bool" where
  "on_chord x y v w \<longleftrightarrow>
     (\<exists>i. Suc i < length x \<and> x ! i \<le> v \<and> v \<le> x ! Suc i \<and>
          w = y ! i + (v - x ! i) * (y ! Suc i - y ! i) / (x ! Suc i - x ! i))"

definition radial_mesh :: Data where
  "radial_mesh = \<lparr>data_x1 = [1, 2, 3], data_x2 = [0],
                   data_dx1 = [1, 1, 1], data_dx2 = [1],
                   data_variables = [(''rho'', [[10, 20, 30]])]\<rparr>"

text \<open>Two shapes that numpy can broadcast against each other, and the shape of the
  result.\<close>

definition broadcastable :: "nat \<times> nat \<Rightarrow> nat \<times> nat \<Rightarrow> bool" where
  "broadcastable s t \<longleftrightarrow>
     broadcast_dim (fst s) (fst t) \<noteq> None \<and> broadcast_dim (snd s) (snd t) \<noteq> None"

definition broadcast_shape :: "nat \<times> nat \<Rightarrow> nat \<times> nat \<Rightarrow> nat \<times> nat" where
  "broadcast_shape s t =
     (case (broadcast_dim (fst s) (fst t), broadcast_dim (snd s) (snd t)) of
        (Some r, Some c) \<Rightarrow> (r, c)
      | _ \<Rightarrow> (0, 0))"

text \<open>The three products and sums of a rotation can all be formed: each field against
  the mesh, and the two products against each other.\<close>

definition rotation_ok :: "nat \<times> nat \<Rightarrow> nat \<times> nat \<Rightarrow> nat \<times> nat \<Rightarrow> bool" where
  "rotation_ok s1 s2 m \<longleftrightarrow>
     broadcastable s1 m \<and> broadcastable s2 m \<and>
     broadcastable (broadcast_shape s1 m) (broadcast_shape s2 m)"

text \<open>The arithmetic that the three transforms have in common, on the two fields and
  the array of polar angles.\<close>

definition rotate_pair :: "matrix \<Rightarrow> matrix \<Rightarrow> matrix \<Rightarrow> error + matrix \<times> matrix" where
  "rotate_pair v1 v2 x2 =
     bindE (np_binop (*) v1 (np_map sin x2)) (\<lambda>a.
     bindE (np_binop (*) v2 (np_map cos x2)) (\<lambda>b.
     bindE (np_binop (+) a b) (\<lambda>v1_t.
     bindE (np_binop (*) v1 (np_map cos x2)) (\<lambda>a'.
     bindE (np_binop (*) v2 (np_map sin x2)) (\<lambda>b'.
     bindE (np_binop (-) a' b') (\<lambda>v2_t.
     Inr (v1_t, v2_t)))))))"

text \<open>What a rotation does with two fields on a mesh of polar angles \<open>th\<close> and \<open>n\<close> radial
  coordinates: failure on incompatible shapes, a result on compatible ones, the rotated
  components on fields of the mesh's shape.\<close>

definition rotation_contract ::
    "(error + matrix \<times> matrix) \<Rightarrow> matrix \<Rightarrow> matrix \<Rightarrow> real list \<Rightarrow> nat \<Rightarrow> bool" where
  "rotation_contract result v1 v2 th n \<longleftrightarrow>
     (let m = (length th, n) in
        (\<not> rotation_ok (np_shape v1) (np_shape v2) m \<longrightarrow> result = Inl ValueError_broadcast) \<and>
        (rotation_ok (np_shape v1) (np_shape v2) m \<longrightarrow>
           (\<exists>p q. result = Inr (p, q) \<and>
                  np_shape p = broadcast_shape (broadcast_shape (np_shape v1) m)
                                 (broadcast_shape (np_shape v2) m) \<and>
                  np_shape q = np_shape p)) \<and>
        (np_shape v1 = m \<and> np_shape v2 = m \<longrightarrow>
           (\<exists>p q. result = Inr (p, q) \<and> np_shape p = m \<and> np_shape q = m \<and>
                  (\<forall>i<length th. \<forall>j<n.
                     p ! i ! j = v1 ! i ! j * sin (th ! i) + v2 ! i ! j * cos (th ! i) \<and>
                     q ! i ! j = v1 ! i ! j * cos (th ! i) - v2 ! i ! j * sin (th ! i)))))"

text \<open>A mesh of shape (2, 2) with velocity fields of shape (1, 2), and one with fields of
  shape (1, 3).\<close>

definition broadcast_mesh :: Data where
  "broadcast_mesh = \<lparr>data_x1 = [1, 2], data_x2 = [0, 1],
                      data_dx1 = [1, 1], data_dx2 = [1, 1],
                      data_variables = [(''vx1'', [[1, 2]]), (''vx2'', [[3, 4]])]\<rparr>"

definition mismatch_mesh :: Data where
  "mismatch_mesh = \<lparr>data_x1 = [1, 2], data_x2 = [0, 1],
                     data_dx1 = [1, 1], data_dx2 = [1, 1],
                     data_variables = [(''vx1'', [[1, 2, 3]]), (''vx2'', [[3, 4, 5]])]\<rparr>"

text \<open>The state of the loop of \<^verbatim>\<open>computeStreamline\<close>, its condition, the negation of the
  condition when sampling does not raise, and one pass through its body for an
  integrator that takes a solver to \<open>step solver\<close>.\<close>

type_synonym 'i trace_state = "'i ode_solver \<times> real list \<times> real list"

definition speed_above :: "axis_range \<Rightarrow> axis_range \<Rightarrow> fgrid \<Rightarrow> real \<Rightarrow> 'i trace_state \<Rightarrow> bool" where
  "speed_above x_range y_range vabs limit st \<longleftrightarrow>
     (case interpolatePoint2D x_range y_range vabs (np_point (ode_y (fst st))) of
        Inl e \<Rightarrow> False
      | Inr v \<Rightarrow> fgt v limit)"

definition speed_not_above :: "axis_range \<Rightarrow> axis_range \<Rightarrow> fgrid \<Rightarrow> real \<Rightarrow> 'i trace_state \<Rightarrow> bool" where
  "speed_not_above x_range y_range vabs limit st \<longleftrightarrow>
     (case interpolatePoint2D x_range y_range vabs (np_point (ode_y (fst st))) of
        Inl e \<Rightarrow> False
      | Inr v \<Rightarrow> \<not> fgt v limit)"

definition trace_step :: "('i ode_solver \<Rightarrow> 'i ode_solver) \<Rightarrow> 'i trace_state \<Rightarrow> 'i trace_state" where
  "trace_step step st =
     (case st of (solver, x, y) \<Rightarrow>
        (step solver, x @ [fst (ode_y (step solver))], y @ [snd (ode_y (step solver))]))"

text \<open>An integrator that moves the position one unit along the first axis at every
  step, a velocity field of one row with speeds 1, 1, 0, and a solver at the origin.\<close>

definition drift_step :: "unit ode_solver \<Rightarrow> unit ode_solver" where
  "drift_step s = s\<lparr>ode_y := (fst (ode_y s) + 1, snd (ode_y s)), ode_t := ode_t s + 1\<rparr>"

definition drift_integrator :: "unit integrator" where
  "drift_integrator f t1 s = Inr (drift_step s)"

definition ramp_vx1 :: fgrid where
  "ramp_vx1 = [[Num 1, Num 1, Num 0]]"

definition ramp_vx2 :: fgrid where
  "ramp_vx2 = [[Num 0, Num 0, Num 0]]"

definition start_solver :: "unit ode_solver" where
  "start_solver = \<lparr>ode_y = (0, 0), ode_t = 0, ode_internal = ()\<rparr>"

section \<open>Verification\<close>

subsection \<open>Building the table\<close>

lemma bindE_simps [simp]: "bindE (Inl e) f = Inl e" "bindE (Inr v) f = f v"
  by (simp_all add: bindE_def)

lemma bindE_eq_Inr: "bindE m f = Inr r \<longleftrightarrow> (\<exists>v. m = Inr v \<and> f v = Inr r)"
  by (cases m) simp_all

lemma sorted_set_strict: "sorted_wrt (<) (sorted_set xs)"
  by (simp add: sorted_set_def strict_sorted_iff)

lemma set_sorted_set [simp]: "set (sorted_set xs) = set xs"
  by (simp add: sorted_set_def)

lemma strict_sorted_map_log:
  assumes "sorted_wrt (<) xs" "\<forall>x\<in>set xs. 0 < x"
  shows "sorted_wrt (<) (map (log 10) xs)"
  using assms by (induction xs) (auto simp: sorted_wrt_map)

lemma np_index_nat: "i < length xs \<Longrightarrow> np_index xs (int i) = Inr (xs ! i)"
  by (simp add: np_index_def)

lemma np_index_Inr_nonneg: "0 \<le> i \<Longrightarrow> i < int (length xs) \<Longrightarrow> np_index xs i = Inr (xs ! nat i)"
  by (simp add: np_index_def)

lemma np_index_last: "np_index xs (- 1) = Inr v \<Longrightarrow> v = last xs"
  by (cases xs rule: rev_cases) (auto simp: np_index_def split: if_splits)

lemma np_index_1: "np_index xs 1 = Inr v \<Longrightarrow> 2 \<le> length xs \<and> v = xs ! 1"
  by (auto simp: np_index_def split: if_splits)

lemma np_index_0: "np_index xs 0 = Inr v \<Longrightarrow> v = xs ! 0"
  by (auto simp: np_index_def split: if_splits)

lemma loadIonData_axes:
  assumes "loadIonData samples = Inr c"
  shows "temp_array c = map (log 10) (sorted_set (map ion_t samples))"
    and "zeta_array c = map (log 10) (sorted_set (map ion_zeta samples))"
    and "nn_array c = map (log 10) (sorted_set (map ion_nn samples))"
  using assms unfolding loadIonData_def Let_def
  by (auto simp: bindE_eq_Inr)

lemma loadIonData_fields:
  assumes "loadIonData samples = Inr c"
  shows "2 \<le> length (temp_array c) \<and> n_temp c = int (length (temp_array c)) \<and>
         d_temp c = temp_array c ! 1 - temp_array c ! 0 \<and>
         start_temp c = temp_array c ! 0 \<and> end_temp c = last (temp_array c)"
    and "2 \<le> length (zeta_array c) \<and> n_zeta c = int (length (zeta_array c)) \<and>
         d_zeta c = zeta_array c ! 1 - zeta_array c ! 0 \<and>
         start_zeta c = zeta_array c ! 0 \<and> end_zeta c = last (zeta_array c)"
    and "2 \<le> length (nn_array c) \<and> n_nn c = int (length (nn_array c)) \<and>
         d_nn c = nn_array c ! 1 - nn_array c ! 0 \<and>
         start_nn c = nn_array c ! 0 \<and> end_nn c = last (nn_array c)"
  using assms unfolding loadIonData_def Let_def
  by (auto simp: bindE_eq_Inr dest!: np_index_1 np_index_0 np_index_last)

lemma loadIonData_built:
  assumes "loadIonData samples = Inr c"
    and "\<forall>s\<in>set samples. 0 < ion_t s \<and> 0 < ion_zeta s \<and> 0 < ion_nn s"
  shows "built_axis (temp_array c) (n_temp c) (d_temp c) (start_temp c) (end_temp c)"
    and "built_axis (zeta_array c) (n_zeta c) (d_zeta c) (start_zeta c) (end_zeta c)"
    and "built_axis (nn_array c) (n_nn c) (d_nn c) (start_nn c) (end_nn c)"
  using loadIonData_fields[OF assms(1)] assms(2)
  unfolding built_axis_def loadIonData_axes[OF assms(1)]
  by (auto intro!: strict_sorted_map_log sorted_set_strict)

lemma strict_sorted_nth_less:
  "sorted_wrt (<) (xs::real list) \<Longrightarrow> i < j \<Longrightarrow> j < length xs \<Longrightarrow> xs ! i < xs ! j"
  by (simp add: sorted_wrt_iff_nth_less)

lemma built_axis_facts:
  assumes "built_axis arr n d st en"
  shows "0 < d" and "st < en" and "en = arr ! (length arr - 1)" and "2 \<le> length arr"
    and "n = int (length arr)" and "st = arr ! 0" and "d = arr ! 1 - arr ! 0"
proof -
  from assms have len: "2 \<le> length arr" and s: "sorted_wrt (<) arr"
    and d: "d = arr ! 1 - arr ! 0" and st: "st = arr ! 0" and en: "en = last arr"
    and n: "n = int (length arr)"
    by (simp_all add: built_axis_def)
  from len have ne: "arr \<noteq> []" by auto
  show "en = arr ! (length arr - 1)" using en ne by (simp add: last_conv_nth)
  have "arr ! 0 < arr ! 1" using s len by (intro strict_sorted_nth_less) auto
  then show "0 < d" using d by simp
  have "arr ! 0 < arr ! (length arr - 1)" using s len by (intro strict_sorted_nth_less) auto
  then show "st < en" using st en ne by (simp add: last_conv_nth)
  show "2 \<le> length arr" "n = int (length arr)" "st = arr ! 0" "d = arr ! 1 - arr ! 0"
    using len n st d by simp_all
qed

lemma uniform_bracket:
  fixes d st q :: real
  assumes u: "uniform_axis arr" and b: "built_axis arr n d st en"
    and q: "st < q" "q < en"
  shows "0 \<le> \<lfloor>(q - st) / d\<rfloor> \<and> \<lfloor>(q - st) / d\<rfloor> \<le> \<lceil>(q - st) / d\<rceil> \<and> \<lceil>(q - st) / d\<rceil> < n \<and>
         arr ! nat \<lfloor>(q - st) / d\<rfloor> \<le> q \<and> q \<le> arr ! nat \<lceil>(q - st) / d\<rceil>"
proof -
  note f = built_axis_facts[OF b]
  define ix where "ix = (q - st) / d"
  have ix_pos: "0 < ix" using q f(1) by (simp add: ix_def)
  have nth: "\<And>i. i < length arr \<Longrightarrow> arr ! i = st + real i * d"
    using u f(6,7) by (simp add: uniform_axis_def)
  define m where "m = length arr - 1"
  have m: "m < length arr" "int m = int (length arr) - 1" using f(4) by (simp_all add: m_def)
  have "en = st + real m * d"
    using nth[OF m(1)] f(3) by (simp add: m_def)
  then have "(q - st) < real m * d" using q by linarith
  then have ix_lt: "ix < real m"
    using f(1) by (simp add: ix_def pos_divide_less_eq)
  have l0: "0 \<le> \<lfloor>ix\<rfloor>" using ix_pos by simp
  have lr: "\<lfloor>ix\<rfloor> \<le> \<lceil>ix\<rceil>" by (rule floor_le_ceiling)
  have "\<lceil>ix\<rceil> \<le> int m"
    using ix_lt by (simp add: ceiling_le_iff)
  then have rn: "\<lceil>ix\<rceil> < n" using f(5) m(2) by linarith
  have r0: "0 \<le> \<lceil>ix\<rceil>" using l0 lr by linarith
  have ln: "nat \<lfloor>ix\<rfloor> < length arr" using lr rn f(5) l0 by linarith
  have rn': "nat \<lceil>ix\<rceil> < length arr" using rn f(5) r0 by linarith
  have qeq: "q = st + ix * d" using f(1) by (simp add: ix_def)
  have "arr ! nat \<lfloor>ix\<rfloor> = st + real_of_int \<lfloor>ix\<rfloor> * d"
    using nth[OF ln] l0 by simp
  also have "\<dots> \<le> st + ix * d"
    using f(1) by (simp add: mult_right_mono)
  finally have lo: "arr ! nat \<lfloor>ix\<rfloor> \<le> q" using qeq by simp
  have "st + ix * d \<le> st + real_of_int \<lceil>ix\<rceil> * d"
    using f(1) by (simp add: mult_right_mono)
  also have "\<dots> = arr ! nat \<lceil>ix\<rceil>"
    using nth[OF rn'] r0 by simp
  finally have hi: "q \<le> arr ! nat \<lceil>ix\<rceil>" using qeq by simp
  show ?thesis using l0 lr rn lo hi unfolding ix_def by simp
qed

text \<open>The bracket searches on a finite argument, and on the three others.\<close>

lemma getIndicesForTempValue_Finite:
  "getIndicesForTempValue self (Finite q) =
     (let x = q - start_temp self in
      if x \<le> 0 then Inr (0, 0)
      else if x \<ge> end_temp self - start_temp self then Inr (n_temp self - 1, n_temp self - 1)
      else if d_temp self = 0 then Inl OverflowError
      else (let index = x / d_temp self in Inr (\<lfloor>index\<rfloor>, \<lceil>index\<rceil>)))"
  by (simp add: getIndicesForTempValue_def Let_def)

lemma getIndicesForZetaValue_Finite:
  "getIndicesForZetaValue self (Finite q) =
     (let x = q - start_zeta self in
      if x \<le> 0 then Inr (0, 0)
      else if x \<ge> end_zeta self - start_zeta self then Inr (n_zeta self - 1, n_zeta self - 1)
      else if d_zeta self = 0 then Inl OverflowError
      else (let index = x / d_zeta self in Inr (\<lfloor>index\<rfloor>, \<lceil>index\<rceil>)))"
  by (simp add: getIndicesForZetaValue_def Let_def)

lemma getIndicesForNnValue_Finite:
  "getIndicesForNnValue self (Finite q) =
     (let x = q - start_nn self in
      if x \<le> 0 then Inr (0, 0)
      else if x \<ge> end_nn self - start_nn self then Inr (n_nn self - 1, n_nn self - 1)
      else if d_nn self = 0 then Inl OverflowError
      else (let index = x / d_nn self in Inr (\<lfloor>index\<rfloor>, \<lceil>index\<rceil>)))"
  by (simp add: getIndicesForNnValue_def Let_def)

lemma getIndices_infinite:
  "getIndicesForTempValue self NegInf = Inr (0, 0)"
  "getIndicesForTempValue self PosInf = Inr (n_temp self - 1, n_temp self - 1)"
  "getIndicesForTempValue self NotANumber = Inl ValueError_nan"
  "getIndicesForZetaValue self NegInf = Inr (0, 0)"
  "getIndicesForZetaValue self PosInf = Inr (n_zeta self - 1, n_zeta self - 1)"
  "getIndicesForZetaValue self NotANumber = Inl ValueError_nan"
  "getIndicesForNnValue self NegInf = Inr (0, 0)"
  "getIndicesForNnValue self PosInf = Inr (n_nn self - 1, n_nn self - 1)"
  "getIndicesForNnValue self NotANumber = Inl ValueError_nan"
  by (simp_all add: getIndicesForTempValue_def getIndicesForZetaValue_def getIndicesForNnValue_def)

lemma bracket_generic:
  assumes g: "\<And>q. g q = (let x = q - st in
                 if x \<le> 0 then Inr (0, 0)
                 else if x \<ge> en - st then Inr (n - 1, n - 1)
                 else if d = 0 then Inl OverflowError
                 else (let index = x / d in Inr (\<lfloor>index\<rfloor>, \<lceil>index\<rceil>)))"
    and b: "built_axis arr n d st en"
  shows "bracket_claim g st en d n arr q"
proof -
  note f = built_axis_facts[OF b]
  have c1: "q - st \<le> 0 \<Longrightarrow> g q = Inr (0, 0)" by (simp add: g)
  have c2: "q - st \<ge> en - st \<Longrightarrow> g q = Inr (n - 1, n - 1)"
    using f(2) by (simp add: g Let_def)
  have c3: "\<not> q - st \<le> 0 \<Longrightarrow> \<not> q - st \<ge> en - st \<Longrightarrow>
            g q = Inr (\<lfloor>(q - st) / d\<rfloor>, \<lceil>(q - st) / d\<rceil>)"
    using f(1) by (simp add: g Let_def)
  have c4: "\<exists>l r. g q = Inr (l, r) \<and> 0 \<le> l \<and> l \<le> r \<and> r < n \<and> arr ! nat l \<le> q \<and> q \<le> arr ! nat r"
    if "uniform_axis arr" "st < q" "q < en"
  proof -
    have "g q = Inr (\<lfloor>(q - st) / d\<rfloor>, \<lceil>(q - st) / d\<rceil>)"
      using that by (intro c3) auto
    with uniform_bracket[OF that(1) b that(2,3)] show ?thesis by blast
  qed
  show ?thesis
    unfolding bracket_claim_def Let_def using c1 c2 c3 c4 by blast
qed

text \<open>
  Claim C3.  On every axis of a table built by \<^verbatim>\<open>loadIonData\<close> from samples with positive
  coordinates, the bracket search on a finite \<open>query\<close> with \<open>d = query - axisStart\<close> returns \<open>(0, 0)\<close> when
  \<open>d \<le> 0\<close>, \<open>(N - 1, N - 1)\<close> when \<open>d \<ge> axisEnd - axisStart\<close>, and floor and ceiling of
  \<open>d / axisSpacing\<close> otherwise; on a uniformly spaced axis a query strictly between start
  and end gets indices \<open>l \<le> r\<close> inside the axis with
  \<open>axisValue[l] \<le> query \<le> axisValue[r]\<close>.
\<close>

theorem bracket_search_clamps_and_brackets:
  assumes "loadIonData samples = Inr c"
    and "\<forall>s\<in>set samples. 0 < ion_t s \<and> 0 < ion_zeta s \<and> 0 < ion_nn s"
  shows "bracket_claim (\<lambda>q. getIndicesForTempValue c (Finite q)) (start_temp c) (end_temp c) (d_temp c)
           (n_temp c) (temp_array c) q \<and>
         bracket_claim (\<lambda>q. getIndicesForZetaValue c (Finite q)) (start_zeta c) (end_zeta c) (d_zeta c)
           (n_zeta c) (zeta_array c) q \<and>
         bracket_claim (\<lambda>q. getIndicesForNnValue c (Finite q)) (start_nn c) (end_nn c) (d_nn c)
           (n_nn c) (nn_array c) q"
proof -
  note b = loadIonData_built[OF assms]
  have "bracket_claim (\<lambda>q. getIndicesForTempValue c (Finite q)) (start_temp c) (end_temp c) (d_temp c)
           (n_temp c) (temp_array c) q"
    by (rule bracket_generic[where g = "\<lambda>q. getIndicesForTempValue c (Finite q)", OF _ b(1)])
       (rule getIndicesForTempValue_Finite)
  moreover have "bracket_claim (\<lambda>q. getIndicesForZetaValue c (Finite q)) (start_zeta c) (end_zeta c) (d_zeta c)
           (n_zeta c) (zeta_array c) q"
    by (rule bracket_generic[where g = "\<lambda>q. getIndicesForZetaValue c (Finite q)", OF _ b(2)])
       (rule getIndicesForZetaValue_Finite)
  moreover have "bracket_claim (\<lambda>q. getIndicesForNnValue c (Finite q)) (start_nn c) (end_nn c) (d_nn c)
           (n_nn c) (nn_array c) q"
    by (rule bracket_generic[where g = "\<lambda>q. getIndicesForNnValue c (Finite q)", OF _ b(3)])
       (rule getIndicesForNnValue_Finite)
  ultimately show ?thesis by blast
qed

lemma log10_100: "log 10 100 = 2"
proof -
  have "log 10 ((10::real) ^ 2) = 2" by (subst log_pow_cancel) simp_all
  then show ?thesis by simp
qed

lemma np_where_first_mem:
  "v \<in> set arr \<Longrightarrow> \<exists>i<length arr. np_where_first arr v = Inr i \<and> arr ! i = v"
  by (induction arr) auto

lemma np_where_first_Inr:
  "np_where_first arr v = Inr i \<Longrightarrow> i < length arr \<and> arr ! i = v"
  by (induction arr arbitrary: i) (auto simp: bindE_eq_Inr split: if_splits)

lemma cube_set_shape:
  assumes "cube_shape d n" "cube_set d i j k v = Inr d'"
  shows "cube_shape d' n"
proof -
  from assms(2) have ijk: "i < length d" "j < length (d ! i)" "k < length (d ! i ! j)"
    and d': "d' = d[i := (d ! i)[j := (d ! i ! j)[k := v]]]"
    by (auto simp: cube_set_def split: if_splits)
  have "\<And>p. p \<in> set d' \<Longrightarrow> length p = n \<and> (\<forall>r\<in>set p. length r = n)"
  proof -
    fix p assume "p \<in> set d'"
    then have "p \<in> insert ((d ! i)[j := (d ! i ! j)[k := v]]) (set d)"
      unfolding d' using set_update_subset_insert by fastforce
    moreover have "d ! i \<in> set d" using ijk by simp
    moreover have "d ! i ! j \<in> set (d ! i)" using ijk by simp
    ultimately show "length p = n \<and> (\<forall>r\<in>set p. length r = n)"
      using assms(1) unfolding cube_shape_def
      by (auto dest!: set_update_subset_insert[THEN subsetD])
  qed
  then show ?thesis using assms(1) by (simp add: cube_shape_def d')
qed

lemma cube_set_ok:
  assumes "cube_shape d n" "i < n" "j < n" "k < n"
  shows "\<exists>d'. cube_set d i j k v = Inr d'"
proof -
  from assms have i: "i < length d" and p: "length (d ! i) = n"
    and r: "\<forall>r\<in>set (d ! i). length r = n"
    by (auto simp: cube_shape_def)
  from p r assms(3) have "length (d ! i ! j) = n" by simp
  with i p assms show ?thesis by (simp add: cube_set_def)
qed

lemma scatter_ok:
  assumes "cube_shape d n" "length ta \<le> n" "length za \<le> n" "length na \<le> n"
    and "ion_t ` set samples \<subseteq> set ta" "ion_zeta ` set samples \<subseteq> set za" "ion_nn ` set samples \<subseteq> set na"
  shows "\<exists>d'. scatter ta za na samples d = Inr d' \<and> cube_shape d' n"
  using assms
proof (induction samples arbitrary: d)
  case Nil
  then show ?case by simp
next
  case (Cons e rest)
  obtain i where i: "i < length ta" "np_where_first ta (ion_t e) = Inr i"
    using np_where_first_mem[of "ion_t e" ta] Cons.prems by auto
  obtain j where j: "j < length za" "np_where_first za (ion_zeta e) = Inr j"
    using np_where_first_mem[of "ion_zeta e" za] Cons.prems by auto
  obtain k where k: "k < length na" "np_where_first na (ion_nn e) = Inr k"
    using np_where_first_mem[of "ion_nn e" na] Cons.prems by auto
  obtain d1 where d1: "cube_set d i j k (ion_xe e) = Inr d1"
    using cube_set_ok[of d n i j k] Cons.prems i j k by fastforce
  have "cube_shape d1 n" using cube_set_shape[OF Cons.prems(1) d1] .
  from Cons.IH[OF this] Cons.prems
  obtain d' where "scatter ta za na rest d1 = Inr d'" "cube_shape d' n" by auto
  then show ?case using i j k d1 by simp
qed

lemma scatter_shape:
  "scatter ta za na samples d = Inr d' \<Longrightarrow> cube_shape d n \<Longrightarrow> cube_shape d' n"
  by (induction samples arbitrary: d) (auto simp: bindE_eq_Inr dest: cube_set_shape)

lemma zeros_shape: "cube_shape (np_zeros3 n n n) n"
  by (simp add: cube_shape_def np_zeros3_def)

lemma loadIonData_shape:
  "loadIonData samples = Inr c \<Longrightarrow> cube_shape (ion_data c) 20"
  unfolding loadIonData_def Let_def
  by (auto simp: bindE_eq_Inr dest!: scatter_shape[where n=20] simp: zeros_shape)

lemma np_index_last_ok: "xs \<noteq> [] \<Longrightarrow> np_index xs (- 1) = Inr (last xs)"
  by (cases xs rule: rev_cases) (auto simp: np_index_def)

lemma loadIonData_succeeds:
  assumes "2 \<le> length (sorted_set (map ion_t samples))" "length (sorted_set (map ion_t samples)) \<le> 20"
    and "2 \<le> length (sorted_set (map ion_zeta samples))" "length (sorted_set (map ion_zeta samples)) \<le> 20"
    and "2 \<le> length (sorted_set (map ion_nn samples))" "length (sorted_set (map ion_nn samples)) \<le> 20"
  shows "\<exists>c. loadIonData samples = Inr c"
proof -
  obtain d where d: "scatter (sorted_set (map ion_t samples)) (sorted_set (map ion_zeta samples))
      (sorted_set (map ion_nn samples)) samples (np_zeros3 20 20 20) = Inr d"
    using scatter_ok[OF zeros_shape[of 20] assms(2,4,6), of samples] by auto
  have idx: "np_index xs 1 = Inr (xs ! 1) \<and> np_index xs 0 = Inr (xs ! 0)
       \<and> np_index xs (- 1) = Inr (last xs)" if "2 \<le> length xs" for xs :: "real list"
  proof -
    from that have "xs \<noteq> []" by (cases xs) simp_all
    then have "np_index xs (- 1) = Inr (last xs)" by (rule np_index_last_ok)
    moreover have "np_index xs 1 = Inr (xs ! 1)" "np_index xs 0 = Inr (xs ! 0)"
      using that by (auto simp: np_index_def)
    ultimately show ?thesis by simp
  qed
  show ?thesis
    unfolding loadIonData_def Let_def d
    using idx[of "map (log 10) (sorted_set (map ion_t samples))"]
      idx[of "map (log 10) (sorted_set (map ion_zeta samples))"]
      idx[of "map (log 10) (sorted_set (map ion_nn samples))"] assms
    by simp
qed

lemma two_samples_axes:
  "sorted_set (map ion_t two_samples) = [10, 100]"
  "sorted_set (map ion_zeta two_samples) = [10, 100]"
  "sorted_set (map ion_nn two_samples) = [10, 100]"
  by (simp_all add: two_samples_def sorted_set_def)

lemma two_samples_load: "\<exists>c. loadIonData two_samples = Inr c"
  by (rule loadIonData_succeeds) (simp_all add: two_samples_axes)

lemma two_samples_pos: "\<forall>s\<in>set two_samples. 0 < ion_t s \<and> 0 < ion_zeta s \<and> 0 < ion_nn s"
  by (simp add: two_samples_def)

text \<open>The table of two samples: start, end and the midpoint of the temperature axis.\<close>

theorem bracket_search_witness:
  "\<exists>c. loadIonData two_samples = Inr c \<and>
       (\<forall>s\<in>set two_samples. 0 < ion_t s \<and> 0 < ion_zeta s \<and> 0 < ion_nn s) \<and>
       getIndicesForTempValue c (Finite 1) = Inr (0, 0) \<and>
       getIndicesForTempValue c (Finite 2) = Inr (1, 1) \<and>
       getIndicesForTempValue c (Finite (3 / 2)) = Inr (0, 1)"
proof -
  obtain c where c: "loadIonData two_samples = Inr c" using two_samples_load by blast
  have ax: "temp_array c = [1, 2]"
    using loadIonData_axes(1)[OF c] by (simp add: two_samples_axes log10_100)
  have f: "start_temp c = 1" "end_temp c = 2" "d_temp c = 1" "n_temp c = 2"
    using loadIonData_fields(1)[OF c] by (simp_all add: ax)
  have "bracket_claim (\<lambda>q. getIndicesForTempValue c (Finite q)) 1 2 1 2 [1, 2] q" for q
    using bracket_search_clamps_and_brackets[OF c two_samples_pos, of q] by (simp add: f ax)
  moreover have "\<lceil>1 / 2 :: real\<rceil> = 1" by (simp add: ceiling_eq_iff)
  ultimately have "getIndicesForTempValue c (Finite 1) = Inr (0, 0)"
    "getIndicesForTempValue c (Finite 2) = Inr (1, 1)"
    "getIndicesForTempValue c (Finite (3 / 2)) = Inr (0, 1)"
    by (simp_all add: bracket_claim_def)
  then show ?thesis using c two_samples_pos by blast
qed

subsection \<open>Lookup at the nodes and degenerate brackets\<close>

lemma blend_zero [simp]: "blend (Num a) (Num b) (Num 0) = Num a"
  by (simp add: blend_def fadd_def fmul_def fsub_def)

lemma blend_Num [simp]: "blend (Num a) (Num b) (Num w) = Num (a * (1 - w) + b * w)"
  by (simp add: blend_def fadd_def fmul_def fsub_def)

lemma scaled_difference_same [simp]: "scaled_difference x a a = Num 0"
  by (simp add: scaled_difference_def)

lemma scaled_difference_Num: "\<exists>w. scaled_difference (Finite x) a b = Num w"
  by (simp add: scaled_difference_def)

lemma scaled_difference_neq:
  "a \<noteq> b \<Longrightarrow> scaled_difference (Finite x) a b = Num ((x - a) / (b - a))"
  by (simp add: scaled_difference_def)

lemma np_log10_powr [simp]: "np_log10 (Finite (10 powr a)) = Finite a"
  by simp

lemma cube_shape_nth:
  assumes "cube_shape d n" "i < length d" "j < length (d ! i)"
  shows "length d = n" "length (d ! i) = n" "length (d ! i ! j) = n"
proof -
  from assms(1) show "length d = n" by (simp add: cube_shape_def)
  have "d ! i \<in> set d" using assms(2) by simp
  with assms(1) show p: "length (d ! i) = n" and r: "length (d ! i ! j) = n"
    using assms(3) by (auto simp: cube_shape_def)
qed

lemma cube_get_nat:
  assumes "cube_shape d n" "i < n" "j < n" "k < n"
  shows "cube_get d (int i) (int j) (int k) = Inr (d ! i ! j ! k)"
proof -
  from assms have i: "i < length d" and p: "length (d ! i) = n"
    and r: "\<forall>r\<in>set (d ! i). length r = n"
    by (auto simp: cube_shape_def)
  from p r assms(3) have "length (d ! i ! j) = n" by simp
  with i p assms show ?thesis by (simp add: cube_get_def np_index_nat)
qed

lemma scatter_indices:
  assumes "scatter ta za na samples d = Inr d'" "cube_shape d n" "e \<in> set samples"
  shows "\<exists>i j k. np_where_first ta (ion_t e) = Inr i \<and> i < n \<and>
                 np_where_first za (ion_zeta e) = Inr j \<and> j < n \<and>
                 np_where_first na (ion_nn e) = Inr k \<and> k < n"
  using assms
proof (induction samples arbitrary: d)
  case Nil
  then show ?case by simp
next
  case (Cons a rest)
  from Cons.prems(1) obtain i j k d1 where
    s: "np_where_first ta (ion_t a) = Inr i" "np_where_first za (ion_zeta a) = Inr j"
       "np_where_first na (ion_nn a) = Inr k" "cube_set d i j k (ion_xe a) = Inr d1"
       "scatter ta za na rest d1 = Inr d'"
    by (auto simp: bindE_eq_Inr)
  have sh: "cube_shape d1 n" using cube_set_shape[OF Cons.prems(2) s(4)] .
  show ?case
  proof (cases "e = a")
    case True
    from s(4) have "i < length d" "j < length (d ! i)" "k < length (d ! i ! j)"
      by (auto simp: cube_set_def split: if_splits)
    moreover from this have "length d = n" "length (d ! i) = n" "length (d ! i ! j) = n"
      using cube_shape_nth[OF Cons.prems(2), of i j] by simp_all
    ultimately show ?thesis using s True by auto
  next
    case False
    then have "e \<in> set rest" using Cons.prems(3) by simp
    from Cons.IH[OF s(5) sh this] show ?thesis .
  qed
qed

lemma np_where_first_distinct:
  "distinct arr \<Longrightarrow> i < length arr \<Longrightarrow> np_where_first arr (arr ! i) = Inr i"
proof (induction arr arbitrary: i)
  case Nil
  then show ?case by simp
next
  case (Cons a arr)
  show ?case
  proof (cases i)
    case 0
    then show ?thesis by simp
  next
    case (Suc m)
    then have "arr ! m \<noteq> a" using Cons.prems by auto
    then show ?thesis using Suc Cons by auto
  qed
qed

lemma scatter_axis_bound:
  assumes "scatter ta za na samples d = Inr d'" "cube_shape d n"
  shows "distinct ta \<Longrightarrow> set ta \<subseteq> ion_t ` set samples \<Longrightarrow> length ta \<le> n"
    and "distinct za \<Longrightarrow> set za \<subseteq> ion_zeta ` set samples \<Longrightarrow> length za \<le> n"
    and "distinct na \<Longrightarrow> set na \<subseteq> ion_nn ` set samples \<Longrightarrow> length na \<le> n"
proof -
  have gen: "length arr \<le> n"
    if dist: "distinct arr" and sub: "set arr \<subseteq> f ` set samples"
      and idx: "\<And>e. e \<in> set samples \<Longrightarrow> \<exists>i. np_where_first arr (f e) = Inr i \<and> i < n"
    for arr :: "real list" and f
  proof (rule ccontr)
    assume "\<not> length arr \<le> n"
    then have n: "n < length arr" by simp
    then have "arr ! n \<in> set arr" by simp
    then obtain e where e: "e \<in> set samples" "f e = arr ! n" using sub by auto
    from idx[OF e(1)] obtain i where "np_where_first arr (arr ! n) = Inr i" "i < n"
      using e(2) by auto
    moreover have "np_where_first arr (arr ! n) = Inr n"
      using np_where_first_distinct[OF dist n] .
    ultimately show False by simp
  qed
  show "distinct ta \<Longrightarrow> set ta \<subseteq> ion_t ` set samples \<Longrightarrow> length ta \<le> n"
    using scatter_indices[OF assms] by (intro gen[where f=ion_t]) blast+
  show "distinct za \<Longrightarrow> set za \<subseteq> ion_zeta ` set samples \<Longrightarrow> length za \<le> n"
    using scatter_indices[OF assms] by (intro gen[where f=ion_zeta]) blast+
  show "distinct na \<Longrightarrow> set na \<subseteq> ion_nn ` set samples \<Longrightarrow> length na \<le> n"
    using scatter_indices[OF assms] by (intro gen[where f=ion_nn]) blast+
qed

lemma distinct_sorted_set [simp]: "distinct (sorted_set xs)"
  by (simp add: sorted_set_def)

lemma loadIonData_axis_bounds:
  assumes "loadIonData samples = Inr c"
  shows "length (temp_array c) \<le> 20" "length (zeta_array c) \<le> 20" "length (nn_array c) \<le> 20"
proof -
  from assms obtain d where
    d: "scatter (sorted_set (map ion_t samples)) (sorted_set (map ion_zeta samples))
          (sorted_set (map ion_nn samples)) samples (np_zeros3 20 20 20) = Inr d"
    unfolding loadIonData_def Let_def by (auto simp: bindE_eq_Inr)
  note b = scatter_axis_bound[OF d zeros_shape]
  show "length (temp_array c) \<le> 20" "length (zeta_array c) \<le> 20" "length (nn_array c) \<le> 20"
    using b(1) b(2) b(3) by (simp_all add: loadIonData_axes[OF assms])
qed

lemma uniform_nth:
  assumes "uniform_axis arr" "built_axis arr n d st en" "i < length arr"
  shows "arr ! i = st + real i * d"
proof -
  from assms(1,3) have "arr ! i = arr ! 0 + real i * (arr ! 1 - arr ! 0)"
    unfolding uniform_axis_def by blast
  moreover from assms(2) have "st = arr ! 0" "d = arr ! 1 - arr ! 0"
    unfolding built_axis_def by blast+
  ultimately show ?thesis by (simp only:)
qed

lemma bracket_at_node:
  assumes g: "\<And>q. g q = (let x = q - st in
                 if x \<le> 0 then Inr (0, 0)
                 else if x \<ge> en - st then Inr (n - 1, n - 1)
                 else if d = 0 then Inl OverflowError
                 else (let index = x / d in Inr (\<lfloor>index\<rfloor>, \<lceil>index\<rceil>)))"
    and b: "built_axis arr n d st en" and u: "uniform_axis arr" and i: "i < length arr"
  shows "g (arr ! i) = Inr (int i, int i)"
proof -
  note f = built_axis_facts[OF b]
  have ai: "arr ! i = st + real i * d" using uniform_nth[OF u b i] .
  define x where "x = arr ! i - st"
  have gx: "g (arr ! i) = (if x \<le> 0 then Inr (0, 0)
                 else if x \<ge> en - st then Inr (n - 1, n - 1)
                 else if d = 0 then Inl OverflowError
                 else Inr (\<lfloor>x / d\<rfloor>, \<lceil>x / d\<rceil>))"
    unfolding g[of "arr ! i"] Let_def x_def ..
  have xi: "x = real i * d" unfolding x_def ai by simp
  show ?thesis
  proof (cases "i = 0")
    case True
    then have "x \<le> 0" using xi by simp
    then show ?thesis unfolding gx using True by simp
  next
    case False
    then have "0 < real i * d" using f(1) by (intro mult_pos_pos) simp_all
    then have pos: "\<not> x \<le> 0" unfolding xi by simp
    show ?thesis
    proof (cases "i = length arr - 1")
      case True
      then have "arr ! i = en" using f(3) by simp
      then have "x \<ge> en - st" unfolding x_def by simp
      moreover have "int i = n - 1" using True f(4,5) by simp
      ultimately show ?thesis unfolding gx using pos by simp
    next
      case ni: False
      then have "i < length arr - 1" using i by simp
      moreover from b have "sorted_wrt (<) arr" by (simp add: built_axis_def)
      moreover have "length arr - 1 < length arr" using i by simp
      ultimately have "arr ! i < arr ! (length arr - 1)"
        by (intro strict_sorted_nth_less)
      then have lt: "\<not> x \<ge> en - st" unfolding x_def f(3) by simp
      have q: "x / d = real i" unfolding xi using f(1) by simp
      have fl: "\<lfloor>x / d\<rfloor> = int i" "\<lceil>x / d\<rceil> = int i" unfolding q by simp_all
      have d0: "d \<noteq> 0" using f(1) by simp
      show ?thesis unfolding gx fl using lt pos d0 by simp
    qed
  qed
qed

text \<open>
  Claim C2, as amended.  In a table built by \<^verbatim>\<open>loadIonData\<close> from samples with positive
  coordinates whose three logarithmic axes are uniformly spaced, the lookup at the
  coordinates of any table node \<open>(i, j, k)\<close>, hence at each of the eight corners of any
  cell, returns the value stored at that node.
\<close>

theorem trilinear_corner_value:
  assumes built: "loadIonData samples = Inr c"
    and pos: "\<forall>s\<in>set samples. 0 < ion_t s \<and> 0 < ion_zeta s \<and> 0 < ion_nn s"
    and uni: "uniform_axis (temp_array c)" "uniform_axis (zeta_array c)" "uniform_axis (nn_array c)"
    and idx: "i < length (temp_array c)" "j < length (zeta_array c)" "k < length (nn_array c)"
  shows "interpolateIonFraction c (Finite (10 powr (temp_array c ! i)))
           (Finite (10 powr (zeta_array c ! j))) (Finite (10 powr (nn_array c ! k)))
         = Inr (Num (ion_data c ! i ! j ! k))"
proof -
  note b = loadIonData_built[OF built pos]
  have gx: "getIndicesForTempValue c (Finite (temp_array c ! i)) = Inr (int i, int i)"
    by (rule bracket_at_node[where g = "\<lambda>q. getIndicesForTempValue c (Finite q)",
          OF _ b(1) uni(1) idx(1)]) (rule getIndicesForTempValue_Finite)
  have gy: "getIndicesForZetaValue c (Finite (zeta_array c ! j)) = Inr (int j, int j)"
    by (rule bracket_at_node[where g = "\<lambda>q. getIndicesForZetaValue c (Finite q)",
          OF _ b(2) uni(2) idx(2)]) (rule getIndicesForZetaValue_Finite)
  have gz: "getIndicesForNnValue c (Finite (nn_array c ! k)) = Inr (int k, int k)"
    by (rule bracket_at_node[where g = "\<lambda>q. getIndicesForNnValue c (Finite q)",
          OF _ b(3) uni(3) idx(3)]) (rule getIndicesForNnValue_Finite)
  have lt: "i < 20" "j < 20" "k < 20"
    using loadIonData_axis_bounds[OF built] idx by simp_all
  have cg: "cube_get (ion_data c) (int i) (int j) (int k) = Inr (ion_data c ! i ! j ! k)"
    using cube_get_nat[OF loadIonData_shape[OF built] lt] .
  have ix: "np_index (temp_array c) (int i) = Inr (temp_array c ! i)"
    "np_index (zeta_array c) (int j) = Inr (zeta_array c ! j)"
    "np_index (nn_array c) (int k) = Inr (nn_array c ! k)"
    using idx by (simp_all add: np_index_nat)
  show ?thesis
    unfolding interpolateIonFraction_def Let_def np_log10_powr
    by (simp add: gx gy gz ix cg)
qed

lemma log10_pow: "log 10 (10 ^ n) = real n"
  by simp

lemma log10_numerals: "log 10 100 = 2" "log 10 10000 = 4" "log 10 100000 = 5"
  using log10_pow[of 2] log10_pow[of 4] log10_pow[of 5] by simp_all

lemma four_samples_axes:
  "sorted_set (map ion_t four_samples) = [10, 100, 10000, 100000]"
  "sorted_set (map ion_zeta four_samples) = [10, 100]"
  "sorted_set (map ion_nn four_samples) = [10, 100]"
  by (simp_all add: four_samples_def sorted_set_def)

lemma four_samples_scatter:
  "\<exists>d. scatter [10, 100, 10000, 100000] [10, 100] [10, 100] four_samples (np_zeros3 20 20 20) = Inr d
       \<and> d ! 2 ! 0 ! 0 = 3 \<and> d ! 3 ! 0 ! 0 = 4"
  by (simp add: four_samples_def cube_set_def np_zeros3_def numeral_2_eq_2 numeral_3_eq_3)

lemma two_samples_scatter:
  "\<exists>d. scatter [10, 100] [10, 100] [10, 100] two_samples (np_zeros3 20 20 20) = Inr d
       \<and> d ! 0 ! 0 ! 0 = 1 / 10 \<and> d ! 1 ! 1 ! 1 = 1 / 5 \<and> d ! 1 ! 0 ! 1 = 0"
  by (simp add: two_samples_def cube_set_def np_zeros3_def)

lemma loadIonData_data:
  assumes "loadIonData samples = Inr c"
  shows "scatter (sorted_set (map ion_t samples)) (sorted_set (map ion_zeta samples))
          (sorted_set (map ion_nn samples)) samples (np_zeros3 20 20 20) = Inr (ion_data c)"
  using assms unfolding loadIonData_def Let_def by (auto simp: bindE_eq_Inr)

lemma four_samples_load: "\<exists>c. loadIonData four_samples = Inr c"
  by (rule loadIonData_succeeds) (simp_all add: four_samples_axes)

text \<open>
  The claim C2 as stated, for every built table, fails when an axis is not uniformly
  spaced.  Four samples with temperatures \<open>10\<close>, \<open>10\<^sup>2\<close>, \<open>10\<^sup>4\<close>, \<open>10\<^sup>5\<close> build the axis
  \<open>[1, 2, 4, 5]\<close> with first step 1.  At the node with temperature index 2 the search
  divides the offset 3 by that step and brackets with \<open>(3, 3)\<close>, so that the lookup
  returns 4, the value stored at index 3, and not the 3 stored at index 2.
\<close>

theorem trilinear_corner_counterexample:
  "\<exists>c. loadIonData four_samples = Inr c \<and>
       temp_array c ! 2 = 4 \<and> zeta_array c ! 0 = 1 \<and> nn_array c ! 0 = 1 \<and>
       ion_data c ! 2 ! 0 ! 0 = 3 \<and>
       interpolateIonFraction c (Finite (10 powr 4)) (Finite (10 powr 1)) (Finite (10 powr 1))
         = Inr (Num 4)"
proof -
  obtain c where c: "loadIonData four_samples = Inr c" using four_samples_load by blast
  have ax: "temp_array c = [1, 2, 4, 5]" "zeta_array c = [1, 2]" "nn_array c = [1, 2]"
    using loadIonData_axes[OF c] by (simp_all add: four_samples_axes log10_numerals)
  have f: "start_temp c = 1" "end_temp c = 5" "d_temp c = 1" "n_temp c = 4"
    "start_zeta c = 1" "end_zeta c = 2" "start_nn c = 1" "end_nn c = 2"
    using loadIonData_fields[OF c] by (simp_all add: ax)
  have d: "ion_data c ! 2 ! 0 ! 0 = 3" "ion_data c ! 3 ! 0 ! 0 = 4"
    using loadIonData_data[OF c] four_samples_scatter by (simp_all add: four_samples_axes)
  have sh: "cube_shape (ion_data c) 20" using loadIonData_shape[OF c] .
  have gx: "getIndicesForTempValue c (Finite 4) = Inr (3, 3)"
    by (simp add: getIndicesForTempValue_Finite f)
  have gy: "getIndicesForZetaValue c (Finite 1) = Inr (0, 0)"
    by (simp add: getIndicesForZetaValue_Finite f)
  have gz: "getIndicesForNnValue c (Finite 1) = Inr (0, 0)"
    by (simp add: getIndicesForNnValue_Finite f)
  have cg: "cube_get (ion_data c) 3 0 0 = Inr 4"
    using cube_get_nat[OF sh, of 3 0 0] d by simp
  have ix: "np_index (temp_array c) 3 = Inr 5" "np_index (zeta_array c) 0 = Inr 1"
    "np_index (nn_array c) 0 = Inr 1"
    by (simp_all add: ax np_index_def)
  have "interpolateIonFraction c (Finite (10 powr 4)) (Finite (10 powr 1)) (Finite (10 powr 1))
          = Inr (Num 4)"
    unfolding interpolateIonFraction_def Let_def np_log10_powr
    by (simp add: gx gy gz ix cg)
  then show ?thesis using c ax d by auto
qed

text \<open>The table of two samples, at its node \<open>(1, 1, 1)\<close>.\<close>

theorem trilinear_corner_witness:
  "\<exists>c. loadIonData two_samples = Inr c \<and>
       uniform_axis (temp_array c) \<and> uniform_axis (zeta_array c) \<and> uniform_axis (nn_array c) \<and>
       temp_array c ! 1 = 2 \<and> zeta_array c ! 1 = 2 \<and> nn_array c ! 1 = 2 \<and>
       interpolateIonFraction c (Finite (10 powr 2)) (Finite (10 powr 2)) (Finite (10 powr 2))
         = Inr (Num (1 / 5))"
proof -
  obtain c where c: "loadIonData two_samples = Inr c" using two_samples_load by blast
  have ax: "temp_array c = [1, 2]" "zeta_array c = [1, 2]" "nn_array c = [1, 2]"
    using loadIonData_axes[OF c] by (simp_all add: two_samples_axes log10_numerals)
  have u: "uniform_axis [1, 2]"
    by (simp add: uniform_axis_def less_Suc_eq numeral_2_eq_2)
  have d: "ion_data c ! 1 ! 1 ! 1 = 1 / 5"
    using loadIonData_data[OF c] two_samples_scatter by (simp add: two_samples_axes)
  have "interpolateIonFraction c (Finite (10 powr (temp_array c ! 1)))
          (Finite (10 powr (zeta_array c ! 1))) (Finite (10 powr (nn_array c ! 1)))
        = Inr (Num (ion_data c ! 1 ! 1 ! 1))"
    by (rule trilinear_corner_value[OF c two_samples_pos]) (simp_all add: ax u)
  then show ?thesis using c u d by (simp add: ax)
qed

lemma bracket_order:
  assumes g: "\<And>q. g q = (let x = q - st in
                 if x \<le> 0 then Inr (0, 0)
                 else if x \<ge> en - st then Inr (n - 1, n - 1)
                 else if d = 0 then Inl OverflowError
                 else (let index = x / d in Inr (\<lfloor>index\<rfloor>, \<lceil>index\<rceil>)))"
    and b: "built_axis arr n d st en" and r: "g q = Inr (l, r)"
  shows "0 \<le> l \<and> l \<le> r"
proof -
  note f = built_axis_facts[OF b]
  consider "q - st \<le> 0" | "\<not> q - st \<le> 0" "q - st \<ge> en - st"
    | "\<not> q - st \<le> 0" "\<not> q - st \<ge> en - st" by blast
  then show ?thesis
  proof cases
    case 1
    then have "g q = Inr (0, 0)" unfolding g Let_def by simp
    with r show ?thesis by simp
  next
    case 2
    then have "g q = Inr (n - 1, n - 1)" unfolding g Let_def by simp
    with r f(4,5) show ?thesis by simp
  next
    case 3
    then have "g q = Inr (\<lfloor>(q - st) / d\<rfloor>, \<lceil>(q - st) / d\<rceil>)"
      unfolding g Let_def using f(1) by simp
    with r have l: "l = \<lfloor>(q - st) / d\<rfloor>" and r': "r = \<lceil>(q - st) / d\<rceil>" by simp_all
    have "0 < (q - st) / d" using 3(1) f(1) by simp
    then have "0 \<le> l" unfolding l by simp
    moreover have "l \<le> r" unfolding l r' by (rule floor_le_ceiling)
    ultimately show ?thesis by simp
  qed
qed

lemma bracket_inside_uniform:
  assumes g: "\<And>q. g q = (let x = q - st in
                 if x \<le> 0 then Inr (0, 0)
                 else if x \<ge> en - st then Inr (n - 1, n - 1)
                 else if d = 0 then Inl OverflowError
                 else (let index = x / d in Inr (\<lfloor>index\<rfloor>, \<lceil>index\<rceil>)))"
    and b: "built_axis arr n d st en" and u: "uniform_axis arr"
  shows "\<exists>l r. g q = Inr (l, r) \<and> r < n"
proof -
  note f = built_axis_facts[OF b]
  consider "q - st \<le> 0" | "\<not> q - st \<le> 0" "q - st \<ge> en - st"
    | "\<not> q - st \<le> 0" "\<not> q - st \<ge> en - st" by blast
  then show ?thesis
  proof cases
    case 1
    then have "g q = Inr (0, 0)" unfolding g Let_def by simp
    moreover have "0 < n" using f(4,5) by linarith
    ultimately show ?thesis by simp
  next
    case 2
    then have "g q = Inr (n - 1, n - 1)" unfolding g Let_def by simp
    then show ?thesis by simp
  next
    case 3
    then have "g q = Inr (\<lfloor>(q - st) / d\<rfloor>, \<lceil>(q - st) / d\<rceil>)"
      unfolding g Let_def using f(1) by simp
    moreover have "st < q" "q < en" using 3 by simp_all
    from uniform_bracket[OF u b this] have "\<lceil>(q - st) / d\<rceil> < n" by simp
    ultimately show ?thesis by simp
  qed
qed

lemma cube_get_int:
  assumes "cube_shape d n" "0 \<le> i" "i < int n" "0 \<le> j" "j < int n" "0 \<le> k" "k < int n"
  shows "cube_get d i j k = Inr (d ! nat i ! nat j ! nat k)"
  using cube_get_nat[OF assms(1), of "nat i" "nat j" "nat k"] assms by simp

lemma blend_same_zero: "blend a b (Num 0) = (case (a, b) of (Num x, Num y) \<Rightarrow> Num x | _ \<Rightarrow> NaN)"
  by (cases a; cases b) (simp_all add: blend_def fadd_def fmul_def fsub_def)

text \<open>The brackets of a table built by \<^verbatim>\<open>loadIonData\<close>, for every argument of the search:
  ordered, and on a number a weight that is a number.\<close>

lemma bracket_order_any:
  assumes fin: "\<And>q. g (Finite q) = (let x = q - st in
                 if x \<le> 0 then Inr (0, 0)
                 else if x \<ge> en - st then Inr (n - 1, n - 1)
                 else if d = 0 then Inl OverflowError
                 else (let index = x / d in Inr (\<lfloor>index\<rfloor>, \<lceil>index\<rceil>)))"
    and inf: "g NegInf = Inr (0, 0)" "g PosInf = Inr (n - 1, n - 1)" "g NotANumber = Inl ValueError_nan"
    and b: "built_axis arr n d st en" and r: "g x = Inr (l, r)"
  shows "0 \<le> l \<and> l \<le> r \<and> ((\<forall>q. x \<noteq> Finite q) \<longrightarrow> l = r)"
proof (cases x)
  case (Finite q)
  have "0 \<le> l \<and> l \<le> r"
    by (rule bracket_order[where g = "\<lambda>q. g (Finite q)" and q = q, OF fin b])
       (use r Finite in simp)
  then show ?thesis using Finite by simp
next
  case PosInf
  then show ?thesis using r inf(2) built_axis_facts(4,5)[OF b] by simp
next
  case NegInf
  then show ?thesis using r inf(1) by simp
next
  case NotANumber
  then show ?thesis using r inf(3) by simp
qed

lemma bracket_inside_any:
  assumes fin: "\<And>q. g (Finite q) = (let x = q - st in
                 if x \<le> 0 then Inr (0, 0)
                 else if x \<ge> en - st then Inr (n - 1, n - 1)
                 else if d = 0 then Inl OverflowError
                 else (let index = x / d in Inr (\<lfloor>index\<rfloor>, \<lceil>index\<rceil>)))"
    and inf: "g NegInf = Inr (0, 0)" "g PosInf = Inr (n - 1, n - 1)"
    and b: "built_axis arr n d st en" and u: "uniform_axis arr" and x: "x \<noteq> NotANumber"
  shows "\<exists>l r. g x = Inr (l, r) \<and> r < n"
proof (cases x)
  case (Finite q)
  show ?thesis unfolding Finite
    by (rule bracket_inside_uniform[where g = "\<lambda>q. g (Finite q)" and q = q, OF fin b u])
next
  case PosInf
  then show ?thesis using inf(2) by simp
next
  case NegInf
  have "0 < n" using built_axis_facts(4,5)[OF b] by linarith
  then show ?thesis using NegInf inf(1) by simp
next
  case NotANumber
  then show ?thesis using x by simp
qed

lemma scaled_difference_any:
  "((\<forall>q. x \<noteq> Finite q) \<longrightarrow> a = b) \<Longrightarrow> \<exists>w. scaled_difference x a b = Num w"
  by (cases x) (simp_all add: scaled_difference_def)

lemma nonnegative_log: "nonnegative q \<Longrightarrow> np_log10 q \<noteq> NotANumber"
  by (cases q) (simp_all add: nonnegative_def)

lemma interpolate_value:
  assumes built: "loadIonData samples = Inr c"
    and pos: "\<forall>s\<in>set samples. 0 < ion_t s \<and> 0 < ion_zeta s \<and> 0 < ion_nn s"
    and gx: "getIndicesForTempValue c x = Inr (xl, xr)"
    and gy: "getIndicesForZetaValue c y = Inr (yl, yr)"
    and gz: "getIndicesForNnValue c z = Inr (zl, zr)"
    and inside: "xr < n_temp c" "yr < n_zeta c" "zr < n_nn c"
    and logs: "np_log10 temp = x" "np_log10 zeta = y" "np_log10 nn = z"
  shows "interpolateIonFraction c temp zeta nn =
           Inr (blend
                 (plane_blend (corner c xl yl zl) (corner c xr yl zl) (corner c xl yr zl) (corner c xr yr zl)
                    (axis_weight (temp_array c) x xl xr)
                    (axis_weight (zeta_array c) y yl yr))
                 (plane_blend (corner c xl yl zr) (corner c xr yl zr) (corner c xl yr zr) (corner c xr yr zr)
                    (axis_weight (temp_array c) x xl xr)
                    (axis_weight (zeta_array c) y yl yr))
                 (axis_weight (nn_array c) z zl zr))"
    and "\<exists>w. axis_weight (temp_array c) x xl xr = Num w"
    and "\<exists>w. axis_weight (zeta_array c) y yl yr = Num w"
    and "\<exists>w. axis_weight (nn_array c) z zl zr = Num w"
proof -
  note b = loadIonData_built[OF built pos]
  note f = loadIonData_fields[OF built]
  note len = loadIonData_axis_bounds[OF built]
  have ox: "0 \<le> xl \<and> xl \<le> xr \<and> ((\<forall>q. x \<noteq> Finite q) \<longrightarrow> xl = xr)"
    by (rule bracket_order_any[where g = "getIndicesForTempValue c", OF _ _ _ _ b(1) gx])
       (simp_all add: getIndicesForTempValue_Finite getIndices_infinite)
  have oy: "0 \<le> yl \<and> yl \<le> yr \<and> ((\<forall>q. y \<noteq> Finite q) \<longrightarrow> yl = yr)"
    by (rule bracket_order_any[where g = "getIndicesForZetaValue c", OF _ _ _ _ b(2) gy])
       (simp_all add: getIndicesForZetaValue_Finite getIndices_infinite)
  have oz: "0 \<le> zl \<and> zl \<le> zr \<and> ((\<forall>q. z \<noteq> Finite q) \<longrightarrow> zl = zr)"
    by (rule bracket_order_any[where g = "getIndicesForNnValue c", OF _ _ _ _ b(3) gz])
       (simp_all add: getIndicesForNnValue_Finite getIndices_infinite)
  show "\<exists>w. axis_weight (temp_array c) x xl xr = Num w"
    unfolding axis_weight_def using ox by (intro scaled_difference_any) auto
  show "\<exists>w. axis_weight (zeta_array c) y yl yr = Num w"
    unfolding axis_weight_def using oy by (intro scaled_difference_any) auto
  show "\<exists>w. axis_weight (nn_array c) z zl zr = Num w"
    unfolding axis_weight_def using oz by (intro scaled_difference_any) auto
  have rx: "0 \<le> xl" "xl < int (length (temp_array c))" "0 \<le> xr" "xr < int (length (temp_array c))"
    using ox inside(1) f(1) by simp_all
  have ry: "0 \<le> yl" "yl < int (length (zeta_array c))" "0 \<le> yr" "yr < int (length (zeta_array c))"
    using oy inside(2) f(2) by simp_all
  have rz: "0 \<le> zl" "zl < int (length (nn_array c))" "0 \<le> zr" "zr < int (length (nn_array c))"
    using oz inside(3) f(3) by simp_all
  have ix: "np_index (temp_array c) xl = Inr (temp_array c ! nat xl)"
    "np_index (temp_array c) xr = Inr (temp_array c ! nat xr)"
    "np_index (zeta_array c) yl = Inr (zeta_array c ! nat yl)"
    "np_index (zeta_array c) yr = Inr (zeta_array c ! nat yr)"
    "np_index (nn_array c) zl = Inr (nn_array c ! nat zl)"
    "np_index (nn_array c) zr = Inr (nn_array c ! nat zr)"
    using rx ry rz by (simp_all add: np_index_Inr_nonneg)
  have b20: "xl < 20" "xr < 20" "yl < 20" "yr < 20" "zl < 20" "zr < 20"
    using rx ry rz len by simp_all
  note sh = loadIonData_shape[OF built]
  have cg: "\<And>i j k. 0 \<le> i \<Longrightarrow> i < 20 \<Longrightarrow> 0 \<le> j \<Longrightarrow> j < 20 \<Longrightarrow> 0 \<le> k \<Longrightarrow> k < 20 \<Longrightarrow>
      cube_get (ion_data c) i j k = Inr (ion_data c ! nat i ! nat j ! nat k)"
    using cube_get_int[OF sh] by simp
  have cgs: "cube_get (ion_data c) xl yl zl = Inr (ion_data c ! nat xl ! nat yl ! nat zl)"
    "cube_get (ion_data c) xl yl zr = Inr (ion_data c ! nat xl ! nat yl ! nat zr)"
    "cube_get (ion_data c) xl yr zl = Inr (ion_data c ! nat xl ! nat yr ! nat zl)"
    "cube_get (ion_data c) xl yr zr = Inr (ion_data c ! nat xl ! nat yr ! nat zr)"
    "cube_get (ion_data c) xr yl zl = Inr (ion_data c ! nat xr ! nat yl ! nat zl)"
    "cube_get (ion_data c) xr yl zr = Inr (ion_data c ! nat xr ! nat yl ! nat zr)"
    "cube_get (ion_data c) xr yr zl = Inr (ion_data c ! nat xr ! nat yr ! nat zl)"
    "cube_get (ion_data c) xr yr zr = Inr (ion_data c ! nat xr ! nat yr ! nat zr)"
    using rx(1,3) ry(1,3) rz(1,3) b20 by (simp_all add: cg)
  show "interpolateIonFraction c temp zeta nn =
           Inr (blend
                 (plane_blend (corner c xl yl zl) (corner c xr yl zl) (corner c xl yr zl) (corner c xr yr zl)
                    (axis_weight (temp_array c) x xl xr)
                    (axis_weight (zeta_array c) y yl yr))
                 (plane_blend (corner c xl yl zr) (corner c xr yl zr) (corner c xl yr zr) (corner c xr yr zr)
                    (axis_weight (temp_array c) x xl xr)
                    (axis_weight (zeta_array c) y yl yr))
                 (axis_weight (nn_array c) z zl zr))"
    unfolding interpolateIonFraction_def Let_def logs
    by (simp add: gx gy gz ix cgs plane_blend_def corner_def axis_weight_def)
qed

text \<open>Inside the table a degenerate axis contributes its single plane.\<close>

lemma degenerate_axis_planes:
  assumes built: "loadIonData samples = Inr c"
    and pos: "\<forall>s\<in>set samples. 0 < ion_t s \<and> 0 < ion_zeta s \<and> 0 < ion_nn s"
    and gx: "getIndicesForTempValue c x = Inr (xl, xr)"
    and gy: "getIndicesForZetaValue c y = Inr (yl, yr)"
    and gz: "getIndicesForNnValue c z = Inr (zl, zr)"
    and inside: "xr < n_temp c" "yr < n_zeta c" "zr < n_nn c"
    and logs: "np_log10 temp = x" "np_log10 zeta = y" "np_log10 nn = z"
  shows "(\<exists>v. interpolateIonFraction c temp zeta nn = Inr (Num v)) \<and>
         (xl = xr \<longrightarrow>
            axis_weight (temp_array c) x xl xr = Num 0 \<and>
            interpolateIonFraction c temp zeta nn =
              Inr (plane_blend (corner c xl yl zl) (corner c xl yr zl) (corner c xl yl zr) (corner c xl yr zr)
                     (axis_weight (zeta_array c) y yl yr)
                     (axis_weight (nn_array c) z zl zr))) \<and>
         (yl = yr \<longrightarrow>
            axis_weight (zeta_array c) y yl yr = Num 0 \<and>
            interpolateIonFraction c temp zeta nn =
              Inr (plane_blend (corner c xl yl zl) (corner c xr yl zl) (corner c xl yl zr) (corner c xr yl zr)
                     (axis_weight (temp_array c) x xl xr)
                     (axis_weight (nn_array c) z zl zr))) \<and>
         (zl = zr \<longrightarrow>
            axis_weight (nn_array c) z zl zr = Num 0 \<and>
            interpolateIonFraction c temp zeta nn =
              Inr (plane_blend (corner c xl yl zl) (corner c xr yl zl) (corner c xl yr zl) (corner c xr yr zl)
                     (axis_weight (temp_array c) x xl xr)
                     (axis_weight (zeta_array c) y yl yr)))"
proof -
  note v = interpolate_value(1)[OF assms]
  obtain wx where wx: "axis_weight (temp_array c) x xl xr = Num wx"
    using interpolate_value(2)[OF assms] by blast
  obtain wy where wy: "axis_weight (zeta_array c) y yl yr = Num wy"
    using interpolate_value(3)[OF assms] by blast
  obtain wz where wz: "axis_weight (nn_array c) z zl zr = Num wz"
    using interpolate_value(4)[OF assms] by blast
  have zx: "wx = 0" if "xl = xr" using wx that by (simp add: axis_weight_def)
  have zy: "wy = 0" if "yl = yr" using wy that by (simp add: axis_weight_def)
  have zz: "wz = 0" if "zl = zr" using wz that by (simp add: axis_weight_def)
  have 1: "\<exists>v. interpolateIonFraction c temp zeta nn = Inr (Num v)"
    unfolding v wx wy wz by (simp add: plane_blend_def corner_def)
  have 2: "axis_weight (temp_array c) x xl xr = Num 0 \<and>
           interpolateIonFraction c temp zeta nn =
              Inr (plane_blend (corner c xl yl zl) (corner c xl yr zl) (corner c xl yl zr) (corner c xl yr zr)
                     (axis_weight (zeta_array c) y yl yr)
                     (axis_weight (nn_array c) z zl zr))" if "xl = xr"
    unfolding v wx wy wz using zx[OF that] that by (simp add: plane_blend_def corner_def)
  have 3: "axis_weight (zeta_array c) y yl yr = Num 0 \<and>
           interpolateIonFraction c temp zeta nn =
              Inr (plane_blend (corner c xl yl zl) (corner c xr yl zl) (corner c xl yl zr) (corner c xr yl zr)
                     (axis_weight (temp_array c) x xl xr)
                     (axis_weight (nn_array c) z zl zr))" if "yl = yr"
    unfolding v wx wy wz using zy[OF that] that by (simp add: plane_blend_def corner_def)
  have 4: "axis_weight (nn_array c) z zl zr = Num 0 \<and>
           interpolateIonFraction c temp zeta nn =
              Inr (plane_blend (corner c xl yl zl) (corner c xr yl zl) (corner c xl yr zl) (corner c xr yr zl)
                     (axis_weight (temp_array c) x xl xr)
                     (axis_weight (zeta_array c) y yl yr))" if "zl = zr"
    unfolding v wx wy wz using zz[OF that] that by (simp add: plane_blend_def corner_def)
  show ?thesis using 1 2 3 4 by blast
qed

lemma two_samples_cube:
  "\<exists>d. scatter [10, 100] [10, 100] [10, 100] two_samples (np_zeros3 20 20 20) = Inr d
       \<and> d ! 0 ! 0 ! 0 = 1 / 10 \<and> d ! 0 ! 1 ! 0 = 0"
  by (simp add: two_samples_def cube_set_def np_zeros3_def)

text \<open>On uniformly spaced axes every bracket lies inside the table, whenever the
  argument of the search is not not-a-number.\<close>

lemma uniform_table_brackets_inside:
  assumes built: "loadIonData samples = Inr c"
    and pos: "\<forall>s\<in>set samples. 0 < ion_t s \<and> 0 < ion_zeta s \<and> 0 < ion_nn s"
    and uni: "uniform_axis (temp_array c)" "uniform_axis (zeta_array c)" "uniform_axis (nn_array c)"
    and q: "q \<noteq> NotANumber"
  shows "\<exists>l r. getIndicesForTempValue c q = Inr (l, r) \<and> r < n_temp c"
    and "\<exists>l r. getIndicesForZetaValue c q = Inr (l, r) \<and> r < n_zeta c"
    and "\<exists>l r. getIndicesForNnValue c q = Inr (l, r) \<and> r < n_nn c"
proof -
  note b = loadIonData_built[OF built pos]
  show "\<exists>l r. getIndicesForTempValue c q = Inr (l, r) \<and> r < n_temp c"
    by (rule bracket_inside_any[where g = "getIndicesForTempValue c", OF _ _ _ b(1) uni(1) q])
      (simp_all add: getIndicesForTempValue_Finite getIndices_infinite)
  show "\<exists>l r. getIndicesForZetaValue c q = Inr (l, r) \<and> r < n_zeta c"
    by (rule bracket_inside_any[where g = "getIndicesForZetaValue c", OF _ _ _ b(2) uni(2) q])
      (simp_all add: getIndicesForZetaValue_Finite getIndices_infinite)
  show "\<exists>l r. getIndicesForNnValue c q = Inr (l, r) \<and> r < n_nn c"
    by (rule bracket_inside_any[where g = "getIndicesForNnValue c", OF _ _ _ b(3) uni(3) q])
      (simp_all add: getIndicesForNnValue_Finite getIndices_infinite)
qed

text \<open>Whatever the table and the query, the lookup raises nothing but IndexError (an
  index outside an axis or the cube), OverflowError (a zero spacing) or ValueError (a
  logarithm that is not a number): the divisions by a bracket's width are numpy
  divisions and cannot raise.\<close>

lemma bindE_eq_Inl: "bindE m f = Inl e \<longleftrightarrow> m = Inl e \<or> (\<exists>v. m = Inr v \<and> f v = Inl e)"
  by (cases m) simp_all

lemma np_index_error: "np_index xs i = Inl e \<Longrightarrow> e = IndexError"
  by (auto simp: np_index_def split: if_splits)

lemma cube_get_error: "cube_get d i j k = Inl e \<Longrightarrow> e = IndexError"
  by (auto simp: cube_get_def bindE_eq_Inl dest: np_index_error)

lemma getIndices_error:
  "getIndicesForTempValue c q = Inl e \<Longrightarrow> e = OverflowError \<or> e = ValueError_nan"
  "getIndicesForZetaValue c q = Inl e \<Longrightarrow> e = OverflowError \<or> e = ValueError_nan"
  "getIndicesForNnValue c q = Inl e \<Longrightarrow> e = OverflowError \<or> e = ValueError_nan"
  by (cases q; auto simp: getIndicesForTempValue_Finite getIndicesForZetaValue_Finite
        getIndicesForNnValue_Finite getIndices_infinite Let_def split: if_splits)+

lemma interpolateIonFraction_errors:
  "interpolateIonFraction c temp zeta nn = Inl e \<Longrightarrow>
     e = IndexError \<or> e = OverflowError \<or> e = ValueError_nan"
  unfolding interpolateIonFraction_def Let_def
  by (auto simp: bindE_eq_Inl dest: np_index_error cube_get_error getIndices_error)

text \<open>
  Claim C4, as amended.  No lookup raises a division fault, whatever the table and the
  query.  For a table built by \<^verbatim>\<open>loadIonData\<close> from samples with positive coordinates whose
  three logarithmic axes are uniformly spaced, and a query of three numbers none of which
  is negative, the three bracket searches return, the lookup returns a number (no
  exception, and not not-a-number), and on every axis whose bracket has left = right
  the fractional weight is 0 and the result is the blend, over the two other axes, of
  the four values in the single plane of that bracket.  The division by the zero width
  is a numpy division, which does not raise, and its result is overwritten by the guard.
\<close>

theorem zero_width_bracket_weight:
  "interpolateIonFraction c temp zeta nn \<noteq> Inl ZeroDivisionError \<and>
   (loadIonData samples = Inr c \<and>
    (\<forall>s\<in>set samples. 0 < ion_t s \<and> 0 < ion_zeta s \<and> 0 < ion_nn s) \<and>
    uniform_axis (temp_array c) \<and> uniform_axis (zeta_array c) \<and> uniform_axis (nn_array c) \<and>
    nonnegative temp \<and> nonnegative zeta \<and> nonnegative nn \<longrightarrow>
    (\<exists>xl xr yl yr zl zr.
       getIndicesForTempValue c (np_log10 temp) = Inr (xl, xr) \<and>
       getIndicesForZetaValue c (np_log10 zeta) = Inr (yl, yr) \<and>
       getIndicesForNnValue c (np_log10 nn) = Inr (zl, zr) \<and>
       (\<exists>v. interpolateIonFraction c temp zeta nn = Inr (Num v)) \<and>
       (xl = xr \<longrightarrow>
          axis_weight (temp_array c) (np_log10 temp) xl xr = Num 0 \<and>
          interpolateIonFraction c temp zeta nn =
            Inr (plane_blend (corner c xl yl zl) (corner c xl yr zl) (corner c xl yl zr) (corner c xl yr zr)
                   (axis_weight (zeta_array c) (np_log10 zeta) yl yr)
                   (axis_weight (nn_array c) (np_log10 nn) zl zr))) \<and>
       (yl = yr \<longrightarrow>
          axis_weight (zeta_array c) (np_log10 zeta) yl yr = Num 0 \<and>
          interpolateIonFraction c temp zeta nn =
            Inr (plane_blend (corner c xl yl zl) (corner c xr yl zl) (corner c xl yl zr) (corner c xr yl zr)
                   (axis_weight (temp_array c) (np_log10 temp) xl xr)
                   (axis_weight (nn_array c) (np_log10 nn) zl zr))) \<and>
       (zl = zr \<longrightarrow>
          axis_weight (nn_array c) (np_log10 nn) zl zr = Num 0 \<and>
          interpolateIonFraction c temp zeta nn =
            Inr (plane_blend (corner c xl yl zl) (corner c xr yl zl) (corner c xl yr zl) (corner c xr yr zl)
                   (axis_weight (temp_array c) (np_log10 temp) xl xr)
                   (axis_weight (zeta_array c) (np_log10 zeta) yl yr)))))"
proof -
  have nz: "interpolateIonFraction c temp zeta nn \<noteq> Inl ZeroDivisionError"
    using interpolateIonFraction_errors[of c temp zeta nn ZeroDivisionError] by auto
  have main: "\<exists>xl xr yl yr zl zr.
       getIndicesForTempValue c (np_log10 temp) = Inr (xl, xr) \<and>
       getIndicesForZetaValue c (np_log10 zeta) = Inr (yl, yr) \<and>
       getIndicesForNnValue c (np_log10 nn) = Inr (zl, zr) \<and>
       (\<exists>v. interpolateIonFraction c temp zeta nn = Inr (Num v)) \<and>
       (xl = xr \<longrightarrow>
          axis_weight (temp_array c) (np_log10 temp) xl xr = Num 0 \<and>
          interpolateIonFraction c temp zeta nn =
            Inr (plane_blend (corner c xl yl zl) (corner c xl yr zl) (corner c xl yl zr) (corner c xl yr zr)
                   (axis_weight (zeta_array c) (np_log10 zeta) yl yr)
                   (axis_weight (nn_array c) (np_log10 nn) zl zr))) \<and>
       (yl = yr \<longrightarrow>
          axis_weight (zeta_array c) (np_log10 zeta) yl yr = Num 0 \<and>
          interpolateIonFraction c temp zeta nn =
            Inr (plane_blend (corner c xl yl zl) (corner c xr yl zl) (corner c xl yl zr) (corner c xr yl zr)
                   (axis_weight (temp_array c) (np_log10 temp) xl xr)
                   (axis_weight (nn_array c) (np_log10 nn) zl zr))) \<and>
       (zl = zr \<longrightarrow>
          axis_weight (nn_array c) (np_log10 nn) zl zr = Num 0 \<and>
          interpolateIonFraction c temp zeta nn =
            Inr (plane_blend (corner c xl yl zl) (corner c xr yl zl) (corner c xl yr zl) (corner c xr yr zl)
                   (axis_weight (temp_array c) (np_log10 temp) xl xr)
                   (axis_weight (zeta_array c) (np_log10 zeta) yl yr)))"
    if built: "loadIonData samples = Inr c"
      and pos: "\<forall>s\<in>set samples. 0 < ion_t s \<and> 0 < ion_zeta s \<and> 0 < ion_nn s"
      and uni: "uniform_axis (temp_array c)" "uniform_axis (zeta_array c)" "uniform_axis (nn_array c)"
      and nn: "nonnegative temp" "nonnegative zeta" "nonnegative nn"
  proof -
    obtain xl xr where gx: "getIndicesForTempValue c (np_log10 temp) = Inr (xl, xr)" "xr < n_temp c"
      using uniform_table_brackets_inside(1)[OF built pos uni nonnegative_log[OF nn(1)]] by blast
    obtain yl yr where gy: "getIndicesForZetaValue c (np_log10 zeta) = Inr (yl, yr)" "yr < n_zeta c"
      using uniform_table_brackets_inside(2)[OF built pos uni nonnegative_log[OF nn(2)]] by blast
    obtain zl zr where gz: "getIndicesForNnValue c (np_log10 nn) = Inr (zl, zr)" "zr < n_nn c"
      using uniform_table_brackets_inside(3)[OF built pos uni nonnegative_log[OF nn(3)]] by blast
    from degenerate_axis_planes[OF built pos gx(1) gy(1) gz(1) gx(2) gy(2) gz(2) refl refl refl]
      gx(1) gy(1) gz(1)
    show ?thesis by blast
  qed
  show ?thesis using nz main by blast
qed

text \<open>The table of two samples: degenerate brackets for temperature and density, a proper
  one for the ionization rate.\<close>

theorem zero_width_bracket_witness:
  "\<exists>c. loadIonData two_samples = Inr c \<and>
       (\<forall>s\<in>set two_samples. 0 < ion_t s \<and> 0 < ion_zeta s \<and> 0 < ion_nn s) \<and>
       uniform_axis (temp_array c) \<and> uniform_axis (zeta_array c) \<and> uniform_axis (nn_array c) \<and>
       nonnegative (Finite 0) \<and> nonnegative (Finite (10 powr (3 / 2))) \<and> nonnegative (Finite 10) \<and>
       getIndicesForTempValue c (np_log10 (Finite 0)) = Inr (0, 0) \<and>
       getIndicesForZetaValue c (np_log10 (Finite (10 powr (3 / 2)))) = Inr (0, 1) \<and>
       getIndicesForNnValue c (np_log10 (Finite 10)) = Inr (0, 0) \<and>
       axis_weight (temp_array c) (np_log10 (Finite 0)) 0 0 = Num 0 \<and>
       interpolateIonFraction c (Finite 0) (Finite (10 powr (3 / 2))) (Finite 10) = Inr (Num (1 / 20))"
proof -
  obtain c where c: "loadIonData two_samples = Inr c" using two_samples_load by blast
  have ax: "temp_array c = [1, 2]" "zeta_array c = [1, 2]" "nn_array c = [1, 2]"
    using loadIonData_axes[OF c] by (simp_all add: two_samples_axes log10_numerals)
  have u: "uniform_axis [1, 2]"
    by (simp add: uniform_axis_def less_Suc_eq numeral_2_eq_2)
  have f: "start_temp c = 1" "end_temp c = 2" "d_temp c = 1" "n_temp c = 2"
    "start_zeta c = 1" "end_zeta c = 2" "d_zeta c = 1" "n_zeta c = 2"
    "start_nn c = 1" "end_nn c = 2" "d_nn c = 1" "n_nn c = 2"
    using loadIonData_fields[OF c] by (simp_all add: ax)
  have d: "ion_data c ! 0 ! 0 ! 0 = 1 / 10" "ion_data c ! 0 ! 1 ! 0 = 0"
    using loadIonData_data[OF c] two_samples_cube by (simp_all add: two_samples_axes)
  have ce: "\<lceil>1 / 2 :: real\<rceil> = 1" by (simp add: ceiling_eq_iff)
  have l10: "np_log10 (Finite 10) = Finite 1" "np_log10 (Finite 0) = NegInf" by simp_all
  have nn: "nonnegative (Finite 0)" "nonnegative (Finite (10 powr (3 / 2)))" "nonnegative (Finite 10)"
    by (simp_all add: nonnegative_def)
  have gx: "getIndicesForTempValue c (np_log10 (Finite 0)) = Inr (0, 0)"
    unfolding l10 by (simp add: getIndices_infinite)
  have gy: "getIndicesForZetaValue c (np_log10 (Finite (10 powr (3 / 2)))) = Inr (0, 1)"
    unfolding np_log10_powr by (simp add: getIndicesForZetaValue_Finite f ce)
  have gz: "getIndicesForNnValue c (np_log10 (Finite 10)) = Inr (0, 0)"
    unfolding l10 by (simp add: getIndicesForNnValue_Finite f)
  have w: "axis_weight (zeta_array c) (Finite (3 / 2)) 0 1 = Num (1 / 2)"
    by (simp add: axis_weight_def ax scaled_difference_neq)
  have d': "ion_data c ! 0 ! Suc 0 ! 0 = 0" using d(2) by simp
  from zero_width_bracket_weight[where c = c and samples = two_samples and temp = "Finite 0"
      and zeta = "Finite (10 powr (3 / 2))" and nn = "Finite 10"] c two_samples_pos nn
  obtain xl xr yl yr zl zr where
    b: "getIndicesForTempValue c (np_log10 (Finite 0)) = Inr (xl, xr)"
       "getIndicesForZetaValue c (np_log10 (Finite (10 powr (3 / 2)))) = Inr (yl, yr)"
       "getIndicesForNnValue c (np_log10 (Finite 10)) = Inr (zl, zr)"
    and r: "xl = xr \<longrightarrow>
          axis_weight (temp_array c) (np_log10 (Finite 0)) xl xr = Num 0 \<and>
          interpolateIonFraction c (Finite 0) (Finite (10 powr (3 / 2))) (Finite 10) =
            Inr (plane_blend (corner c xl yl zl) (corner c xl yr zl) (corner c xl yl zr) (corner c xl yr zr)
                   (axis_weight (zeta_array c) (np_log10 (Finite (10 powr (3 / 2)))) yl yr)
                   (axis_weight (nn_array c) (np_log10 (Finite 10)) zl zr))"
    unfolding ax using u by blast
  have e: "xl = 0" "xr = 0" "yl = 0" "yr = 1" "zl = 0" "zr = 0"
    using b gx gy gz by simp_all
  from r have "axis_weight (temp_array c) (np_log10 (Finite 0)) 0 0 = Num 0 \<and>
        interpolateIonFraction c (Finite 0) (Finite (10 powr (3 / 2))) (Finite 10) =
          Inr (plane_blend (corner c 0 0 0) (corner c 0 1 0) (corner c 0 0 0) (corner c 0 1 0)
                 (axis_weight (zeta_array c) (np_log10 (Finite (10 powr (3 / 2)))) 0 1)
                 (axis_weight (nn_array c) (np_log10 (Finite 10)) 0 0))"
    unfolding e by simp
  moreover have "axis_weight (nn_array c) (np_log10 (Finite 10)) 0 0 = Num 0"
    by (simp add: axis_weight_def)
  ultimately have "axis_weight (temp_array c) (np_log10 (Finite 0)) 0 0 = Num 0"
    and "interpolateIonFraction c (Finite 0) (Finite (10 powr (3 / 2))) (Finite 10) = Inr (Num (1 / 20))"
    unfolding np_log10_powr by (simp_all add: w plane_blend_def corner_def d d')
  then show ?thesis using c two_samples_pos nn gx gy gz u by (simp add: ax)
qed

text \<open>
  The claim C4 as stated, for every query with a zero-width bracket, fails in two ways.
  In the table of four samples the temperature axis \<open>[1, 2, 4, 5]\<close> is not uniformly
  spaced: for the temperature \<open>10\<^sup>4\<^sup>.\<^sup>5\<close> the search divides the offset 3.5 by the first step 1
  and returns the bracket \<open>(3, 4)\<close>, whose right index lies outside the axis, so that the
  lookup raises IndexError although the two other brackets have zero width.  In the
  table of two samples a negative density has no logarithm: the first two searches
  return, the temperature bracket \<open>(0, 0)\<close> has zero width, and the third search raises
  ValueError.
\<close>

theorem zero_width_bracket_counterexample:
  "(\<exists>c. loadIonData four_samples = Inr c \<and>
        getIndicesForTempValue c (np_log10 (Finite (10 powr (9 / 2)))) = Inr (3, 4) \<and>
        getIndicesForZetaValue c (np_log10 (Finite 10)) = Inr (0, 0) \<and>
        getIndicesForNnValue c (np_log10 (Finite 10)) = Inr (0, 0) \<and>
        interpolateIonFraction c (Finite (10 powr (9 / 2))) (Finite 10) (Finite 10) = Inl IndexError) \<and>
   (\<exists>c. loadIonData two_samples = Inr c \<and>
        getIndicesForTempValue c (np_log10 (Finite 10)) = Inr (0, 0) \<and>
        getIndicesForZetaValue c (np_log10 (Finite 10)) = Inr (0, 0) \<and>
        interpolateIonFraction c (Finite 10) (Finite 10) (Finite (- 100)) = Inl ValueError_nan)"
proof -
  have l10: "np_log10 (Finite 10) = Finite 1" by simp
  have neg: "np_log10 (Finite (- 100)) = NotANumber" by simp
  have fl: "\<lfloor>7 / 2 :: real\<rfloor> = 3" "\<lceil>7 / 2 :: real\<rceil> = 4"
    by (simp_all add: floor_eq_iff ceiling_eq_iff)
  have 1: "\<exists>c. loadIonData four_samples = Inr c \<and>
        getIndicesForTempValue c (np_log10 (Finite (10 powr (9 / 2)))) = Inr (3, 4) \<and>
        getIndicesForZetaValue c (np_log10 (Finite 10)) = Inr (0, 0) \<and>
        getIndicesForNnValue c (np_log10 (Finite 10)) = Inr (0, 0) \<and>
        interpolateIonFraction c (Finite (10 powr (9 / 2))) (Finite 10) (Finite 10) = Inl IndexError"
  proof -
    obtain c where c: "loadIonData four_samples = Inr c" using four_samples_load by blast
    have ax: "temp_array c = [1, 2, 4, 5]" "zeta_array c = [1, 2]" "nn_array c = [1, 2]"
      using loadIonData_axes[OF c] by (simp_all add: four_samples_axes log10_numerals)
    have f: "start_temp c = 1" "end_temp c = 5" "d_temp c = 1" "n_temp c = 4"
      "start_zeta c = 1" "end_zeta c = 2" "start_nn c = 1" "end_nn c = 2"
      using loadIonData_fields[OF c] by (simp_all add: ax)
    have gx: "getIndicesForTempValue c (Finite (9 / 2)) = Inr (3, 4)"
      by (simp add: getIndicesForTempValue_Finite f fl)
    have gy: "getIndicesForZetaValue c (Finite 1) = Inr (0, 0)"
      by (simp add: getIndicesForZetaValue_Finite f)
    have gz: "getIndicesForNnValue c (Finite 1) = Inr (0, 0)"
      by (simp add: getIndicesForNnValue_Finite f)
    have ix: "np_index (temp_array c) 3 = Inr 5" "np_index (temp_array c) 4 = Inl IndexError"
      by (simp_all add: ax np_index_def)
    have "interpolateIonFraction c (Finite (10 powr (9 / 2))) (Finite 10) (Finite 10) = Inl IndexError"
      unfolding interpolateIonFraction_def Let_def np_log10_powr l10
      by (simp add: gx gy gz ix)
    then show ?thesis using c gx gy gz unfolding np_log10_powr l10 by blast
  qed
  have 2: "\<exists>c. loadIonData two_samples = Inr c \<and>
        getIndicesForTempValue c (np_log10 (Finite 10)) = Inr (0, 0) \<and>
        getIndicesForZetaValue c (np_log10 (Finite 10)) = Inr (0, 0) \<and>
        interpolateIonFraction c (Finite 10) (Finite 10) (Finite (- 100)) = Inl ValueError_nan"
  proof -
    obtain c where c: "loadIonData two_samples = Inr c" using two_samples_load by blast
    have ax: "temp_array c = [1, 2]" "zeta_array c = [1, 2]" "nn_array c = [1, 2]"
      using loadIonData_axes[OF c] by (simp_all add: two_samples_axes log10_numerals)
    have f: "start_temp c = 1" "end_temp c = 2" "start_zeta c = 1" "end_zeta c = 2"
      using loadIonData_fields[OF c] by (simp_all add: ax)
    have gx: "getIndicesForTempValue c (Finite 1) = Inr (0, 0)"
      by (simp add: getIndicesForTempValue_Finite f)
    have gy: "getIndicesForZetaValue c (Finite 1) = Inr (0, 0)"
      by (simp add: getIndicesForZetaValue_Finite f)
    have "interpolateIonFraction c (Finite 10) (Finite 10) (Finite (- 100)) = Inl ValueError_nan"
      unfolding interpolateIonFraction_def Let_def l10 neg
      by (simp add: gx gy getIndices_infinite)
    then show ?thesis using c gx gy unfolding l10 by blast
  qed
  show ?thesis using 1 2 by blast
qed

subsection \<open>Sampling a uniform grid at a point\<close>

lemma fmul_Num [simp]: "fmul (Num a) (Num b) = Num (a * b)"
  by (simp add: fmul_def)

lemma fadd_Num [simp]: "fadd (Num a) (Num b) = Num (a + b)"
  by (simp add: fadd_def)

lemma number_grid_nth:
  assumes "number_grid g" "i < length g" "j < snd (np_shape g)"
  shows "\<exists>v. g ! i ! j = Num v"
proof -
  have "g ! i \<in> set g" using assms(2) by simp
  with assms(1) have l: "length (g ! i) = snd (np_shape g)" and n: "NaN \<notin> set (g ! i)"
    by (auto simp: number_grid_def)
  have "g ! i ! j \<in> set (g ! i)" using l assms(3) by simp
  with n have "g ! i ! j \<noteq> NaN" by metis
  then show ?thesis by (cases "g ! i ! j") simp_all
qed

text \<open>The sampler at an index pair inside the array, in terms of the entries.\<close>

lemma map_coordinates_inside:
  assumes "np_shape g = (rows, cols)"
    and "0 \<le> r" "r \<le> real rows - 1" "0 \<le> c" "c \<le> real cols - 1"
  shows "map_coordinates_order1 g (Num r, Num c) =
           fadd (fadd (fmul (Num ((1 - (r - real (nat \<lfloor>r\<rfloor>))) * (1 - (c - real (nat \<lfloor>c\<rfloor>)))))
                         (g ! nat \<lfloor>r\<rfloor> ! nat \<lfloor>c\<rfloor>))
                      (fmul (Num ((1 - (r - real (nat \<lfloor>r\<rfloor>))) * (c - real (nat \<lfloor>c\<rfloor>))))
                         (g ! nat \<lfloor>r\<rfloor> ! (if nat \<lfloor>c\<rfloor> + 1 < cols then nat \<lfloor>c\<rfloor> + 1 else cols - 2))))
                (fadd (fmul (Num ((r - real (nat \<lfloor>r\<rfloor>)) * (1 - (c - real (nat \<lfloor>c\<rfloor>)))))
                         (g ! (if nat \<lfloor>r\<rfloor> + 1 < rows then nat \<lfloor>r\<rfloor> + 1 else rows - 2) ! nat \<lfloor>c\<rfloor>))
                      (fmul (Num ((r - real (nat \<lfloor>r\<rfloor>)) * (c - real (nat \<lfloor>c\<rfloor>))))
                         (g ! (if nat \<lfloor>r\<rfloor> + 1 < rows then nat \<lfloor>r\<rfloor> + 1 else rows - 2)
                            ! (if nat \<lfloor>c\<rfloor> + 1 < cols then nat \<lfloor>c\<rfloor> + 1 else cols - 2))))"
proof -
  have "\<not> (r < 0 \<or> real rows - 1 < r \<or> c < 0 \<or> real cols - 1 < c)"
    using assms(2-5) by auto
  then show ?thesis
    unfolding map_coordinates_order1_def assms(1) Let_def by simp
qed

lemma map_coordinates_at_node:
  assumes ng: "number_grid g" and i: "i < fst (np_shape g)" and j: "j < snd (np_shape g)"
  shows "map_coordinates_order1 g (Num (real i), Num (real j)) = g ! i ! j"
proof -
  obtain rows cols where sh: "np_shape g = (rows, cols)" by (cases "np_shape g")
  have rows: "rows = length g" using sh by (simp add: np_shape_def)
  have i': "i < rows" and j': "j < cols" using i j sh by simp_all
  define i1 where "i1 = (if i + 1 < rows then i + 1 else rows - 2)"
  define j1 where "j1 = (if j + 1 < cols then j + 1 else cols - 2)"
  have b: "i1 < length g" "j1 < snd (np_shape g)" "i < length g"
    using i' j' rows sh by (auto simp: i1_def j1_def)
  obtain a00 where a00: "g ! i ! j = Num a00" using number_grid_nth[OF ng b(3) j] by blast
  obtain a01 where a01: "g ! i ! j1 = Num a01" using number_grid_nth[OF ng b(3) b(2)] by blast
  obtain a10 where a10: "g ! i1 ! j = Num a10" using number_grid_nth[OF ng b(1) j] by blast
  obtain a11 where a11: "g ! i1 ! j1 = Num a11" using number_grid_nth[OF ng b(1) b(2)] by blast
  have inr: "0 \<le> real i" "real i \<le> real rows - 1" "0 \<le> real j" "real j \<le> real cols - 1"
    using i' j' by auto
  have "map_coordinates_order1 g (Num (real i), Num (real j)) =
        fadd (fadd (fmul (Num 1) (g ! i ! j)) (fmul (Num 0) (g ! i ! j1)))
             (fadd (fmul (Num 0) (g ! i1 ! j)) (fmul (Num 0) (g ! i1 ! j1)))"
    unfolding map_coordinates_inside[OF sh inr] i1_def j1_def by simp
  then show ?thesis by (simp add: a00 a01 a10 a11)
qed

lemma map_coordinates_outside:
  assumes "np_shape g = (rows, cols)"
    and "r < 0 \<or> real rows - 1 < r \<or> c < 0 \<or> real cols - 1 < c"
  shows "map_coordinates_order1 g (Num r, Num c) = Num 0"
  using assms by (simp add: map_coordinates_order1_def)

text \<open>For ranges of non-zero width both kinds of division give the same index pair.\<close>

lemma true_divide_width:
  "b \<noteq> 0 \<Longrightarrow> true_divide (scalar_apply g p) b = Inr (Num (g (float_value p) / b))"
  by (cases p) (simp_all add: np_divide_def)

lemma interpolatePoint2D_width:
  assumes "xa \<noteq> xb" "ya \<noteq> yb"
  shows "interpolatePoint2D (xa, xb, xn) (ya, yb, yn) dat (px, py) =
           Inr (map_coordinates_order1 dat
                  (Num ((float_value py - ya) * real_of_int yn / (yb - ya)),
                   Num ((float_value px - xa) * real_of_int xn / (xb - xa))))"
  using assms by (simp add: interpolatePoint2D_def true_divide_width)

lemma singlePointInterpolation_pair:
  "singlePointInterpolation t p vx1 vx2 x_range y_range =
     bindE (interpolatePoint2D x_range y_range vx1 p) (\<lambda>u.
     bindE (interpolatePoint2D x_range y_range vx2 p) (\<lambda>v. Inr (u, v)))"
proof -
  obtain xa xb xn where x: "x_range = (xa, xb, xn)" by (cases x_range)
  obtain ya yb yn where y: "y_range = (ya, yb, yn)" by (cases y_range)
  show ?thesis
    unfolding x y singlePointInterpolation_def interpolatePoint2D_def
    by (cases "true_divide (scalar_apply (\<lambda>v. (v - ya) * real_of_int yn) (snd p)) (yb - ya)";
        cases "true_divide (scalar_apply (\<lambda>v. (v - xa) * real_of_int xn) (fst p)) (xb - xa)")
       (simp_all add: Let_def)
qed

text \<open>
  Claim C5.  For ranges of non-zero width, \<^verbatim>\<open>interpolatePoint2D\<close> samples at the fractional
  index whose first (row) component is \<open>r = (y - y0) * ySamples / (y1 - y0)\<close> and whose
  second (column) component is \<open>c = (x - x0) * xSamples / (x1 - x0)\<close>.  When that index
  lies inside the grid, with \<open>i\<close> and \<open>j\<close> the whole parts of \<open>r\<close> and \<open>c\<close> and \<open>i'\<close>, \<open>j'\<close> the
  next row and column (reflected at the last one), the result is the order-1
  interpolation: the sum of the four entries \<open>dat[i][j]\<close>, \<open>dat[i][j']\<close>, \<open>dat[i'][j]\<close>,
  \<open>dat[i'][j']\<close>, each weighted by the product of its distances.  On four numbers that is
  the bilinear value; at a pair of whole numbers inside a grid of numbers it is the
  entry in row \<open>r\<close> and column \<open>c\<close>.  When the index lies outside the grid the result is
  the fill value 0.  \<^verbatim>\<open>singlePointInterpolation\<close> returns that sample of its two fields.
\<close>

theorem pointSample_index_order:
  assumes width: "xa \<noteq> xb" "ya \<noteq> yb"
    and r: "r = (float_value py - ya) * real_of_int yn / (yb - ya)"
    and c: "c = (float_value px - xa) * real_of_int xn / (xb - xa)"
    and shape: "np_shape dat = (rows, cols)"
    and cell: "i = nat \<lfloor>r\<rfloor>" "j = nat \<lfloor>c\<rfloor>"
    and nxt: "i' = (if i + 1 < rows then i + 1 else rows - 2)"
             "j' = (if j + 1 < cols then j + 1 else cols - 2)"
  shows "(0 \<le> r \<and> r \<le> real rows - 1 \<and> 0 \<le> c \<and> c \<le> real cols - 1 \<longrightarrow>
            interpolatePoint2D (xa, xb, xn) (ya, yb, yn) dat (px, py) =
              Inr (fadd (fadd (fmul (Num ((1 - (r - real i)) * (1 - (c - real j)))) (dat ! i ! j))
                              (fmul (Num ((1 - (r - real i)) * (c - real j))) (dat ! i ! j')))
                        (fadd (fmul (Num ((r - real i) * (1 - (c - real j)))) (dat ! i' ! j))
                              (fmul (Num ((r - real i) * (c - real j))) (dat ! i' ! j')))) \<and>
            (dat ! i ! j = Num a00 \<and> dat ! i ! j' = Num a01 \<and>
             dat ! i' ! j = Num a10 \<and> dat ! i' ! j' = Num a11 \<longrightarrow>
               interpolatePoint2D (xa, xb, xn) (ya, yb, yn) dat (px, py) =
                 Inr (Num ((1 - (r - real i)) * (1 - (c - real j)) * a00 +
                           (1 - (r - real i)) * (c - real j) * a01 +
                           ((r - real i) * (1 - (c - real j)) * a10 +
                            (r - real i) * (c - real j) * a11)))) \<and>
            (number_grid dat \<and> r = real i \<and> c = real j \<longrightarrow>
               interpolatePoint2D (xa, xb, xn) (ya, yb, yn) dat (px, py) = Inr (dat ! i ! j))) \<and>
         (r < 0 \<or> real rows - 1 < r \<or> c < 0 \<or> real cols - 1 < c \<longrightarrow>
            interpolatePoint2D (xa, xb, xn) (ya, yb, yn) dat (px, py) = Inr (Num 0)) \<and>
         singlePointInterpolation t (px, py) vx1 vx2 (xa, xb, xn) (ya, yb, yn) =
           bindE (interpolatePoint2D (xa, xb, xn) (ya, yb, yn) vx1 (px, py)) (\<lambda>u.
           bindE (interpolatePoint2D (xa, xb, xn) (ya, yb, yn) vx2 (px, py)) (\<lambda>v. Inr (u, v)))"
proof -
  have ip: "interpolatePoint2D (xa, xb, xn) (ya, yb, yn) dat (px, py) =
              Inr (map_coordinates_order1 dat (Num r, Num c))"
    unfolding r c by (rule interpolatePoint2D_width[OF width])
  have 1: "interpolatePoint2D (xa, xb, xn) (ya, yb, yn) dat (px, py) =
           Inr (fadd (fadd (fmul (Num ((1 - (r - real i)) * (1 - (c - real j)))) (dat ! i ! j))
                           (fmul (Num ((1 - (r - real i)) * (c - real j))) (dat ! i ! j')))
                     (fadd (fmul (Num ((r - real i) * (1 - (c - real j)))) (dat ! i' ! j))
                           (fmul (Num ((r - real i) * (c - real j))) (dat ! i' ! j'))))"
    if inside: "0 \<le> r" "r \<le> real rows - 1" "0 \<le> c" "c \<le> real cols - 1"
    unfolding ip map_coordinates_inside[OF shape inside] nxt cell ..
  have 2: "interpolatePoint2D (xa, xb, xn) (ya, yb, yn) dat (px, py) =
              Inr (Num ((1 - (r - real i)) * (1 - (c - real j)) * a00 +
                        (1 - (r - real i)) * (c - real j) * a01 +
                        ((r - real i) * (1 - (c - real j)) * a10 +
                         (r - real i) * (c - real j) * a11)))"
    if inside: "0 \<le> r" "r \<le> real rows - 1" "0 \<le> c" "c \<le> real cols - 1"
      and "dat ! i ! j = Num a00 \<and> dat ! i ! j' = Num a01 \<and>
        dat ! i' ! j = Num a10 \<and> dat ! i' ! j' = Num a11"
    unfolding 1[OF inside] using that(5) by simp
  have 3: "interpolatePoint2D (xa, xb, xn) (ya, yb, yn) dat (px, py) = Inr (dat ! i ! j)"
    if inside: "0 \<le> r" "r \<le> real rows - 1" "0 \<le> c" "c \<le> real cols - 1"
      and h: "number_grid dat \<and> r = real i \<and> c = real j"
  proof -
    have "i < fst (np_shape dat)" "j < snd (np_shape dat)"
      using inside h shape by simp_all
    from map_coordinates_at_node[OF _ this] h show ?thesis unfolding ip by simp
  qed
  have 4: "interpolatePoint2D (xa, xb, xn) (ya, yb, yn) dat (px, py) = Inr (Num 0)"
    if "r < 0 \<or> real rows - 1 < r \<or> c < 0 \<or> real cols - 1 < c"
    unfolding ip using map_coordinates_outside[OF shape that] by simp
  show ?thesis using 1 2 3 4 singlePointInterpolation_pair by blast
qed

lemma example_grid_shape: "np_shape example_grid = (2, 3)"
  by (simp add: np_shape_def example_grid_def)

lemma example_grid_number: "number_grid example_grid"
  by (simp add: number_grid_def example_grid_shape) (simp add: example_grid_def)

text \<open>A grid of two rows and three columns, \<open>[[1, 2, 3], [4, 5, 6]]\<close>: the point
  \<open>(x, y) = (3/2, 1/2)\<close> has the index pair \<open>(1/2, 3/2)\<close>, in the middle of the entries
  2, 3, 5 and 6, and gives their mean 4.\<close>

theorem pointSample_index_order_witness:
  "(0::real) \<noteq> 3 \<and> (0::real) \<noteq> 2 \<and>
   (1 / 2 :: real) = (float_value (PyFloat (1 / 2)) - 0) * real_of_int 2 / (2 - 0) \<and>
   (3 / 2 :: real) = (float_value (PyFloat (3 / 2)) - 0) * real_of_int 3 / (3 - 0) \<and>
   np_shape example_grid = (2, 3) \<and>
   example_grid ! 0 ! 1 = Num 2 \<and> example_grid ! 0 ! 2 = Num 3 \<and>
   example_grid ! 1 ! 1 = Num 5 \<and> example_grid ! 1 ! 2 = Num 6 \<and>
   interpolatePoint2D (0, 3, 3) (0, 2, 2) example_grid (PyFloat (3 / 2), PyFloat (1 / 2)) = Inr (Num 4)"
proof -
  have h: "(0::real) \<noteq> 3" "(0::real) \<noteq> 2"
    "(1 / 2 :: real) = (float_value (PyFloat (1 / 2)) - 0) * real_of_int 2 / (2 - 0)"
    "(3 / 2 :: real) = (float_value (PyFloat (3 / 2)) - 0) * real_of_int 3 / (3 - 0)"
    by simp_all
  have ins: "(0::real) \<le> 1 / 2" "(1 / 2 :: real) \<le> real (2::nat) - 1"
    "(0::real) \<le> 3 / 2" "(3 / 2 :: real) \<le> real (3::nat) - 1"
    by simp_all
  have cell: "(0::nat) = nat \<lfloor>1 / 2 :: real\<rfloor>" "(1::nat) = nat \<lfloor>3 / 2 :: real\<rfloor>"
    by simp_all
  have nxt: "(1::nat) = (if (0::nat) + 1 < 2 then 0 + 1 else 2 - 2)"
    "(2::nat) = (if (1::nat) + 1 < 3 then 1 + 1 else 3 - 2)"
    by simp_all
  have e: "example_grid ! 0 ! 1 = Num 2" "example_grid ! 0 ! 2 = Num 3"
    "example_grid ! 1 ! 1 = Num 5" "example_grid ! 1 ! 2 = Num 6"
    by (simp_all add: example_grid_def)
  from pointSample_index_order[OF h example_grid_shape cell nxt, of 2 3 5 6] e ins
  have "interpolatePoint2D (0, 3, 3) (0, 2, 2) example_grid (PyFloat (3 / 2), PyFloat (1 / 2)) =
          Inr (Num ((1 - (1 / 2 - real (0::nat))) * (1 - (3 / 2 - real (1::nat))) * 2 +
                    (1 - (1 / 2 - real (0::nat))) * (3 / 2 - real (1::nat)) * 3 +
                    ((1 / 2 - real (0::nat)) * (1 - (3 / 2 - real (1::nat))) * 5 +
                     (1 / 2 - real (0::nat)) * (3 / 2 - real (1::nat)) * 6)))"
    by blast
  then have "interpolatePoint2D (0, 3, 3) (0, 2, 2) example_grid (PyFloat (3 / 2), PyFloat (1 / 2))
               = Inr (Num 4)"
    by simp
  then show ?thesis using h e example_grid_shape by blast
qed

text \<open>
  Claim C6, as amended.  For ranges of non-zero width and a point whose fractional
  index lies outside the rows \<open>0 \<dots> rows - 1\<close> or the columns \<open>0 \<dots> cols - 1\<close> of the
  grid, \<^verbatim>\<open>interpolatePoint2D\<close> returns the fill value 0 of the sampler's default mode; no
  value is extrapolated.
\<close>

theorem pointSample_outside_fill:
  assumes "xa \<noteq> xb" "ya \<noteq> yb" and "np_shape dat = (rows, cols)"
    and "(float_value py - ya) * real_of_int yn / (yb - ya) < 0 \<or>
         real rows - 1 < (float_value py - ya) * real_of_int yn / (yb - ya) \<or>
         (float_value px - xa) * real_of_int xn / (xb - xa) < 0 \<or>
         real cols - 1 < (float_value px - xa) * real_of_int xn / (xb - xa)"
  shows "interpolatePoint2D (xa, xb, xn) (ya, yb, yn) dat (px, py) = Inr (Num 0)"
  unfolding interpolatePoint2D_width[OF assms(1,2)]
  using map_coordinates_outside[OF assms(3,4)] by simp

text \<open>The point \<open>(10, 1)\<close> lies beyond the last column of the example grid.\<close>

theorem pointSample_outside_fill_witness:
  "(0::real) \<noteq> 3 \<and> (0::real) \<noteq> 2 \<and> np_shape example_grid = (2, 3) \<and>
   real (3::nat) - 1 < (float_value (PyFloat 10) - 0) * real_of_int 3 / (3 - 0) \<and>
   interpolatePoint2D (0, 3, 3) (0, 2, 2) example_grid (PyFloat 10, PyFloat 1) = Inr (Num 0)"
  using pointSample_outside_fill[of 0 3 0 2 example_grid 2 3 "PyFloat 1" 2 "PyFloat 10" 3]
  by (simp add: example_grid_shape)

text \<open>
  The claim C6 as stated fails there: clamping the index \<open>(1, 10)\<close> to the grid gives the
  edge sample 6, the program returns 0, which is no sample of the grid at all.
\<close>

theorem pointSample_clamp_counterexample:
  "interpolatePoint2D (0, 3, 3) (0, 2, 2) example_grid (PyFloat 10, PyFloat 1) = Inr (Num 0) \<and>
   nearest_edge_sample example_grid (1, 10) = Num 6 \<and>
   Num 0 \<notin> set (concat example_grid)"
proof -
  have "interpolatePoint2D (0, 3, 3) (0, 2, 2) example_grid (PyFloat 10, PyFloat 1) = Inr (Num 0)"
    by (simp add: interpolatePoint2D_def map_coordinates_outside[OF example_grid_shape])
  moreover have "nearest_edge_sample example_grid (1, 10) = Num 6"
  proof -
    have "nearest_edge_sample example_grid (1, 10) =
          map_coordinates_order1 example_grid (Num (real (1::nat)), Num (real (2::nat)))"
      by (simp add: nearest_edge_sample_def example_grid_shape clamp_index_def)
    also have "\<dots> = example_grid ! 1 ! 2"
      by (rule map_coordinates_at_node[OF example_grid_number]) (simp_all add: example_grid_shape)
    finally show ?thesis by (simp add: example_grid_def)
  qed
  moreover have "Num 0 \<notin> set (concat example_grid)"
    by (simp add: example_grid_def)
  ultimately show ?thesis by blast
qed

subsection \<open>Resampling onto a uniform grid\<close>

lemma linspace_length: "linspace (a, b, n) = Inr xs \<Longrightarrow> length xs = nat n"
  by (auto simp: linspace_def split: if_splits)

lemma meshgrid_shape:
  "meshgrid xs ys = (gx, gy) \<Longrightarrow>
     length gx = length ys \<and> length gy = length ys \<and>
     (\<forall>i<length ys. length (gx ! i) = length xs \<and> length (gy ! i) = length xs)"
  by (auto simp: meshgrid_def)

text \<open>\<^verbatim>\<open>Interpolate.interpolateToUniformGrid\<close> of \<^verbatim>\<open>Tools.py\<close> masks: whatever the field and
  whatever the interpolant, every cell of the result within distance 1 of the origin
  holds not-a-number.\<close>

lemma Interpolate_mask:
  assumes r: "Interpolate_interpolateToUniformGrid griddata d variable x_range y_range
             = Inr (grid_x, grid_y, newVariable)"
    and i: "i < length grid_x" and j: "j < length (grid_x ! i)"
    and inner: "sqrt ((grid_x ! i ! j)\<^sup>2 + (grid_y ! i ! j)\<^sup>2) < 1"
  shows "length newVariable = length grid_x \<and> length (newVariable ! i) = length (grid_x ! i) \<and>
         newVariable ! i ! j = NaN"
proof -
  obtain x y where p: "polarCoordsToCartesian d = (x, y)"
    by (cases "polarCoordsToCartesian d")
  from r obtain xs ys where xs: "linspace x_range = Inr xs" and ys: "linspace y_range = Inr ys"
    unfolding Interpolate_interpolateToUniformGrid_def Let_def p
    by (auto simp: bindE_eq_Inr)
  obtain gx gy where m0: "meshgrid xs ys = (gx, gy)" by (cases "meshgrid xs ys")
  from r obtain f where
    m: "meshgrid xs ys = (grid_x, grid_y)" and
    nv: "newVariable = map2 (map2 (\<lambda>v r. if r < 1 then NaN else v))
            (map2 (map2 (\<lambda>gx gy. f (gx, gy))) grid_x grid_y)
            (map2 (map2 (\<lambda>gx gy. sqrt (gx\<^sup>2 + gy\<^sup>2))) grid_x grid_y)"
    unfolding Interpolate_interpolateToUniformGrid_def Let_def p
    by (auto simp: bindE_eq_Inr xs ys m0)
  from meshgrid_shape[OF m] i have
    l: "length grid_x = length ys" "length grid_y = length ys"
       "length (grid_x ! i) = length xs" "length (grid_y ! i) = length xs"
    by auto
  show ?thesis using i j l inner unfolding nv by simp
qed

text \<open>\<^verbatim>\<open>Tools.interpolateToUniformGrid\<close> of \<^verbatim>\<open>simulationData.py\<close> does not: every cell holds
  what the interpolant gives there.\<close>

lemma Tools_no_mask:
  assumes r: "Tools_interpolateToUniformGrid griddata d variable x_range y_range
             = Inr (grid_x, grid_y, newVariable)"
    and i: "i < length grid_x" and j: "j < length (grid_x ! i)"
  shows "\<exists>f. griddata (zip (concat (fst (polarCoordsToCartesian d)))
                         (concat (snd (polarCoordsToCartesian d)))) (concat variable) = Inr f \<and>
             newVariable ! i ! j = f (grid_x ! i ! j, grid_y ! i ! j)"
proof -
  obtain x y where p: "polarCoordsToCartesian d = (x, y)"
    by (cases "polarCoordsToCartesian d")
  from r obtain xs ys where xs: "linspace x_range = Inr xs" and ys: "linspace y_range = Inr ys"
    unfolding Tools_interpolateToUniformGrid_def Let_def p
    by (auto simp: bindE_eq_Inr)
  obtain gx gy where m0: "meshgrid xs ys = (gx, gy)" by (cases "meshgrid xs ys")
  from r obtain f where
    m: "meshgrid xs ys = (grid_x, grid_y)" and
    g: "griddata (zip (concat x) (concat y)) (concat variable) = Inr f" and
    nv: "newVariable = map2 (map2 (\<lambda>gx gy. f (gx, gy))) grid_x grid_y"
    unfolding Tools_interpolateToUniformGrid_def Let_def p
    by (auto simp: bindE_eq_Inr xs ys m0)
  from meshgrid_shape[OF m] i have
    l: "length grid_x = length ys" "length grid_y = length ys"
       "length (grid_x ! i) = length xs" "length (grid_y ! i) = length xs"
    by auto
  have "newVariable ! i ! j = f (grid_x ! i ! j, grid_y ! i ! j)"
    using i j l unfolding nv by simp
  with g show ?thesis by (simp add: p)
qed

text \<open>
  Claim C1 asks that every cell of a resampled grid with \<open>sqrt (X\<^sup>2 + Y\<^sup>2) < 1\<close> holds
  not-a-number.  The version of \<^verbatim>\<open>simulationData.py\<close> breaks it: on a mesh with radii
  \<open>1/2\<close> and \<open>2\<close>, a field that is 1 everywhere and the target ranges \<open>[1/2, 3/2, 2]\<close> and
  \<open>[0, 1, 2]\<close>, the cell at \<open>(1/2, 0)\<close> lies inside the hull of the mesh points and inside
  the unit circle and keeps the interpolated value 1.  The version of \<^verbatim>\<open>Tools.py\<close> puts
  not-a-number there.
\<close>

theorem uniform_grid_inner_cell_unmasked:
  "Tools_interpolateToUniformGrid constant_one example_mesh [[1, 1], [1, 1]] (1 / 2, 3 / 2, 2) (0, 1, 2)
     = Inr ([[1 / 2, 3 / 2], [1 / 2, 3 / 2]], [[0, 0], [1, 1]], [[Num 1, Num 1], [Num 1, Num 1]]) \<and>
   sqrt ((1 / 2)\<^sup>2 + 0\<^sup>2) < (1::real) \<and>
   Interpolate_interpolateToUniformGrid constant_one example_mesh [[1, 1], [1, 1]] (1 / 2, 3 / 2, 2) (0, 1, 2)
     = Inr ([[1 / 2, 3 / 2], [1 / 2, 3 / 2]], [[0, 0], [1, 1]], [[NaN, Num 1], [Num 1, Num 1]])"
proof -
  have u: "[0..<2] = [0, 1]" by (simp add: numeral_2_eq_2)
  have lx: "linspace (1 / 2, 3 / 2, 2) = Inr [1 / 2, 3 / 2]"
    by (simp add: linspace_def u)
  have ly: "linspace (0, 1, 2) = Inr [0, 1]"
    by (simp add: linspace_def u)
  have mg: "meshgrid [1 / 2, 3 / 2] [0, 1] = ([[1 / 2, 3 / 2], [1 / 2, 3 / 2]], [[0, 0], [1, 1]])"
    by (simp add: meshgrid_def)
  have 1: "Tools_interpolateToUniformGrid constant_one example_mesh [[1, 1], [1, 1]] (1 / 2, 3 / 2, 2) (0, 1, 2)
     = Inr ([[1 / 2, 3 / 2], [1 / 2, 3 / 2]], [[0, 0], [1, 1]], [[Num 1, Num 1], [Num 1, Num 1]])"
    unfolding Tools_interpolateToUniformGrid_def Let_def
    by (simp add: lx ly mg constant_one_def split: prod.splits)
  have 2: "sqrt ((1 / 2)\<^sup>2 + 0\<^sup>2) < (1::real)"
    by (simp add: power2_eq_square)
  have 3: "Interpolate_interpolateToUniformGrid constant_one example_mesh [[1, 1], [1, 1]] (1 / 2, 3 / 2, 2) (0, 1, 2)
     = Inr ([[1 / 2, 3 / 2], [1 / 2, 3 / 2]], [[0, 0], [1, 1]], [[NaN, Num 1], [Num 1, Num 1]])"
    unfolding Interpolate_interpolateToUniformGrid_def Let_def
    by (simp add: lx ly mg constant_one_def power2_eq_square split: prod.splits)
  show ?thesis using 1 2 3 by blast
qed

subsection \<open>Resampling the radial axis\<close>

lemma searchsorted_below:
  "j < np_searchsorted xs v \<Longrightarrow> xs ! j < v"
proof -
  assume j: "j < np_searchsorted xs v"
  then have "takeWhile (\<lambda>a. a < v) xs ! j \<in> set (takeWhile (\<lambda>a. a < v) xs)"
    by (simp add: np_searchsorted_def)
  then have "takeWhile (\<lambda>a. a < v) xs ! j < v" by (auto dest: set_takeWhileD)
  then show ?thesis using j by (simp add: np_searchsorted_def takeWhile_nth)
qed

lemma searchsorted_at:
  "np_searchsorted xs v < length xs \<Longrightarrow> v \<le> xs ! np_searchsorted xs v"
  using nth_length_takeWhile[of "\<lambda>a. a < v" xs] by (simp add: np_searchsorted_def)

lemma searchsorted_le: "np_searchsorted xs v \<le> length xs"
  by (simp add: np_searchsorted_def length_takeWhile_le)

text \<open>On strictly ascending nodes and inside their range, the value of the interpolant
  lies on the chord between two neighbouring nodes that enclose the abscissa.\<close>

lemma call_linear_chord:
  assumes len: "2 \<le> length x" and srt: "sorted_wrt (<) x"
    and lo: "x ! 0 \<le> v" and hi: "v \<le> last x"
  shows "on_chord x y v (call_linear x y v)"
proof -
  define k where "k = np_searchsorted x v"
  define h where "h = max 1 (min k (length x - 1))"
  have ne: "x \<noteq> []" using len by auto
  have last: "last x = x ! (length x - 1)" using ne by (simp add: last_conv_nth)
  have kn: "k \<noteq> length x"
  proof
    assume "k = length x"
    then have "length x - 1 < np_searchsorted x v" using len by (simp add: k_def)
    from searchsorted_below[OF this] hi last show False by simp
  qed
  then have kl: "k < length x" using searchsorted_le[of x v] by (simp add: k_def)
  have h1: "1 \<le> h" "h < length x" using len kl by (simp_all add: h_def)
  have at: "v \<le> x ! k" using searchsorted_at[of x v] kl by (simp add: k_def)
  have up: "v \<le> x ! h"
  proof (cases "k = 0")
    case True
    then have h: "h = 1" by (simp add: h_def)
    have "x ! 0 < x ! 1" using srt len by (simp add: sorted_wrt_iff_nth_less)
    then show ?thesis using at True h by simp
  next
    case False
    then have "h = k" using kl by (simp add: h_def)
    then show ?thesis using at by simp
  qed
  have down: "x ! (h - 1) \<le> v"
  proof (cases "k = 0")
    case True
    then have "h = 1" by (simp add: h_def)
    then show ?thesis using lo by simp
  next
    case False
    then have "h = k" using kl by (simp add: h_def)
    then have "h - 1 < np_searchsorted x v" using False by (simp add: k_def)
    from searchsorted_below[OF this] show ?thesis by simp
  qed
  have S: "Suc (h - 1) = h" using h1 by simp
  have val: "call_linear x y v =
      y ! (h - 1) + (v - x ! (h - 1)) * (y ! h - y ! (h - 1)) / (x ! h - x ! (h - 1))"
    unfolding call_linear_def Let_def h_def k_def by simp
  show ?thesis
    unfolding on_chord_def
    by (rule exI[of _ "h - 1"]) (simp only: S h1 down up val simp_thms)
qed

lemma interp1d_sorted:
  assumes "2 \<le> length x" "sorted_wrt (<) x" "length y = length x"
  shows "interp1d x y = Inr (zip x y)"
proof -
  have "sorted (map fst (zip x y))" using assms by (simp add: strict_sorted_imp_sorted)
  then have "sort_key fst (zip x y) = zip x y" by (rule sort_key_id_if_sorted)
  then show ?thesis using assms by (simp add: interp1d_def)
qed

lemma interp1d_call_zip:
  assumes "2 \<le> length x" "length y = length x"
  shows "interp1d_call (zip x y) ticks =
           (if ticks_inside x ticks then Inr (map (call_linear x y) ticks) else Inl ValueError_bounds)"
proof -
  have ne: "x \<noteq> []" using assms by auto
  have "list_ex (\<lambda>v. v < hd x \<or> last x < v) ticks \<longleftrightarrow> \<not> ticks_inside x ticks"
    using ne unfolding list_ex_iff ticks_inside_def hd_conv_nth[OF ne]
    by (meson not_le)
  then show ?thesis using assms by (simp add: interp1d_call_def)
qed

lemma interpolate_rows_inside:
  assumes "2 \<le> length x1" "sorted_wrt (<) x1" "\<forall>row\<in>set val. length row = length x1"
    and "ticks_inside x1 ticks"
  shows "interpolate_rows x1 ticks val = Inr (map (\<lambda>row. map (call_linear x1 row) ticks) val)"
  using assms
  by (induction val) (simp_all add: interp1d_sorted interp1d_call_zip)

lemma interpolate_rows_outside:
  assumes "2 \<le> length x1" "sorted_wrt (<) x1" "\<forall>row\<in>set val. length row = length x1"
    and "\<not> ticks_inside x1 ticks" "val \<noteq> []"
  shows "interpolate_rows x1 ticks val = Inl ValueError_bounds"
  using assms
  by (cases val) (simp_all add: interp1d_sorted interp1d_call_zip)

lemma radial_loop_inside:
  assumes "2 \<le> length x1" "sorted_wrt (<) x1"
    and "\<forall>(key, val)\<in>set vars. \<forall>row\<in>set val. length row = length x1"
    and "ticks_inside x1 ticks"
  shows "radial_loop x1 ticks vars =
           (map (\<lambda>(key, val). (key, map (\<lambda>row. map (call_linear x1 row) ticks) val)) vars, None)"
  using assms
  by (induction vars) (auto simp: interpolate_rows_inside)

lemma radial_loop_keys: "map fst (fst (radial_loop x1 ticks vars)) = map fst vars"
  by (induction vars) (auto split: sum.splits prod.splits)

lemma interpolateRadialGrid_inside:
  assumes "mesh_fields_ok d" "ticks_inside (data_x1 d) newTicks"
  shows "interpolateRadialGrid d newTicks =
           (d\<lparr>data_variables :=
                 map (\<lambda>(key, val). (key, map (\<lambda>row. map (call_linear (data_x1 d) row) newTicks) val))
                   (data_variables d),
               data_x1 := newTicks\<rparr>, None)"
proof -
  have "radial_loop (data_x1 d) newTicks (data_variables d) =
          (map (\<lambda>(key, val). (key, map (\<lambda>row. map (call_linear (data_x1 d) row) newTicks) val))
             (data_variables d), None)"
    using assms by (intro radial_loop_inside) (auto simp: mesh_fields_ok_def)
  then show ?thesis by (simp add: interpolateRadialGrid_def)
qed

lemma interpolateRadialGrid_outside:
  assumes ok: "mesh_fields_ok d" and out: "\<not> ticks_inside (data_x1 d) newTicks"
  shows "interpolateRadialGrid d newTicks = (d, Some ValueError_bounds)"
proof -
  from ok obtain key val rest where v: "data_variables d = (key, val) # rest"
    by (cases "data_variables d") (auto simp: mesh_fields_ok_def)
  have "val \<noteq> []" "\<forall>row\<in>set val. length row = length (data_x1 d)"
    using ok v by (auto simp: mesh_fields_ok_def)
  then have "interpolate_rows (data_x1 d) newTicks val = Inl ValueError_bounds"
    using ok out by (intro interpolate_rows_outside) (auto simp: mesh_fields_ok_def)
  then have "radial_loop (data_x1 d) newTicks (data_variables d) = (data_variables d, Some ValueError_bounds)"
    by (simp add: v)
  then show ?thesis by (simp add: interpolateRadialGrid_def)
qed

text \<open>
  Claim C8.  On a mesh with at least two strictly ascending radial coordinates and at
  least one field, every field of the mesh's shape: when some new tick lies outside
  \<open>[x1[0], x1[-1]]\<close>, \<^verbatim>\<open>interpolateRadialGrid\<close> raises the out-of-range error of the
  interpolant, and the object is as before; when all ticks lie inside, the call returns
  normally, every field is replaced, under its key, by its rows interpolated linearly
  onto the new ticks (as many rows as before, each as long as the ticks, every entry on a
  chord of the old row), and \<open>x1\<close> is replaced by the new ticks.
\<close>

theorem resampleRadialAxis_domain_and_rows:
  assumes "mesh_fields_ok d"
  shows "(\<not> ticks_inside (data_x1 d) newTicks \<longrightarrow>
            interpolateRadialGrid d newTicks = (d, Some ValueError_bounds)) \<and>
         (ticks_inside (data_x1 d) newTicks \<longrightarrow>
            (\<exists>vars'. interpolateRadialGrid d newTicks =
                        (d\<lparr>data_variables := vars', data_x1 := newTicks\<rparr>, None) \<and>
               vars' = map (\<lambda>(key, val).
                         (key, map (\<lambda>row. map (call_linear (data_x1 d) row) newTicks) val))
                       (data_variables d) \<and>
               map fst vars' = map fst (data_variables d) \<and>
               (\<forall>(key, val')\<in>set vars'.
                  length val' = length (data_x2 d) \<and>
                  (\<forall>row'\<in>set val'. length row' = length newTicks)) \<and>
               (\<forall>(key, val)\<in>set (data_variables d). \<forall>row\<in>set val. \<forall>v\<in>set newTicks.
                  on_chord (data_x1 d) row v (call_linear (data_x1 d) row v))))"
proof -
  have 1: "interpolateRadialGrid d newTicks = (d, Some ValueError_bounds)"
    if "\<not> ticks_inside (data_x1 d) newTicks"
    using interpolateRadialGrid_outside[OF assms that] .
  have 2: "\<exists>vars'. interpolateRadialGrid d newTicks =
                        (d\<lparr>data_variables := vars', data_x1 := newTicks\<rparr>, None) \<and>
               vars' = map (\<lambda>(key, val).
                         (key, map (\<lambda>row. map (call_linear (data_x1 d) row) newTicks) val))
                       (data_variables d) \<and>
               map fst vars' = map fst (data_variables d) \<and>
               (\<forall>(key, val')\<in>set vars'.
                  length val' = length (data_x2 d) \<and>
                  (\<forall>row'\<in>set val'. length row' = length newTicks)) \<and>
               (\<forall>(key, val)\<in>set (data_variables d). \<forall>row\<in>set val. \<forall>v\<in>set newTicks.
                  on_chord (data_x1 d) row v (call_linear (data_x1 d) row v))"
    if ins: "ticks_inside (data_x1 d) newTicks"
  proof -
    define vars' where "vars' = map (\<lambda>(key, val).
                         (key, map (\<lambda>row. map (call_linear (data_x1 d) row) newTicks) val))
                       (data_variables d)"
    have a: "interpolateRadialGrid d newTicks =
                        (d\<lparr>data_variables := vars', data_x1 := newTicks\<rparr>, None)"
      unfolding vars'_def using interpolateRadialGrid_inside[OF assms ins] .
    have b: "map fst vars' = map fst (data_variables d)"
      by (auto simp: vars'_def)
    have c: "\<forall>(key, val')\<in>set vars'.
                  length val' = length (data_x2 d) \<and>
                  (\<forall>row'\<in>set val'. length row' = length newTicks)"
      using assms by (auto simp: vars'_def mesh_fields_ok_def)
    have e: "\<forall>(key, val)\<in>set (data_variables d). \<forall>row\<in>set val. \<forall>v\<in>set newTicks.
                  on_chord (data_x1 d) row v (call_linear (data_x1 d) row v)"
      using assms ins
      by (auto simp: mesh_fields_ok_def ticks_inside_def intro!: call_linear_chord)
    show ?thesis using a b c e vars'_def by blast
  qed
  show ?thesis using 1 2 by blast
qed

lemma radial_mesh_ok: "mesh_fields_ok radial_mesh"
  by (simp add: mesh_fields_ok_def radial_mesh_def)

lemma radial_mesh_values:
  "call_linear [1, 2, 3] [10, 20, 30] 1 = 10"
  "call_linear [1, 2, 3] [10, 20, 30] (5 / 2) = 25"
  by (simp_all add: call_linear_def np_searchsorted_def)

text \<open>A mesh with radii 1, 2, 3 and one row 10, 20, 30: the ticks 1 and 5/2 give 10 and
  25; the ticks 0 and 2 raise.\<close>

theorem resampleRadialAxis_witness:
  "mesh_fields_ok radial_mesh \<and>
   ticks_inside (data_x1 radial_mesh) [1, 5 / 2] \<and>
   interpolateRadialGrid radial_mesh [1, 5 / 2] =
     (radial_mesh\<lparr>data_variables := [(''rho'', [[10, 25]])], data_x1 := [1, 5 / 2]\<rparr>, None) \<and>
   \<not> ticks_inside (data_x1 radial_mesh) [0, 2] \<and>
   interpolateRadialGrid radial_mesh [0, 2] = (radial_mesh, Some ValueError_bounds)"
proof -
  have i: "ticks_inside (data_x1 radial_mesh) [1, 5 / 2]"
    by (simp add: ticks_inside_def radial_mesh_def)
  have o: "\<not> ticks_inside (data_x1 radial_mesh) [0, 2]"
    by (simp add: ticks_inside_def radial_mesh_def)
  note t = resampleRadialAxis_domain_and_rows[OF radial_mesh_ok]
  have "interpolateRadialGrid radial_mesh [0, 2] = (radial_mesh, Some ValueError_bounds)"
    using t[of "[0, 2]"] o by blast
  moreover have "interpolateRadialGrid radial_mesh [1, 5 / 2] =
     (radial_mesh\<lparr>data_variables := [(''rho'', [[10, 25]])], data_x1 := [1, 5 / 2]\<rparr>, None)"
    using t[of "[1, 5 / 2]"] i by (auto simp: radial_mesh_def radial_mesh_values)
  ultimately show ?thesis using i o radial_mesh_ok by blast
qed

text \<open>
  Claim C10.  Whether it returns or raises, \<^verbatim>\<open>interpolateRadialGrid\<close> changes nothing of
  the object but the values in the dictionary of fields (the keys stay) and, on normal
  return only, \<open>x1\<close>; \<open>x2\<close>, \<open>dx1\<close> and \<open>dx2\<close> are as before.  Hence after a normal return
  with new ticks of another number than the old \<open>x1\<close>, a mesh that had
  \<open>len(dx1) = len(x1)\<close> no longer has it.
\<close>

theorem interpolateRadialGrid_frame:
  "\<exists>vars' ticks'.
     fst (interpolateRadialGrid d newTicks) = d\<lparr>data_variables := vars', data_x1 := ticks'\<rparr> \<and>
     map fst vars' = map fst (data_variables d) \<and>
     ticks' = (if snd (interpolateRadialGrid d newTicks) = None then newTicks else data_x1 d) \<and>
     data_x2 (fst (interpolateRadialGrid d newTicks)) = data_x2 d \<and>
     data_dx1 (fst (interpolateRadialGrid d newTicks)) = data_dx1 d \<and>
     data_dx2 (fst (interpolateRadialGrid d newTicks)) = data_dx2 d \<and>
     (snd (interpolateRadialGrid d newTicks) = None \<and>
      length (data_dx1 d) = length (data_x1 d) \<and> length newTicks \<noteq> length (data_x1 d) \<longrightarrow>
      length (data_dx1 (fst (interpolateRadialGrid d newTicks)))
        \<noteq> length (data_x1 (fst (interpolateRadialGrid d newTicks))))"
proof -
  obtain vars r where l: "radial_loop (data_x1 d) newTicks (data_variables d) = (vars, r)"
    by (cases "radial_loop (data_x1 d) newTicks (data_variables d)")
  have k: "map fst vars = map fst (data_variables d)"
    using radial_loop_keys[of "data_x1 d" newTicks "data_variables d"] l by simp
  show ?thesis
  proof (cases r)
    case None
    then have "interpolateRadialGrid d newTicks = (d\<lparr>data_variables := vars, data_x1 := newTicks\<rparr>, None)"
      by (simp add: interpolateRadialGrid_def l)
    then show ?thesis using k by auto
  next
    case (Some e)
    then have "interpolateRadialGrid d newTicks = (d\<lparr>data_variables := vars\<rparr>, Some e)"
      by (simp add: interpolateRadialGrid_def l)
    moreover have "d\<lparr>data_variables := vars\<rparr> = d\<lparr>data_variables := vars, data_x1 := data_x1 d\<rparr>"
      by simp
    ultimately show ?thesis using k by (intro exI[of _ vars] exI[of _ "data_x1 d"]) simp
  qed
qed

text \<open>Three radii resampled onto two ticks: \<open>dx1\<close> keeps its three widths.\<close>

theorem interpolateRadialGrid_frame_witness:
  "snd (interpolateRadialGrid radial_mesh [1, 5 / 2]) = None \<and>
   length (data_dx1 radial_mesh) = length (data_x1 radial_mesh) \<and>
   length [1, 5 / 2 :: real] \<noteq> length (data_x1 radial_mesh) \<and>
   data_x1 (fst (interpolateRadialGrid radial_mesh [1, 5 / 2])) = [1, 5 / 2] \<and>
   data_dx1 (fst (interpolateRadialGrid radial_mesh [1, 5 / 2])) = [1, 1, 1] \<and>
   length (data_dx1 (fst (interpolateRadialGrid radial_mesh [1, 5 / 2])))
     \<noteq> length (data_x1 (fst (interpolateRadialGrid radial_mesh [1, 5 / 2])))"
proof -
  have i: "ticks_inside (data_x1 radial_mesh) [1, 5 / 2]"
    by (simp add: ticks_inside_def radial_mesh_def)
  have s: "snd (interpolateRadialGrid radial_mesh [1, 5 / 2]) = None"
    using interpolateRadialGrid_inside[OF radial_mesh_ok i] by simp
  have l: "length (data_dx1 radial_mesh) = length (data_x1 radial_mesh)"
    "length [1, 5 / 2 :: real] \<noteq> length (data_x1 radial_mesh)"
    "data_dx1 radial_mesh = [1, 1, 1]"
    by (simp_all add: radial_mesh_def)
  from interpolateRadialGrid_frame[of radial_mesh "[1, 5 / 2]"] s l
  show ?thesis by auto
qed

subsection \<open>Rotation of vector fields\<close>

lemma np_binop_cases:
  "np_binop f a b =
     (if broadcastable (np_shape a) (np_shape b)
      then Inr (map (\<lambda>i. map (\<lambda>j.
                    f (a ! (if fst (np_shape a) = 1 then 0 else i) ! (if snd (np_shape a) = 1 then 0 else j))
                      (b ! (if fst (np_shape b) = 1 then 0 else i) ! (if snd (np_shape b) = 1 then 0 else j)))
                  [0..<snd (broadcast_shape (np_shape a) (np_shape b))])
               [0..<fst (broadcast_shape (np_shape a) (np_shape b))])
      else Inl ValueError_broadcast)"
  by (cases "np_shape a"; cases "np_shape b")
     (auto simp: np_binop_def broadcastable_def broadcast_shape_def split: option.splits)

lemma np_binop_shape:
  assumes "np_binop f a b = Inr c" "fst (broadcast_shape (np_shape a) (np_shape b)) \<noteq> 0"
  shows "np_shape c = broadcast_shape (np_shape a) (np_shape b)"
proof -
  obtain r cc where s: "broadcast_shape (np_shape a) (np_shape b) = (r, cc)"
    by (cases "broadcast_shape (np_shape a) (np_shape b)")
  from assms(2) s obtain r' where r: "r = Suc r'" by (cases r) auto
  from assms(1) have "c = map (\<lambda>i. map (\<lambda>j.
                    f (a ! (if fst (np_shape a) = 1 then 0 else i) ! (if snd (np_shape a) = 1 then 0 else j))
                      (b ! (if fst (np_shape b) = 1 then 0 else i) ! (if snd (np_shape b) = 1 then 0 else j)))
                  [0..<cc]) [0..<r]"
    unfolding np_binop_cases s by (simp split: if_splits)
  then show ?thesis unfolding s r by (simp add: np_shape_def upt_conv_Cons del: upt_Suc)
qed

lemma np_binop_error:
  "np_binop f a b = Inl e \<Longrightarrow> e = ValueError_broadcast \<and> \<not> broadcastable (np_shape a) (np_shape b)"
  unfolding np_binop_cases by (simp split: if_splits)

lemma np_binop_ok:
  "broadcastable (np_shape a) (np_shape b) \<Longrightarrow> \<exists>c. np_binop f a b = Inr c"
  unfolding np_binop_cases by simp

lemma np_shape_map [simp]: "np_shape (np_map f a) = np_shape a"
  by (cases a) (simp_all add: np_shape_def np_map_def)

lemma np_shape_tile: "v \<noteq> [] \<Longrightarrow> np_shape (tile_transpose v n) = (length v, n)"
  by (cases v) (simp_all add: np_shape_def tile_transpose_def)

lemma broadcast_dim_pos:
  "broadcast_dim m n = Some r \<Longrightarrow> 0 < m \<Longrightarrow> 0 < n \<Longrightarrow> 0 < r"
  by (auto simp: broadcast_dim_def split: if_splits)

lemma broadcast_shape_rows_pos:
  assumes "broadcastable s t" "0 < fst s" "0 < fst t"
  shows "fst (broadcast_shape s t) \<noteq> 0"
  using assms
  by (auto simp: broadcastable_def broadcast_shape_def dest: broadcast_dim_pos)

lemma np_shape_rows: "a \<noteq> [] \<Longrightarrow> 0 < fst (np_shape a)"
  by (simp add: np_shape_def)

lemma rotate_pair_fails:
  assumes ne: "v1 \<noteq> []" "v2 \<noteq> []" "x2 \<noteq> []"
    and bad: "\<not> rotation_ok (np_shape v1) (np_shape v2) (np_shape x2)"
  shows "rotate_pair v1 v2 x2 = Inl ValueError_broadcast"
proof (cases "broadcastable (np_shape v1) (np_shape x2)")
  case False
  then have "np_binop (*) v1 (np_map sin x2) = Inl ValueError_broadcast"
    by (simp add: np_binop_cases)
  then show ?thesis by (simp add: rotate_pair_def)
next
  case b1: True
  then obtain a where a: "np_binop (*) v1 (np_map sin x2) = Inr a"
    using np_binop_ok[of v1 "np_map sin x2"] by auto
  have r1: "fst (broadcast_shape (np_shape v1) (np_shape x2)) \<noteq> 0"
    by (rule broadcast_shape_rows_pos[OF b1 np_shape_rows[OF ne(1)] np_shape_rows[OF ne(3)]])
  have sa: "np_shape a = broadcast_shape (np_shape v1) (np_shape x2)"
    using np_binop_shape[OF a] r1 by simp
  show ?thesis
  proof (cases "broadcastable (np_shape v2) (np_shape x2)")
    case False
    then have "np_binop (*) v2 (np_map cos x2) = Inl ValueError_broadcast"
      by (simp add: np_binop_cases)
    then show ?thesis by (simp add: rotate_pair_def a)
  next
    case b2: True
    then obtain b where b: "np_binop (*) v2 (np_map cos x2) = Inr b"
      using np_binop_ok[of v2 "np_map cos x2"] by auto
    have r2: "fst (broadcast_shape (np_shape v2) (np_shape x2)) \<noteq> 0"
      by (rule broadcast_shape_rows_pos[OF b2 np_shape_rows[OF ne(2)] np_shape_rows[OF ne(3)]])
    have sb: "np_shape b = broadcast_shape (np_shape v2) (np_shape x2)"
      using np_binop_shape[OF b] r2 by simp
    have "\<not> broadcastable (np_shape a) (np_shape b)"
      using bad b1 b2 by (simp add: rotation_ok_def sa sb)
    then have "np_binop (+) a b = Inl ValueError_broadcast"
      by (simp add: np_binop_cases)
    then show ?thesis by (simp add: rotate_pair_def a b)
  qed
qed

lemma rotate_pair_succeeds:
  assumes ne: "v1 \<noteq> []" "v2 \<noteq> []" "x2 \<noteq> []"
    and ok: "rotation_ok (np_shape v1) (np_shape v2) (np_shape x2)"
  shows "\<exists>p q. rotate_pair v1 v2 x2 = Inr (p, q) \<and>
           np_shape p = broadcast_shape (broadcast_shape (np_shape v1) (np_shape x2))
                          (broadcast_shape (np_shape v2) (np_shape x2)) \<and>
           np_shape q = np_shape p"
proof -
  from ok have b1: "broadcastable (np_shape v1) (np_shape x2)"
    and b2: "broadcastable (np_shape v2) (np_shape x2)"
    and b3: "broadcastable (broadcast_shape (np_shape v1) (np_shape x2))
               (broadcast_shape (np_shape v2) (np_shape x2))"
    by (simp_all add: rotation_ok_def)
  have r1: "fst (broadcast_shape (np_shape v1) (np_shape x2)) \<noteq> 0"
    by (rule broadcast_shape_rows_pos[OF b1 np_shape_rows[OF ne(1)] np_shape_rows[OF ne(3)]])
  have r2: "fst (broadcast_shape (np_shape v2) (np_shape x2)) \<noteq> 0"
    by (rule broadcast_shape_rows_pos[OF b2 np_shape_rows[OF ne(2)] np_shape_rows[OF ne(3)]])
  have r3: "fst (broadcast_shape (broadcast_shape (np_shape v1) (np_shape x2))
               (broadcast_shape (np_shape v2) (np_shape x2))) \<noteq> 0"
    using r1 r2 by (intro broadcast_shape_rows_pos[OF b3]) simp_all
  obtain a where a: "np_binop (*) v1 (np_map sin x2) = Inr a"
    using np_binop_ok[of v1 "np_map sin x2"] b1 by auto
  obtain b where b: "np_binop (*) v2 (np_map cos x2) = Inr b"
    using np_binop_ok[of v2 "np_map cos x2"] b2 by auto
  obtain a' where a': "np_binop (*) v1 (np_map cos x2) = Inr a'"
    using np_binop_ok[of v1 "np_map cos x2"] b1 by auto
  obtain b' where b': "np_binop (*) v2 (np_map sin x2) = Inr b'"
    using np_binop_ok[of v2 "np_map sin x2"] b2 by auto
  have sa: "np_shape a = broadcast_shape (np_shape v1) (np_shape x2)"
    "np_shape a' = broadcast_shape (np_shape v1) (np_shape x2)"
    using np_binop_shape[OF a] np_binop_shape[OF a'] r1 by simp_all
  have sb: "np_shape b = broadcast_shape (np_shape v2) (np_shape x2)"
    "np_shape b' = broadcast_shape (np_shape v2) (np_shape x2)"
    using np_binop_shape[OF b] np_binop_shape[OF b'] r2 by simp_all
  obtain p where p: "np_binop (+) a b = Inr p"
    using np_binop_ok[of a b] b3 by (auto simp: sa sb)
  obtain q where q: "np_binop (-) a' b' = Inr q"
    using np_binop_ok[of a' b'] b3 by (auto simp: sa sb)
  have "np_shape p = broadcast_shape (np_shape a) (np_shape b)"
    using np_binop_shape[OF p] r3 by (simp add: sa sb)
  moreover have "np_shape q = broadcast_shape (np_shape a') (np_shape b')"
    using np_binop_shape[OF q] r3 by (simp add: sa sb)
  ultimately show ?thesis
    by (simp add: rotate_pair_def a b a' b' p q sa sb)
qed

lemma np_binop_nth_same:
  assumes s: "np_shape a = np_shape b" and c: "np_binop f a b = Inr c"
    and i: "i < fst (np_shape a)" and j: "j < snd (np_shape a)"
  shows "c ! i ! j = f (a ! i ! j) (b ! i ! j)"
proof -
  obtain r cc where sh: "np_shape a = (r, cc)" by (cases "np_shape a")
  have bs: "broadcast_shape (r, cc) (r, cc) = (r, cc)"
    by (simp add: broadcast_shape_def broadcast_dim_def)
  have br: "broadcastable (r, cc) (r, cc)"
    by (simp add: broadcastable_def broadcast_dim_def)
  have i': "i < r" and j': "j < cc" using i j sh by simp_all
  have i0: "(if r = 1 then 0 else i) = i" using i' by auto
  have j0: "(if cc = 1 then 0 else j) = j" using j' by auto
  from c have "c = map (\<lambda>i. map (\<lambda>j.
                    f (a ! (if r = 1 then 0 else i) ! (if cc = 1 then 0 else j))
                      (b ! (if r = 1 then 0 else i) ! (if cc = 1 then 0 else j)))
                  [0..<cc]) [0..<r]"
    unfolding np_binop_cases s[symmetric] sh by (simp add: bs br)
  then show ?thesis using i' j' by auto
qed

lemma np_map_tile_nth:
  "i < length th \<Longrightarrow> j < n \<Longrightarrow> np_map g (tile_transpose th n) ! i ! j = g (th ! i)"
  by (simp add: np_map_def tile_transpose_def)

lemma rotate_pair_same_shape:
  assumes ne: "th \<noteq> []"
    and s1: "np_shape v1 = (length th, n)" and s2: "np_shape v2 = (length th, n)"
  shows "\<exists>p q. rotate_pair v1 v2 (tile_transpose th n) = Inr (p, q) \<and>
           np_shape p = (length th, n) \<and> np_shape q = (length th, n) \<and>
           (\<forall>i<length th. \<forall>j<n.
              p ! i ! j = v1 ! i ! j * sin (th ! i) + v2 ! i ! j * cos (th ! i) \<and>
              q ! i ! j = v1 ! i ! j * cos (th ! i) - v2 ! i ! j * sin (th ! i))"
proof -
  define x2 where "x2 = tile_transpose th n"
  define r where "r = length th"
  have sh: "np_shape x2 = (r, n)" unfolding x2_def r_def using np_shape_tile[OF ne] .
  have rpos: "0 < r" using ne by (simp add: r_def)
  have bs: "broadcast_shape (r, n) (r, n) = (r, n)"
    by (simp add: broadcast_shape_def broadcast_dim_def)
  have br: "broadcastable (r, n) (r, n)"
    by (simp add: broadcastable_def broadcast_dim_def)
  note s1' = s1[folded r_def] and s2' = s2[folded r_def]
  obtain a where a: "np_binop (*) v1 (np_map sin x2) = Inr a"
    using np_binop_ok[of v1 "np_map sin x2"] br by (auto simp: s1' sh)
  obtain b where b: "np_binop (*) v2 (np_map cos x2) = Inr b"
    using np_binop_ok[of v2 "np_map cos x2"] br by (auto simp: s2' sh)
  obtain a' where a': "np_binop (*) v1 (np_map cos x2) = Inr a'"
    using np_binop_ok[of v1 "np_map cos x2"] br by (auto simp: s1' sh)
  obtain b' where b': "np_binop (*) v2 (np_map sin x2) = Inr b'"
    using np_binop_ok[of v2 "np_map sin x2"] br by (auto simp: s2' sh)
  have sa: "np_shape a = (r, n)" "np_shape a' = (r, n)" "np_shape b = (r, n)" "np_shape b' = (r, n)"
    using np_binop_shape[OF a] np_binop_shape[OF a'] np_binop_shape[OF b] np_binop_shape[OF b'] rpos
    by (simp_all add: s1' s2' sh bs)
  obtain p where p: "np_binop (+) a b = Inr p"
    using np_binop_ok[of a b] br by (auto simp: sa)
  obtain q where q: "np_binop (-) a' b' = Inr q"
    using np_binop_ok[of a' b'] br by (auto simp: sa)
  have sp: "np_shape p = (r, n)" "np_shape q = (r, n)"
    using np_binop_shape[OF p] np_binop_shape[OF q] rpos by (simp_all add: sa bs)
  have el: "p ! i ! j = v1 ! i ! j * sin (th ! i) + v2 ! i ! j * cos (th ! i) \<and>
            q ! i ! j = v1 ! i ! j * cos (th ! i) - v2 ! i ! j * sin (th ! i)"
    if ij: "i < r" "j < n" for i j
  proof -
    have m: "np_map g x2 ! i ! j = g (th ! i)" for g :: "real \<Rightarrow> real"
      unfolding x2_def using ij by (simp add: np_map_tile_nth r_def)
    have "a ! i ! j = v1 ! i ! j * sin (th ! i)"
      using np_binop_nth_same[OF _ a, of i j] ij by (simp add: s1' sh m)
    moreover have "b ! i ! j = v2 ! i ! j * cos (th ! i)"
      using np_binop_nth_same[OF _ b, of i j] ij by (simp add: s2' sh m)
    moreover have "a' ! i ! j = v1 ! i ! j * cos (th ! i)"
      using np_binop_nth_same[OF _ a', of i j] ij by (simp add: s1' sh m)
    moreover have "b' ! i ! j = v2 ! i ! j * sin (th ! i)"
      using np_binop_nth_same[OF _ b', of i j] ij by (simp add: s2' sh m)
    moreover have "p ! i ! j = a ! i ! j + b ! i ! j"
      using np_binop_nth_same[OF _ p, of i j] ij by (simp add: sa)
    moreover have "q ! i ! j = a' ! i ! j - b' ! i ! j"
      using np_binop_nth_same[OF _ q, of i j] ij by (simp add: sa)
    ultimately show ?thesis by simp
  qed
  have "rotate_pair v1 v2 x2 = Inr (p, q)"
    by (simp add: rotate_pair_def a b a' b' p q)
  then show ?thesis using sp el unfolding x2_def r_def by blast
qed

lemma transformVelocity_rotate:
  "transformVelocityFieldToCylindrical d =
     bindE (dict_get (data_variables d) ''vx1'') (\<lambda>vx1.
     bindE (dict_get (data_variables d) ''vx2'') (\<lambda>vx2.
     rotate_pair vx1 vx2 (tile_transpose (data_x2 d) (length (data_x1 d)))))"
  by (simp add: transformVelocityFieldToCylindrical_def rotate_pair_def Let_def)

lemma transformMagnetic_rotate:
  "transformMagneticFieldToCylindrical d =
     bindE (dict_get (data_variables d) ''bx1'') (\<lambda>bx1.
     bindE (dict_get (data_variables d) ''bx2'') (\<lambda>bx2.
     rotate_pair bx1 bx2 (tile_transpose (data_x2 d) (length (data_x1 d)))))"
  by (simp add: transformMagneticFieldToCylindrical_def rotate_pair_def Let_def)

lemma Tools_transformVelocity_rotate:
  "Tools_transformVelocityFieldToCylindrical d =
     bindE (transformVelocityFieldToCylindrical d) (\<lambda>(p, q).
       Inr (d\<lparr>data_variables := dict_set (dict_set (data_variables d) ''vx1'' p) ''vx2'' q\<rparr>))"
  unfolding Tools_transformVelocityFieldToCylindrical_def transformVelocityFieldToCylindrical_def Let_def
  by (simp add: bindE_def split: sum.splits)

lemma rotate_pair_contract:
  assumes "v1 \<noteq> []" "v2 \<noteq> []" "th \<noteq> []"
  shows "rotation_contract (rotate_pair v1 v2 (tile_transpose th n)) v1 v2 th n"
proof -
  have sh: "np_shape (tile_transpose th n) = (length th, n)" using np_shape_tile[OF assms(3)] .
  have ne: "tile_transpose th n \<noteq> []" using assms(3) by (simp add: tile_transpose_def)
  have 1: "rotate_pair v1 v2 (tile_transpose th n) = Inl ValueError_broadcast"
    if "\<not> rotation_ok (np_shape v1) (np_shape v2) (length th, n)"
    using rotate_pair_fails[OF assms(1,2) ne] that by (simp add: sh)
  have 2: "\<exists>p q. rotate_pair v1 v2 (tile_transpose th n) = Inr (p, q) \<and>
                  np_shape p = broadcast_shape (broadcast_shape (np_shape v1) (length th, n))
                                 (broadcast_shape (np_shape v2) (length th, n)) \<and>
                  np_shape q = np_shape p"
    if "rotation_ok (np_shape v1) (np_shape v2) (length th, n)"
    using rotate_pair_succeeds[OF assms(1,2) ne] that by (simp add: sh)
  have 3: "\<exists>p q. rotate_pair v1 v2 (tile_transpose th n) = Inr (p, q) \<and>
             np_shape p = (length th, n) \<and> np_shape q = (length th, n) \<and>
             (\<forall>i<length th. \<forall>j<n.
                p ! i ! j = v1 ! i ! j * sin (th ! i) + v2 ! i ! j * cos (th ! i) \<and>
                q ! i ! j = v1 ! i ! j * cos (th ! i) - v2 ! i ! j * sin (th ! i))"
    if "np_shape v1 = (length th, n)" "np_shape v2 = (length th, n)"
    using rotate_pair_same_shape[OF assms(3) that] .
  show ?thesis unfolding rotation_contract_def Let_def using 1 2 3 by blast
qed

text \<open>
  Claim C9, as amended.  On a mesh with at least one polar coordinate and fields with at
  least one row, the rotation of the velocity pair and of the magnetic pair fails, with
  numpy's broadcast error, exactly when the shapes are not compatible under numpy's
  broadcasting rule (every extent equal to the mesh's or one of the two equal to 1);
  compatible shapes that differ from the mesh's are stretched without notice and a
  result is returned; for fields of the mesh's shape the result has that shape and holds
  \<open>v1 * sin \<theta> + v2 * cos \<theta>\<close> and \<open>v1 * cos \<theta> - v2 * sin \<theta>\<close> with the \<open>\<theta>\<close> of the row.
  The version of \<^verbatim>\<open>simulationData.py\<close> fails and succeeds alike and stores the pair.
\<close>

theorem rotation_broadcast_contract:
  assumes "data_x2 d \<noteq> []"
  shows "(\<forall>vx1 vx2. dict_get (data_variables d) ''vx1'' = Inr vx1 \<and>
                    dict_get (data_variables d) ''vx2'' = Inr vx2 \<and> vx1 \<noteq> [] \<and> vx2 \<noteq> [] \<longrightarrow>
            rotation_contract (transformVelocityFieldToCylindrical d) vx1 vx2
              (data_x2 d) (length (data_x1 d))) \<and>
         (\<forall>bx1 bx2. dict_get (data_variables d) ''bx1'' = Inr bx1 \<and>
                    dict_get (data_variables d) ''bx2'' = Inr bx2 \<and> bx1 \<noteq> [] \<and> bx2 \<noteq> [] \<longrightarrow>
            rotation_contract (transformMagneticFieldToCylindrical d) bx1 bx2
              (data_x2 d) (length (data_x1 d))) \<and>
         Tools_transformVelocityFieldToCylindrical d =
           bindE (transformVelocityFieldToCylindrical d) (\<lambda>(p, q).
             Inr (d\<lparr>data_variables := dict_set (dict_set (data_variables d) ''vx1'' p) ''vx2'' q\<rparr>))"
  using assms
  by (auto simp: transformVelocity_rotate[of d] transformMagnetic_rotate[of d]
        Tools_transformVelocity_rotate[of d] intro!: rotate_pair_contract)

lemma broadcast_mesh_fields:
  "dict_get (data_variables broadcast_mesh) ''vx1'' = Inr [[1, 2]]"
  "dict_get (data_variables broadcast_mesh) ''vx2'' = Inr [[3, 4]]"
  "data_x2 broadcast_mesh = [0, 1]" "data_x1 broadcast_mesh = [1, 2]"
  by (simp_all add: broadcast_mesh_def dict_get_def)

lemma mismatch_mesh_fields:
  "dict_get (data_variables mismatch_mesh) ''vx1'' = Inr [[1, 2, 3]]"
  "dict_get (data_variables mismatch_mesh) ''vx2'' = Inr [[3, 4, 5]]"
  "data_x2 mismatch_mesh = [0, 1]" "data_x1 mismatch_mesh = [1, 2]"
  by (simp_all add: mismatch_mesh_def dict_get_def)

lemma upt2: "[0..<2] = [0, 1]"
  by (simp add: numeral_2_eq_2)

text \<open>
  The claim C9 as stated fails: a velocity pair of shape (1, 2) on a mesh of shape
  (2, 2) is not rejected; its single row is used for both polar rows.
\<close>

theorem rotation_broadcast_counterexample:
  "np_shape [[1, 2 :: real]] \<noteq> (length (data_x2 broadcast_mesh), length (data_x1 broadcast_mesh)) \<and>
   dict_get (data_variables broadcast_mesh) ''vx1'' = Inr [[1, 2]] \<and>
   dict_get (data_variables broadcast_mesh) ''vx2'' = Inr [[3, 4]] \<and>
   transformVelocityFieldToCylindrical broadcast_mesh =
     Inr ([[3, 4], [sin 1 + 3 * cos 1, 2 * sin 1 + 4 * cos 1]],
          [[1, 2], [cos 1 - 3 * sin 1, 2 * cos 1 - 4 * sin 1]])"
  by (simp add: transformVelocity_rotate broadcast_mesh_fields np_shape_def rotate_pair_def
        np_binop_def broadcast_dim_def np_map_def tile_transpose_def upt2)

text \<open>One pair that is stretched and one, of three columns on a mesh of two, that is
  rejected.\<close>

theorem rotation_broadcast_witness:
  "data_x2 broadcast_mesh \<noteq> [] \<and>
   rotation_ok (np_shape [[1, 2 :: real]]) (np_shape [[3, 4 :: real]]) (2, 2) \<and>
   (\<exists>p q. transformVelocityFieldToCylindrical broadcast_mesh = Inr (p, q) \<and>
          np_shape p = (2, 2) \<and> np_shape q = (2, 2)) \<and>
   data_x2 mismatch_mesh \<noteq> [] \<and>
   \<not> rotation_ok (np_shape [[1, 2, 3 :: real]]) (np_shape [[3, 4, 5 :: real]]) (2, 2) \<and>
   transformVelocityFieldToCylindrical mismatch_mesh = Inl ValueError_broadcast"
proof -
  have ok: "rotation_ok (np_shape [[1, 2 :: real]]) (np_shape [[3, 4 :: real]]) (2, 2)"
    by (simp add: rotation_ok_def broadcastable_def broadcast_shape_def broadcast_dim_def np_shape_def)
  have bs: "broadcast_shape (broadcast_shape (np_shape [[1, 2 :: real]]) (2, 2))
              (broadcast_shape (np_shape [[3, 4 :: real]]) (2, 2)) = (2, 2)"
    by (simp add: broadcast_shape_def broadcast_dim_def np_shape_def)
  have bad: "\<not> rotation_ok (np_shape [[1, 2, 3 :: real]]) (np_shape [[3, 4, 5 :: real]]) (2, 2)"
    by (simp add: rotation_ok_def broadcastable_def broadcast_dim_def np_shape_def)
  have n1: "data_x2 broadcast_mesh \<noteq> []" and n2: "data_x2 mismatch_mesh \<noteq> []"
    by (simp_all add: broadcast_mesh_fields mismatch_mesh_fields)
  have l1: "length (data_x2 broadcast_mesh) = 2" "length (data_x1 broadcast_mesh) = 2"
    and l2: "length (data_x2 mismatch_mesh) = 2" "length (data_x1 mismatch_mesh) = 2"
    by (simp_all add: broadcast_mesh_fields mismatch_mesh_fields)
  have ne: "[[1, 2 :: real]] \<noteq> []" "[[3, 4 :: real]] \<noteq> []"
    "[[1, 2, 3 :: real]] \<noteq> []" "[[3, 4, 5 :: real]] \<noteq> []"
    by simp_all
  have "rotation_contract (transformVelocityFieldToCylindrical broadcast_mesh) [[1, 2]] [[3, 4]]
          (data_x2 broadcast_mesh) (length (data_x1 broadcast_mesh))"
    using rotation_broadcast_contract[OF n1] broadcast_mesh_fields(1,2) ne by blast
  then have 1: "\<exists>p q. transformVelocityFieldToCylindrical broadcast_mesh = Inr (p, q) \<and>
          np_shape p = (2, 2) \<and> np_shape q = (2, 2)"
    unfolding rotation_contract_def Let_def l1 using ok bs by metis
  have "rotation_contract (transformVelocityFieldToCylindrical mismatch_mesh) [[1, 2, 3]] [[3, 4, 5]]
          (data_x2 mismatch_mesh) (length (data_x1 mismatch_mesh))"
    using rotation_broadcast_contract[OF n2] mismatch_mesh_fields(1,2) ne by blast
  then have 2: "transformVelocityFieldToCylindrical mismatch_mesh = Inl ValueError_broadcast"
    unfolding rotation_contract_def Let_def l2 using bad by blast
  show ?thesis using ok bad n1 n2 1 2 by blast
qed

subsection \<open>The streamline loop\<close>

lemma loop_continue:
  assumes "\<And>s. integrate f t1 s = Inr (step s)"
    and "speed_above x_range y_range vabs limit st"
  shows "streamline_loop integrate f t1 x_range y_range vabs limit st =
         streamline_loop integrate f t1 x_range y_range vabs limit (trace_step step st)"
  using assms
  by (subst streamline_loop.simps)
     (auto simp: speed_above_def trace_step_def split: prod.splits sum.splits)

lemma loop_stop:
  assumes "speed_not_above x_range y_range vabs limit st"
  shows "streamline_loop integrate f t1 x_range y_range vabs limit st = Some (Inr st)"
  using assms
  by (subst streamline_loop.simps)
     (auto simp: speed_not_above_def split: prod.splits sum.splits)

lemma loop_raise:
  assumes "interpolatePoint2D x_range y_range vabs (np_point (ode_y (fst st))) = Inl e"
  shows "streamline_loop integrate f t1 x_range y_range vabs limit st = Some (Inl e)"
  using assms
  by (subst streamline_loop.simps) (auto split: prod.splits sum.splits)

lemma not_above_cases:
  "\<not> speed_above x_range y_range vabs limit st \<longleftrightarrow>
     speed_not_above x_range y_range vabs limit st \<or>
     (\<exists>e. interpolatePoint2D x_range y_range vabs (np_point (ode_y (fst st))) = Inl e)"
  by (auto simp: speed_above_def speed_not_above_def split: sum.splits)

lemma loop_returns_after:
  assumes total: "\<And>s. integrate f t1 s = Inr (step s)"
  shows "(\<forall>k<n. speed_above x_range y_range vabs limit ((trace_step step ^^ k) st)) \<Longrightarrow>
         speed_not_above x_range y_range vabs limit ((trace_step step ^^ n) st) \<Longrightarrow>
         streamline_loop integrate f t1 x_range y_range vabs limit st
           = Some (Inr ((trace_step step ^^ n) st))"
proof (induction n arbitrary: st)
  case 0
  then show ?case by (simp add: loop_stop)
next
  case (Suc n)
  have a: "speed_above x_range y_range vabs limit st" using Suc.prems(1)[rule_format, of 0] by simp
  have sh: "\<forall>k<n. speed_above x_range y_range vabs limit ((trace_step step ^^ k) (trace_step step st))"
  proof (intro allI impI)
    fix k assume "k < n"
    then have "Suc k < Suc n" by simp
    from Suc.prems(1)[rule_format, OF this]
    show "speed_above x_range y_range vabs limit ((trace_step step ^^ k) (trace_step step st))"
      by (simp add: funpow_swap1)
  qed
  have "streamline_loop integrate f t1 x_range y_range vabs limit (trace_step step st)
           = Some (Inr ((trace_step step ^^ n) (trace_step step st)))"
    using Suc.IH[OF sh] Suc.prems(2) by (simp add: funpow_swap1)
  then show ?case using loop_continue[of integrate f t1 step, OF total a] by (simp add: funpow_swap1)
qed

text \<open>A run of the loop that returns has reached, after finitely many steps, a state
  whose sampled speed is not above the limit (or whose sampling raised).\<close>

lemma loop_returns_only:
  assumes ret: "streamline_loop integrate f t1 x_range y_range vabs limit st = Some r"
    and total: "\<forall>s. integrate f t1 s = Inr (step s)"
  shows "\<exists>n. (\<forall>k<n. speed_above x_range y_range vabs limit ((trace_step step ^^ k) st)) \<and>
        \<not> speed_above x_range y_range vabs limit ((trace_step step ^^ n) st) \<and>
        (\<forall>st'. r = Inr st' \<longrightarrow> st' = (trace_step step ^^ n) st \<and>
                speed_not_above x_range y_range vabs limit st')"
proof -
  let ?Q = "\<lambda>xr yr va li st r.
      \<exists>n. (\<forall>k<n. speed_above xr yr va li ((trace_step step ^^ k) st)) \<and>
        \<not> speed_above xr yr va li ((trace_step step ^^ n) st) \<and>
        (\<forall>st'. r = Inr st' \<longrightarrow> st' = (trace_step step ^^ n) st \<and>
                speed_not_above xr yr va li st')"
  let ?P = "\<lambda>ig ff tt xr yr va li st r. (\<forall>s. ig ff tt s = Inr (step s)) \<longrightarrow> ?Q xr yr va li st r"
  have "?P integrate f t1 x_range y_range vabs limit st r"
  proof (rule streamline_loop.raw_induct[where P = ?P, OF _ ret])
    fix loop :: "'a integrator \<Rightarrow> (real \<Rightarrow> real \<times> real \<Rightarrow> error + fval \<times> fval) \<Rightarrow> real \<Rightarrow>
       axis_range \<Rightarrow> axis_range \<Rightarrow> fgrid \<Rightarrow> real \<Rightarrow> 'a trace_state \<Rightarrow> (error + 'a trace_state) option"
    fix ig :: "'a integrator" and ff tt xr yr va li and st :: "'a trace_state" and r
    assume IH: "\<And>ig ff tt xr yr va li st r. loop ig ff tt xr yr va li st = Some r \<Longrightarrow> ?P ig ff tt xr yr va li st r"
    assume body: "(case st of
      (solver, x, y) \<Rightarrow>
        (case interpolatePoint2D xr yr va (np_point (ode_y solver)) of
           Inl e \<Rightarrow> Some (Inl e)
         | Inr v \<Rightarrow>
            (if fgt v li
             then (case ig ff tt solver of
                     Inl e \<Rightarrow> Some (Inl e)
                   | Inr solver' \<Rightarrow>
                       loop ig ff tt xr yr va li
                         (solver', x @ [fst (ode_y solver')], y @ [snd (ode_y solver')]))
             else Some (Inr (solver, x, y))))) = Some r"
    show "?P ig ff tt xr yr va li st r"
    proof
      assume tot: "\<forall>s. ig ff tt s = Inr (step s)"
      obtain solver x y where st: "st = (solver, x, y)" by (cases st)
      show "?Q xr yr va li st r"
      proof (cases "interpolatePoint2D xr yr va (np_point (ode_y solver))")
        case (Inl e)
        then have "r = Inl e" using body by (simp add: st)
        moreover have "\<not> speed_above xr yr va li st"
          using Inl by (simp add: speed_above_def st)
        ultimately show ?thesis by (intro exI[of _ 0]) simp
      next
        case (Inr v)
        show ?thesis
        proof (cases "fgt v li")
          case False
          then have "r = Inr st" using body Inr by (simp add: st)
          moreover have "\<not> speed_above xr yr va li st" "speed_not_above xr yr va li st"
            using Inr False by (simp_all add: speed_above_def speed_not_above_def st)
          ultimately show ?thesis by (intro exI[of _ 0]) simp
        next
          case True
          then have a: "speed_above xr yr va li st"
            using Inr by (simp add: speed_above_def st)
          have "loop ig ff tt xr yr va li (trace_step step st) = Some r"
            using body Inr True tot by (simp add: st trace_step_def)
          from IH[OF this] tot have "?Q xr yr va li (trace_step step st) r" by (rule mp)
          then obtain n where
            n: "\<forall>k<n. speed_above xr yr va li ((trace_step step ^^ k) (trace_step step st))"
               "\<not> speed_above xr yr va li ((trace_step step ^^ n) (trace_step step st))"
               "\<forall>st'. r = Inr st' \<longrightarrow> st' = (trace_step step ^^ n) (trace_step step st) \<and>
                  speed_not_above xr yr va li st'"
            by (elim exE conjE)
          have "\<forall>k<Suc n. speed_above xr yr va li ((trace_step step ^^ k) st)"
          proof (intro allI impI)
            fix k assume "k < Suc n"
            show "speed_above xr yr va li ((trace_step step ^^ k) st)"
            proof (cases k)
              case 0
              then show ?thesis using a by simp
            next
              case (Suc m)
              then have "m < n" using \<open>k < Suc n\<close> by simp
              then show ?thesis using n(1) Suc by (simp add: funpow_swap1)
            qed
          qed
          then show ?thesis using n(2,3) by (intro exI[of _ "Suc n"]) (simp add: funpow_swap1)
        qed
      qed
    qed
  qed
  then show ?thesis using total by (rule mp)
qed

lemma loop_never_returns:
  assumes total: "\<forall>s. integrate f t1 s = Inr (step s)"
    and above: "\<forall>n. speed_above x_range y_range vabs limit ((trace_step step ^^ n) st)"
  shows "streamline_loop integrate f t1 x_range y_range vabs limit st = None"
proof (cases "streamline_loop integrate f t1 x_range y_range vabs limit st")
  case None
  then show ?thesis .
next
  case (Some r)
  from loop_returns_only[OF Some total] above show ?thesis by blast
qed

lemma trace_step_funpow:
  "(trace_step step ^^ n) (solver, x, y) =
     ((step ^^ n) solver,
      x @ map (\<lambda>k. fst (ode_y ((step ^^ Suc k) solver))) [0..<n],
      y @ map (\<lambda>k. snd (ode_y ((step ^^ Suc k) solver))) [0..<n])"
  by (induction n) (simp_all add: trace_step_def)

lemma computeStreamline_loop:
  assumes "np_binop (\<lambda>a b. fsqrt (fadd (fmul a a) (fmul b b))) vx1 vx2 = Inr vabs"
  shows "computeStreamline integrate internal0 point vx1 vx2 x_range y_range limit =
           (case streamline_loop integrate
                   (\<lambda>t p. singlePointInterpolation t (np_point p) vx1 vx2 x_range y_range)
                   1000 x_range y_range vabs limit
                   (\<lparr>ode_y = point, ode_t = 0, ode_internal = internal0\<rparr>, [], []) of
              None \<Rightarrow> None
            | Some (Inl e) \<Rightarrow> Some (Inl e)
            | Some (Inr (solver, x, y)) \<Rightarrow> Some (Inr (fst (ode_y solver), 0)))"
  using assms by (simp add: computeStreamline_def Let_def)

text \<open>On ranges of non-zero width sampling returns, so that a speed is either above the
  limit or not above it.\<close>

lemma not_above_width:
  assumes "xa \<noteq> xb" "ya \<noteq> yb"
  shows "\<not> speed_above (xa, xb, xn) (ya, yb, yn) vabs limit st \<longleftrightarrow>
         speed_not_above (xa, xb, xn) (ya, yb, yn) vabs limit st"
proof -
  obtain px py where p: "np_point (ode_y (fst st)) = (px, py)"
    by (cases "np_point (ode_y (fst st))")
  show ?thesis
    unfolding speed_above_def speed_not_above_def p interpolatePoint2D_width[OF assms]
    by simp
qed

text \<open>The loop either runs forever, the speed above the limit at every position, or
  returns at the first position whose speed is not above the limit.\<close>

lemma loop_dichotomy:
  assumes total: "\<forall>s. integrate f t1 s = Inr (step s)"
    and width: "xa \<noteq> xb" "ya \<noteq> yb"
  shows "((\<forall>n. speed_above (xa, xb, xn) (ya, yb, yn) vabs limit ((trace_step step ^^ n) st)) \<and>
          streamline_loop integrate f t1 (xa, xb, xn) (ya, yb, yn) vabs limit st = None) \<or>
         (\<exists>n. (\<forall>k<n. speed_above (xa, xb, xn) (ya, yb, yn) vabs limit ((trace_step step ^^ k) st)) \<and>
              speed_not_above (xa, xb, xn) (ya, yb, yn) vabs limit ((trace_step step ^^ n) st) \<and>
              streamline_loop integrate f t1 (xa, xb, xn) (ya, yb, yn) vabs limit st =
                Some (Inr ((trace_step step ^^ n) st)))"
proof (cases "\<forall>n. speed_above (xa, xb, xn) (ya, yb, yn) vabs limit ((trace_step step ^^ n) st)")
  case True
  from loop_never_returns[where integrate = integrate and f = f and step = step, OF total True] True
  show ?thesis by blast
next
  case False
  define Q where "Q n \<longleftrightarrow> \<not> speed_above (xa, xb, xn) (ya, yb, yn) vabs limit ((trace_step step ^^ n) st)" for n
  from False have "\<exists>n. Q n" by (simp add: Q_def)
  then obtain n where n: "Q n" "\<forall>k<n. \<not> Q k"
    using exists_least_iff[of Q] by blast
  have a: "\<forall>k<n. speed_above (xa, xb, xn) (ya, yb, yn) vabs limit ((trace_step step ^^ k) st)"
    using n(2) by (simp add: Q_def)
  have b: "speed_not_above (xa, xb, xn) (ya, yb, yn) vabs limit ((trace_step step ^^ n) st)"
    using n(1) unfolding Q_def not_above_width[OF width] .
  have t: "\<And>s. integrate f t1 s = Inr (step s)" using total by simp
  from loop_returns_after[of integrate f t1 step, OF t a b] a b show ?thesis by blast
qed

text \<open>
  Claim C7, as amended.  \<^verbatim>\<open>computeStreamline\<close> samples the grid \<open>vabs\<close> of local speeds,
  whose entries are \<open>sqrt(vx1\<^sup>2 + vx2\<^sup>2)\<close> of the entries of the two velocity fields, at
  the position of the solver.  With an integrator that does not
  raise and ranges of non-zero width, it returns exactly when, after some number \<open>n\<close> of
  steps, the sampled speed is for the first time not above the limit (at or below it, or
  not-a-number), and then returns the first coordinate of that position; it never
  raises; and it fails to return exactly when the sampled speed is above the limit at
  every position: there is no step budget.  Inside, the loop returns the state reached
  after those \<open>n\<close> steps, and every step has appended the new position to both lists of
  the path.
\<close>

theorem streamline_stops_exactly:
  assumes total: "\<forall>s. integrate
                    (\<lambda>t p. singlePointInterpolation t (np_point p) vx1 vx2 (xa, xb, xn) (ya, yb, yn))
                    1000 s = Inr (step s)"
    and speed: "np_binop (\<lambda>a b. fsqrt (fadd (fmul a a) (fmul b b))) vx1 vx2 = Inr vabs"
    and width: "xa \<noteq> xb" "ya \<noteq> yb"
    and start: "st0 = (\<lparr>ode_y = point, ode_t = 0, ode_internal = internal0\<rparr>, [], [])"
  shows "(np_shape vx1 = np_shape vx2 \<and> i < fst (np_shape vx1) \<and> j < snd (np_shape vx1) \<longrightarrow>
            vabs ! i ! j =
              fsqrt (fadd (fmul (vx1 ! i ! j) (vx1 ! i ! j)) (fmul (vx2 ! i ! j) (vx2 ! i ! j)))) \<and>
         (computeStreamline integrate internal0 point vx1 vx2 (xa, xb, xn) (ya, yb, yn) limit
            = Some (Inr res) \<longleftrightarrow>
          (\<exists>n. (\<forall>k<n. speed_above (xa, xb, xn) (ya, yb, yn) vabs limit ((trace_step step ^^ k) st0)) \<and>
               speed_not_above (xa, xb, xn) (ya, yb, yn) vabs limit ((trace_step step ^^ n) st0) \<and>
               res = (fst (ode_y (fst ((trace_step step ^^ n) st0))), 0))) \<and>
         (computeStreamline integrate internal0 point vx1 vx2 (xa, xb, xn) (ya, yb, yn) limit = None
            \<longleftrightarrow>
          (\<forall>n. speed_above (xa, xb, xn) (ya, yb, yn) vabs limit ((trace_step step ^^ n) st0))) \<and>
         computeStreamline integrate internal0 point vx1 vx2 (xa, xb, xn) (ya, yb, yn) limit
            \<noteq> Some (Inl e) \<and>
         (streamline_loop integrate
            (\<lambda>t p. singlePointInterpolation t (np_point p) vx1 vx2 (xa, xb, xn) (ya, yb, yn))
            1000 (xa, xb, xn) (ya, yb, yn) vabs limit st = Some (Inr st') \<longleftrightarrow>
          (\<exists>n. st' = (trace_step step ^^ n) st \<and>
               (\<forall>k<n. speed_above (xa, xb, xn) (ya, yb, yn) vabs limit ((trace_step step ^^ k) st)) \<and>
               speed_not_above (xa, xb, xn) (ya, yb, yn) vabs limit st')) \<and>
         (trace_step step ^^ m) (solver, x, y) =
            ((step ^^ m) solver,
             x @ map (\<lambda>k. fst (ode_y ((step ^^ Suc k) solver))) [0..<m],
             y @ map (\<lambda>k. snd (ode_y ((step ^^ Suc k) solver))) [0..<m])"
proof -
  let ?f = "\<lambda>t p. singlePointInterpolation t (np_point p) vx1 vx2 (xa, xb, xn) (ya, yb, yn)"
  let ?X = "(xa, xb, xn)" and ?Y = "(ya, yb, yn)"
  let ?loop = "streamline_loop integrate ?f 1000 ?X ?Y vabs limit"
  let ?cs = "computeStreamline integrate internal0 point vx1 vx2 ?X ?Y limit"
  have t: "\<And>s. integrate ?f 1000 s = Inr (step s)" using total by simp
  have cs: "?cs = (case ?loop st0 of
              None \<Rightarrow> None
            | Some (Inl e) \<Rightarrow> Some (Inl e)
            | Some (Inr (solver, x, y)) \<Rightarrow> Some (Inr (fst (ode_y solver), 0)))"
    unfolding start by (rule computeStreamline_loop[OF speed])
  have ret: "?cs = Some (Inr (fst (ode_y (fst s)), 0))" if "?loop st0 = Some (Inr s)" for s
    unfolding cs that by (cases s) simp
  note dich = loop_dichotomy[where integrate = integrate and f = ?f and ?t1.0 = 1000 and step = step
      and vabs = vabs and limit = limit and xn = xn and yn = yn, OF total width]
  have 1: "?cs = Some (Inr res) \<longleftrightarrow>
          (\<exists>n. (\<forall>k<n. speed_above ?X ?Y vabs limit ((trace_step step ^^ k) st0)) \<and>
               speed_not_above ?X ?Y vabs limit ((trace_step step ^^ n) st0) \<and>
               res = (fst (ode_y (fst ((trace_step step ^^ n) st0))), 0))"
  proof
    assume r: "?cs = Some (Inr res)"
    from dich[of st0] show "\<exists>n. (\<forall>k<n. speed_above ?X ?Y vabs limit ((trace_step step ^^ k) st0)) \<and>
               speed_not_above ?X ?Y vabs limit ((trace_step step ^^ n) st0) \<and>
               res = (fst (ode_y (fst ((trace_step step ^^ n) st0))), 0)"
    proof
      assume "(\<forall>n. speed_above ?X ?Y vabs limit ((trace_step step ^^ n) st0)) \<and> ?loop st0 = None"
      then have "?cs = None" unfolding cs by simp
      with r show ?thesis by simp
    next
      assume "\<exists>n. (\<forall>k<n. speed_above ?X ?Y vabs limit ((trace_step step ^^ k) st0)) \<and>
              speed_not_above ?X ?Y vabs limit ((trace_step step ^^ n) st0) \<and>
              ?loop st0 = Some (Inr ((trace_step step ^^ n) st0))"
      then obtain n where n: "\<forall>k<n. speed_above ?X ?Y vabs limit ((trace_step step ^^ k) st0)"
        "speed_not_above ?X ?Y vabs limit ((trace_step step ^^ n) st0)"
        "?loop st0 = Some (Inr ((trace_step step ^^ n) st0))"
        by blast
      from ret[OF n(3)] r have "res = (fst (ode_y (fst ((trace_step step ^^ n) st0))), 0)" by simp
      with n(1,2) show ?thesis by blast
    qed
  next
    assume "\<exists>n. (\<forall>k<n. speed_above ?X ?Y vabs limit ((trace_step step ^^ k) st0)) \<and>
               speed_not_above ?X ?Y vabs limit ((trace_step step ^^ n) st0) \<and>
               res = (fst (ode_y (fst ((trace_step step ^^ n) st0))), 0)"
    then obtain n where n: "\<forall>k<n. speed_above ?X ?Y vabs limit ((trace_step step ^^ k) st0)"
        "speed_not_above ?X ?Y vabs limit ((trace_step step ^^ n) st0)"
        "res = (fst (ode_y (fst ((trace_step step ^^ n) st0))), 0)"
      by blast
    have "?loop st0 = Some (Inr ((trace_step step ^^ n) st0))"
      using loop_returns_after[of integrate ?f 1000 step, OF t n(1) n(2)] .
    from ret[OF this] show "?cs = Some (Inr res)" unfolding n(3) .
  qed
  have 2: "?cs = None \<longleftrightarrow> (\<forall>n. speed_above ?X ?Y vabs limit ((trace_step step ^^ n) st0))"
  proof
    assume r: "?cs = None"
    from dich[of st0] show "\<forall>n. speed_above ?X ?Y vabs limit ((trace_step step ^^ n) st0)"
    proof
      assume "(\<forall>n. speed_above ?X ?Y vabs limit ((trace_step step ^^ n) st0)) \<and> ?loop st0 = None"
      then show ?thesis by simp
    next
      assume "\<exists>n. (\<forall>k<n. speed_above ?X ?Y vabs limit ((trace_step step ^^ k) st0)) \<and>
              speed_not_above ?X ?Y vabs limit ((trace_step step ^^ n) st0) \<and>
              ?loop st0 = Some (Inr ((trace_step step ^^ n) st0))"
      then obtain n where "?loop st0 = Some (Inr ((trace_step step ^^ n) st0))" by blast
      from ret[OF this] r show ?thesis by simp
    qed
  next
    assume a: "\<forall>n. speed_above ?X ?Y vabs limit ((trace_step step ^^ n) st0)"
    have "?loop st0 = None"
      using loop_never_returns[where integrate = integrate and f = ?f and step = step, OF total a] .
    then show "?cs = None" unfolding cs by simp
  qed
  have 3: "?cs \<noteq> Some (Inl e)"
    using dich[of st0]
  proof
    assume "(\<forall>n. speed_above ?X ?Y vabs limit ((trace_step step ^^ n) st0)) \<and> ?loop st0 = None"
    then show ?thesis unfolding cs by simp
  next
    assume "\<exists>n. (\<forall>k<n. speed_above ?X ?Y vabs limit ((trace_step step ^^ k) st0)) \<and>
              speed_not_above ?X ?Y vabs limit ((trace_step step ^^ n) st0) \<and>
              ?loop st0 = Some (Inr ((trace_step step ^^ n) st0))"
    then obtain n where "?loop st0 = Some (Inr ((trace_step step ^^ n) st0))" by blast
    from ret[OF this] show ?thesis by simp
  qed
  have 4: "?loop st = Some (Inr st') \<longleftrightarrow>
            (\<exists>n. st' = (trace_step step ^^ n) st \<and>
                 (\<forall>k<n. speed_above ?X ?Y vabs limit ((trace_step step ^^ k) st)) \<and>
                 speed_not_above ?X ?Y vabs limit st')"
  proof
    assume "?loop st = Some (Inr st')"
    from loop_returns_only[OF this total]
    show "\<exists>n. st' = (trace_step step ^^ n) st \<and>
                 (\<forall>k<n. speed_above ?X ?Y vabs limit ((trace_step step ^^ k) st)) \<and>
                 speed_not_above ?X ?Y vabs limit st'"
      by blast
  next
    assume "\<exists>n. st' = (trace_step step ^^ n) st \<and>
                 (\<forall>k<n. speed_above ?X ?Y vabs limit ((trace_step step ^^ k) st)) \<and>
                 speed_not_above ?X ?Y vabs limit st'"
    then obtain n where n: "st' = (trace_step step ^^ n) st"
      "\<forall>k<n. speed_above ?X ?Y vabs limit ((trace_step step ^^ k) st)"
      "speed_not_above ?X ?Y vabs limit ((trace_step step ^^ n) st)"
      by blast
    show "?loop st = Some (Inr st')"
      unfolding n(1) using loop_returns_after[of integrate ?f 1000 step, OF t n(2) n(3)] .
  qed
  have 0: "vabs ! i ! j =
              fsqrt (fadd (fmul (vx1 ! i ! j) (vx1 ! i ! j)) (fmul (vx2 ! i ! j) (vx2 ! i ! j)))"
    if "np_shape vx1 = np_shape vx2 \<and> i < fst (np_shape vx1) \<and> j < snd (np_shape vx1)"
    using np_binop_nth_same[OF _ speed, of i j] that by blast
  show ?thesis
    using 0 1 2 3 4 trace_step_funpow[where step = step and n = m and solver = solver and x = x and y = y]
    by blast
qed

lemma rest_sample: "map_coordinates_order1 [[Num 0]] pp = Num 0"
proof -
  have sh: "np_shape [[Num 0]] = (1, 1)" by (simp add: np_shape_def)
  obtain a b where pp: "pp = (a, b)" by (cases pp)
  show ?thesis
  proof (cases a)
    case NaN
    then show ?thesis unfolding pp by (simp add: map_coordinates_order1_def sh)
  next
    case (Num r)
    note ar = this
    show ?thesis
    proof (cases b)
      case NaN
      then show ?thesis unfolding pp ar by (simp add: map_coordinates_order1_def sh)
    next
      case (Num c)
      show ?thesis
      proof (cases "r < 0 \<or> real (1::nat) - 1 < r \<or> c < 0 \<or> real (1::nat) - 1 < c")
        case True
        then show ?thesis unfolding pp ar Num by (intro map_coordinates_outside[OF sh])
      next
        case False
        then have "r = 0" "c = 0" by simp_all
        then show ?thesis unfolding pp ar Num by (simp add: map_coordinates_order1_def sh)
      qed
    qed
  qed
qed

lemma rest_above: "speed_above (0, 1, 1) (0, 1, 1) [[Num 0]] (- 1) st"
proof -
  obtain px py where p: "np_point (ode_y (fst st)) = (px, py)"
    by (cases "np_point (ode_y (fst st))")
  show ?thesis
    unfolding speed_above_def p by (simp add: interpolatePoint2D_width rest_sample)
qed

lemma rest_vabs:
  "np_binop (\<lambda>a b. fsqrt (fadd (fmul a a) (fmul b b))) [[Num 0]] [[Num 0]] = Inr [[Num 0]]"
  by (simp add: np_binop_def np_shape_def broadcast_dim_def)

text \<open>
  The claim C7 as stated also lets the trace stop when the number of steps exceeds
  \<open>maxSteps\<close>.  \<^verbatim>\<open>computeStreamline\<close> has no such parameter and counts no steps: with a
  field at rest and the limit \<open>-1\<close> the sampled speed 0 is above the limit everywhere,
  and the trace never returns.
\<close>

theorem streamline_no_step_budget_counterexample:
  "computeStreamline drift_integrator () (0, 0) [[Num 0]] [[Num 0]] (0, 1, 1) (0, 1, 1) (- 1) = None"
proof -
  have "streamline_loop drift_integrator
          (\<lambda>t p. singlePointInterpolation t (np_point p) [[Num 0]] [[Num 0]] (0, 1, 1) (0, 1, 1))
          1000 (0, 1, 1) (0, 1, 1) [[Num 0]] (- 1)
          (\<lparr>ode_y = (0, 0), ode_t = 0, ode_internal = ()\<rparr>, [], []) = None"
    by (rule loop_never_returns[where step = drift_step])
       (simp_all add: drift_integrator_def rest_above)
  then show ?thesis by (simp add: computeStreamline_loop[OF rest_vabs])
qed

lemma ramp_vabs:
  "np_binop (\<lambda>a b. fsqrt (fadd (fmul a a) (fmul b b))) ramp_vx1 ramp_vx2 = Inr ramp_vx1"
  by (simp add: np_binop_def np_shape_def broadcast_dim_def ramp_vx1_def ramp_vx2_def
        numeral_3_eq_3 upt_rec[of 0])

lemma ramp_samples:
  "interpolatePoint2D (0, 3, 3) (0, 1, 1) ramp_vx1 (np_point (0, 0)) = Inr (Num 1)"
  "interpolatePoint2D (0, 3, 3) (0, 1, 1) ramp_vx1 (np_point (1, 0)) = Inr (Num 1)"
  "interpolatePoint2D (0, 3, 3) (0, 1, 1) ramp_vx1 (np_point (2, 0)) = Inr (Num 0)"
  by (simp_all add: np_point_def interpolatePoint2D_width map_coordinates_order1_def np_shape_def
        ramp_vx1_def)

text \<open>A row of speeds 1, 1, 0 from the velocity fields \<open>[[1, 1, 0]]\<close> and \<open>[[0, 0, 0]]\<close>, and
  the limit 1/2: the trace takes two steps and stops at the position \<open>(2, 0)\<close>.\<close>

theorem streamline_stops_exactly_witness:
  "(\<forall>s. drift_integrator
          (\<lambda>t p. singlePointInterpolation t (np_point p) ramp_vx1 ramp_vx2 (0, 3, 3) (0, 1, 1))
          1000 s = Inr (drift_step s)) \<and>
   np_binop (\<lambda>a b. fsqrt (fadd (fmul a a) (fmul b b))) ramp_vx1 ramp_vx2 = Inr ramp_vx1 \<and>
   (0::real) \<noteq> 3 \<and> (0::real) \<noteq> 1 \<and>
   speed_above (0, 3, 3) (0, 1, 1) ramp_vx1 (1 / 2) (start_solver, [], []) \<and>
   speed_above (0, 3, 3) (0, 1, 1) ramp_vx1 (1 / 2) (drift_step start_solver, [1], [0]) \<and>
   speed_not_above (0, 3, 3) (0, 1, 1) ramp_vx1 (1 / 2)
     (drift_step (drift_step start_solver), [1, 2], [0, 0]) \<and>
   computeStreamline drift_integrator () (0, 0) ramp_vx1 ramp_vx2 (0, 3, 3) (0, 1, 1) (1 / 2)
     = Some (Inr (2, 0))"
proof -
  let ?f = "\<lambda>t p. singlePointInterpolation t (np_point p) ramp_vx1 ramp_vx2 (0, 3, 3) (0, 1, 1)"
  let ?st = "(start_solver, [] :: real list, [] :: real list)"
  let ?st' = "(drift_step (drift_step start_solver), [1, 2 :: real], [0, 0 :: real])"
  have total: "\<forall>s. drift_integrator ?f 1000 s = Inr (drift_step s)"
    by (simp add: drift_integrator_def)
  have w: "(0::real) \<noteq> 3" "(0::real) \<noteq> 1" by simp_all
  have st: "?st = (\<lparr>ode_y = (0, 0), ode_t = 0, ode_internal = ()\<rparr>, [], [])"
    by (simp add: start_solver_def)
  have s1: "trace_step drift_step ?st = (drift_step start_solver, [1], [0])"
    by (simp add: trace_step_def drift_step_def start_solver_def)
  have s2: "trace_step drift_step (drift_step start_solver, [1], [0]) = ?st'"
    by (simp add: trace_step_def drift_step_def start_solver_def)
  have it: "(trace_step drift_step ^^ 2) ?st = ?st'"
    by (simp add: numeral_2_eq_2 s1 s2)
  have a0: "speed_above (0, 3, 3) (0, 1, 1) ramp_vx1 (1 / 2) ?st"
    by (simp add: speed_above_def start_solver_def ramp_samples)
  have a1: "speed_above (0, 3, 3) (0, 1, 1) ramp_vx1 (1 / 2) (drift_step start_solver, [1], [0])"
    by (simp add: speed_above_def start_solver_def drift_step_def ramp_samples)
  have n2: "speed_not_above (0, 3, 3) (0, 1, 1) ramp_vx1 (1 / 2) ?st'"
    by (simp add: speed_not_above_def start_solver_def drift_step_def ramp_samples)
  have "\<forall>k<2. speed_above (0, 3, 3) (0, 1, 1) ramp_vx1 (1 / 2) ((trace_step drift_step ^^ k) ?st)"
    using a0 a1 by (simp add: numeral_2_eq_2 less_Suc_eq s1)
  moreover have "((2::real), (0::real)) = (fst (ode_y (fst ((trace_step drift_step ^^ 2) ?st))), 0)"
    unfolding it by (simp add: drift_step_def start_solver_def)
  ultimately have "\<exists>n. (\<forall>k<n. speed_above (0, 3, 3) (0, 1, 1) ramp_vx1 (1 / 2)
                          ((trace_step drift_step ^^ k) ?st)) \<and>
      speed_not_above (0, 3, 3) (0, 1, 1) ramp_vx1 (1 / 2) ((trace_step drift_step ^^ n) ?st) \<and>
      ((2::real), (0::real)) = (fst (ode_y (fst ((trace_step drift_step ^^ n) ?st))), 0)"
    using n2 it by (intro exI[of _ 2]) simp
  with streamline_stops_exactly[where integrate = drift_integrator and step = drift_step
      and ?vx1.0 = ramp_vx1 and ?vx2.0 = ramp_vx2 and vabs = ramp_vx1
      and xa = 0 and xb = 3 and xn = 3 and ya = 0 and yb = 1 and yn = 1
      and point = "(0, 0)" and ?internal0.0 = "()" and ?st0.0 = ?st
      and limit = "1 / 2" and res = "(2, 0)", OF total ramp_vabs w st]
  have "computeStreamline drift_integrator () (0, 0) ramp_vx1 ramp_vx2 (0, 3, 3) (0, 1, 1) (1 / 2)
          = Some (Inr (2, 0))"
    by blast
  then show ?thesis using total ramp_vabs a0 a1 n2 by simp
qed

end
